theory Spec2Isabelle
  imports Complex_Main
begin

section \<open>Data model\<close>

text \<open>
  A JavaScript string is a sequence of UTF-16 code units; it is modelled as the list of
  its code units, each a natural number, so that \<open>.length\<close> is \<^const>\<open>length\<close>. The
  functions below are defined on every such list, and the theorems hold for all of
  them. \<open>js\<close> turns an ASCII literal into its code units.

  \<^verbatim>\<open>interface Block { id: string; type: string; content: string; number?: number }\<close>
  (src/types/index.ts). The fields \<open>id\<close> and \<open>type\<close> are only ever compared for
  equality, \<open>type\<close> with ASCII literals, so they are kept as the identifiers they are.
  The field \<open>type\<close> is a plain string in the source, and it is one here. The optional
  \<open>number\<close> is only ever written with a counter that starts at 0 and is incremented, so
  it is a \<^typ>\<open>nat option\<close>, \<^const>\<open>None\<close> for \<open>undefined\<close>.
\<close>

type_synonym jsstring = "nat list"

definition js :: "string \<Rightarrow> jsstring" where
  "js s = map of_char s"

record Block =
  block_id :: string
  block_type :: string
  content :: jsstring
  number :: "nat option"

section \<open>Renumbering (src/utils/blockUtils.ts, updateBlockNumbers)\<close>

text \<open>
  The source maps over the blocks with two mutable counters \<open>sceneCount\<close> and
  \<open>dialogueCount\<close>, both 0 at the start. The counters are threaded through the
  recursion; each branch pre-increments its counter and spreads the block with the new
  \<open>number\<close>.
\<close>

fun updateBlockNumbers_from :: "nat \<Rightarrow> nat \<Rightarrow> Block list \<Rightarrow> Block list" where
  "updateBlockNumbers_from sceneCount dialogueCount [] = []"
| "updateBlockNumbers_from sceneCount dialogueCount (block # blocks) =
     (if block_type block = ''scene-heading'' then
        block\<lparr>number := Some (Suc sceneCount)\<rparr>
          # updateBlockNumbers_from (Suc sceneCount) dialogueCount blocks
      else if block_type block = ''dialogue'' then
        block\<lparr>number := Some (Suc dialogueCount)\<rparr>
          # updateBlockNumbers_from sceneCount (Suc dialogueCount) blocks
      else
        block\<lparr>number := None\<rparr>
          # updateBlockNumbers_from sceneCount dialogueCount blocks)"

definition updateBlockNumbers :: "Block list \<Rightarrow> Block list" where
  "updateBlockNumbers blocks = updateBlockNumbers_from 0 0 blocks"

section \<open>Pagination (src/utils/blockUtils.ts, src/constants/editorConstants.ts)\<close>

text \<open>
  \<open>BLOCK_HEIGHTS\<close> is the object literal of editorConstants.ts, read as a finite map
  from its eight keys to the numbers its decimal literals denote: \<open>2.5\<close> is \<open>5/2\<close> and
  \<open>1.8\<close> is \<open>9/5\<close>.
\<close>

definition BLOCK_HEIGHTS :: "string \<Rightarrow> real option" where
  "BLOCK_HEIGHTS = map_of
     [(''scene-heading'', 5 / 2),
      (''action'', 2),
      (''character'', 2),
      (''parenthetical'', 9 / 5),
      (''dialogue'', 2),
      (''transition'', 5 / 2),
      (''text'', 2),
      (''shot'', 5 / 2)]"

definition MAX_PAGE_HEIGHT :: real where
  "MAX_PAGE_HEIGHT = 55"

definition BLOCK_TYPES :: "string list" where
  "BLOCK_TYPES = [''scene-heading'', ''action'', ''character'', ''parenthetical'',
     ''dialogue'', ''transition'', ''text'', ''shot'']"

text \<open>
  \<^verbatim>\<open>const baseHeight = BLOCK_HEIGHTS[block.type] || 2;
  const contentLines = Math.max(1, Math.ceil(block.content.length / 75));
  return baseHeight * contentLines;\<close>
  as the number the expression denotes over the reals.
\<close>

definition calculateBlockHeight :: "Block \<Rightarrow> real" where
  "calculateBlockHeight block =
     (let baseHeight = (case BLOCK_HEIGHTS (block_type block) of Some h \<Rightarrow> h | None \<Rightarrow> 2);
          contentLines = max 1 \<lceil>real (length (content block)) / 75\<rceil>
      in baseHeight * real_of_int contentLines)"

subsection \<open>Double precision\<close>

text \<open>
  A JavaScript number is an IEEE 754 double, and every arithmetic operation gives the
  double nearest to the exact result, a tie going to the double with the even
  significand. \<open>rne\<close> rounds a real number to the nearest integer, ties to even. The
  doubles between \<open>2^e\<close> and \<open>2^(e+1)\<close> are the multiples of \<open>2^(e-52)\<close>: \<open>binade x\<close> is
  that \<open>e\<close> for \<open>x\<close>, \<open>ulp x\<close> the distance between the doubles there, and \<open>double x\<close>
  the double nearest to \<open>x\<close>. The numbers of the pagination are 0 or lie between 1 and
  \<open>2^50\<close>, far from the largest and the smallest double, so the exponent needs no bound.
\<close>

definition rne :: "real \<Rightarrow> int" where
  "rne x =
     (let n = \<lfloor>x\<rfloor>; r = x - of_int n in
      if r < 1 / 2 then n
      else if 1 / 2 < r then n + 1
      else if even n then n else n + 1)"

definition binade :: "real \<Rightarrow> int" where
  "binade x = \<lfloor>log 2 \<bar>x\<bar>\<rfloor>"

definition ulp :: "real \<Rightarrow> real" where
  "ulp x = 2 powr of_int (binade x - 52)"

definition double :: "real \<Rightarrow> real" where
  "double x = (if x = 0 then 0 else of_int (rne (x / ulp x)) * ulp x)"

text \<open>
  \<open>calculateBlockHeight\<close> as JavaScript evaluates it: the literal of the base height is
  the double nearest to it, and the product is rounded to a double. The quotient
  \<open>block.content.length / 75\<close> is rounded too, which does not change its ceiling for a
  length below \<open>2^53\<close>, the bound of the language on the length of a string (lemma
  \<open>ceiling_double\<close>).
\<close>

definition calculateBlockHeight_double :: "Block \<Rightarrow> real" where
  "calculateBlockHeight_double block =
     (let baseHeight = (case BLOCK_HEIGHTS (block_type block) of
                          Some h \<Rightarrow> double h | None \<Rightarrow> 2);
          contentLines = max 1 \<lceil>double (real (length (content block)) / 75)\<rceil>
      in double (baseHeight * real_of_int contentLines))"

subsection \<open>organizeBlocksIntoPages\<close>

text \<open>
  The state of \<open>organizeBlocksIntoPages\<close>: the closed \<open>pages\<close>, the \<open>currentPage\<close>
  and the \<open>currentHeight\<close>, the three variables its closure \<open>addBlockToPage\<close> mutates.
  Every sum is rounded to a double before it is compared or stored.
\<close>

type_synonym page_state = "Block list list \<times> Block list \<times> real"

definition addBlockToPage :: "Block \<Rightarrow> page_state \<Rightarrow> page_state" where
  "addBlockToPage block st =
     (case st of (pages, currentPage, currentHeight) \<Rightarrow>
        let blockHeight = calculateBlockHeight_double block in
        if double (currentHeight + blockHeight) > MAX_PAGE_HEIGHT \<and> length currentPage > 0
        then (pages @ [currentPage], [block], double (0 + blockHeight))
        else (pages, currentPage @ [block], double (currentHeight + blockHeight)))"

text \<open>
  The keep-together branch of the loop body: taken for a character block whose
  successor \<open>blocks[i + 1]\<close> exists and is a dialogue or a parenthetical. It closes the
  current page when the pair does not fit on it, and leaves the character block to
  \<open>addBlockToPage\<close>.
\<close>

definition keepTogether :: "Block \<Rightarrow> Block \<Rightarrow> page_state \<Rightarrow> page_state" where
  "keepTogether block nextBlock st =
     (case st of (pages, currentPage, currentHeight) \<Rightarrow>
        let combinedHeight =
              double (calculateBlockHeight_double block + calculateBlockHeight_double nextBlock)
        in if double (currentHeight + combinedHeight) > MAX_PAGE_HEIGHT
           then (if length currentPage > 0 then (pages @ [currentPage], [], 0)
                 else (pages, currentPage, currentHeight))
           else (pages, currentPage, currentHeight))"

text \<open>
  One iteration of the \<open>for\<close> loop on \<open>block = blocks[i]\<close>, with \<open>rest\<close> the blocks
  after it, so that \<open>nextBlock = blocks[i + 1]\<close> is the head of \<open>rest\<close> and is
  \<open>undefined\<close> (falsy) when \<open>rest\<close> is empty.
\<close>

definition loop_body :: "Block \<Rightarrow> Block list \<Rightarrow> page_state \<Rightarrow> page_state" where
  "loop_body block rest st =
     (case rest of
        nextBlock # _ \<Rightarrow>
          if block_type block = ''character'' \<and>
             (block_type nextBlock = ''dialogue'' \<or> block_type nextBlock = ''parenthetical'')
          then addBlockToPage block (keepTogether block nextBlock st)
          else addBlockToPage block st
      | [] \<Rightarrow> addBlockToPage block st)"

fun organize_loop :: "Block list \<Rightarrow> page_state \<Rightarrow> Block list list" where
  "organize_loop [] (pages, currentPage, currentHeight) =
     (if length currentPage > 0 then pages @ [currentPage] else pages)"
| "organize_loop (block # rest) st = organize_loop rest (loop_body block rest st)"

definition organizeBlocksIntoPages :: "Block list \<Rightarrow> Block list list" where
  "organizeBlocksIntoPages blocks = organize_loop blocks ([], [], 0)"

text \<open>
  The page that holds the block at position \<open>i\<close> of the document: the index of the page
  in which position \<open>i\<close> of the concatenated pages falls.
\<close>

fun page_of :: "'a list list \<Rightarrow> nat \<Rightarrow> nat" where
  "page_of [] i = 0"
| "page_of (p # ps) i = (if i < length p then 0 else Suc (page_of ps (i - length p)))"

text \<open>The blocks that come before position \<open>i\<close> on its page.\<close>

fun before_on_page :: "'a list list \<Rightarrow> nat \<Rightarrow> 'a list" where
  "before_on_page [] i = []"
| "before_on_page (p # ps) i =
     (if i < length p then take i p else before_on_page ps (i - length p))"

text \<open>
  The height of a page as the loop adds it up, block by block from 0: the value of
  \<open>currentHeight\<close> when \<open>currentPage\<close> holds these blocks.
\<close>

definition page_height :: "Block list \<Rightarrow> real" where
  "page_height page = foldl (\<lambda>h b. double (h + calculateBlockHeight_double b)) 0 page"

text \<open>
  A block whose height is computed without rounding: its type is not parenthetical, so
  its base height is 2 or 2.5, and its content is a string of the language.
\<close>

definition exact_height :: "Block \<Rightarrow> bool" where
  "exact_height b = (block_type b \<noteq> ''parenthetical'' \<and> length (content b) < 2 ^ 53)"

text \<open>A multiple of one half, at most \<open>N / 2\<close>.\<close>

definition halves :: "nat \<Rightarrow> real \<Rightarrow> bool" where
  "halves N x = (\<exists>n \<le> N. x = real n / 2)"

section \<open>Strings and regular expressions\<close>

text \<open>
  The built-in string operations the source calls. \<open>isSpace\<close> is the white space of
  \<open>String.prototype.trim\<close> and of the regular-expression class \<open>\s\<close>, the same set in
  both: the ECMAScript white space (tab U+0009, vertical tab U+000B, form feed U+000C,
  space U+0020, no-break space U+00A0, U+1680, U+2000 to U+200A, U+202F, U+205F,
  U+3000, U+FEFF) and the line terminators (U+000A, U+000D, U+2028, U+2029).
  \<open>isUpperAZ\<close> is the class \<open>[A-Z]\<close>.
\<close>

definition isSpace :: "nat \<Rightarrow> bool" where
  "isSpace c =
     (c \<in> set [0x09, 0x0A, 0x0B, 0x0C, 0x0D, 0x20, 0xA0, 0x1680, 0x2028, 0x2029, 0x202F,
                0x205F, 0x3000, 0xFEFF]
      \<or> (0x2000 \<le> c \<and> c \<le> 0x200A))"

definition isUpperAZ :: "nat \<Rightarrow> bool" where
  "isUpperAZ c = (65 \<le> c \<and> c \<le> 90)"

text \<open>
  The flag \<open>i\<close> compares the canonical forms of two code units. Every pattern character
  of the source is ASCII, and the canonical form of a code unit from 128 on is never
  ASCII, so for these comparisons the canonical form is: a letter \<open>a\<close> to \<open>z\<close> becomes
  \<open>A\<close> to \<open>Z\<close>, every other code unit stays.
\<close>

definition canon :: "nat \<Rightarrow> nat" where
  "canon c = (if 97 \<le> c \<and> c \<le> 122 then c - 32 else c)"

text \<open>
  \<open>String.prototype.toUpperCase\<close> follows the Unicode case tables of the engine, which
  are no part of the repository: the handlers that call it take it as the parameter
  \<open>toUpperCase\<close>. On ASCII text it is \<open>upperASCII\<close>.
\<close>

definition upperASCII :: "jsstring \<Rightarrow> jsstring" where
  "upperASCII s = map canon s"

definition trim :: "jsstring \<Rightarrow> jsstring" where
  "trim s = rev (dropWhile isSpace (rev (dropWhile isSpace s)))"

definition startsWith :: "'a list \<Rightarrow> 'a list \<Rightarrow> bool" where
  "startsWith s p = (take (length p) s = p)"

definition endsWith :: "'a list \<Rightarrow> 'a list \<Rightarrow> bool" where
  "endsWith s p = (length p \<le> length s \<and> drop (length s - length p) s = p)"

text \<open>
  The regular expressions of the source use character classes, sequence, alternation,
  \<open>?\<close>, and \<open>*\<close> on a character class; none has the flag \<open>u\<close>, so they work on code
  units. \<open>rests r s\<close> lists what is left of \<open>s\<close> after each way \<open>r\<close> can match at its
  start, in the order a backtracking matcher tries them.
\<close>

datatype rx =
    Eps
  | Cls "nat \<Rightarrow> bool"
  | Seq rx rx
  | Alt rx rx
  | Opt rx
  | Many "nat \<Rightarrow> bool"

fun rests :: "rx \<Rightarrow> jsstring \<Rightarrow> jsstring list" where
  "rests Eps s = [s]"
| "rests (Cls P) s = (case s of [] \<Rightarrow> [] | c # cs \<Rightarrow> if P c then [cs] else [])"
| "rests (Seq a b) s = concat (map (rests b) (rests a s))"
| "rests (Alt a b) s = rests a s @ rests b s"
| "rests (Opt a) s = rests a s @ [s]"
| "rests (Many P) s = map (\<lambda>k. drop k s) (rev [0 ..< Suc (length (takeWhile P s))])"

text \<open>A literal string, and a literal string under the flag \<open>i\<close>.\<close>

fun lit :: "jsstring \<Rightarrow> rx" where
  "lit [] = Eps"
| "lit (x # xs) = Seq (Cls (\<lambda>c. c = x)) (lit xs)"

fun lit_i :: "jsstring \<Rightarrow> rx" where
  "lit_i [] = Eps"
| "lit_i (x # xs) = Seq (Cls (\<lambda>c. canon c = canon x)) (lit_i xs)"

text \<open>
  \<open>/^r/.test(s)\<close>, \<open>/^r$/.test(s)\<close> and \<open>/r$/.test(s)\<close>: without the flag \<open>m\<close>, \<open>^\<close> is
  the start and \<open>$\<close> the end of the whole string; without \<open>^\<close> the match may start at
  any position.
\<close>

definition test_start :: "rx \<Rightarrow> jsstring \<Rightarrow> bool" where
  "test_start r s = (rests r s \<noteq> [])"

definition test_whole :: "rx \<Rightarrow> jsstring \<Rightarrow> bool" where
  "test_whole r s = ([] \<in> set (rests r s))"

definition test_end :: "rx \<Rightarrow> jsstring \<Rightarrow> bool" where
  "test_end r s = list_ex (\<lambda>k. [] \<in> set (rests r (drop k s))) [0 ..< Suc (length s)]"

section \<open>Format detection (src/utils/blockUtils.ts, detectFormat and getNextBlockType)\<close>

text \<open>\<^verbatim>\<open>/^(INT|EXT|INT\/EXT|I\/E)\.?\s/i\<close>\<close>

definition scene_heading_rx :: rx where
  "scene_heading_rx =
     Seq (Alt (lit_i (js ''INT'')) (Alt (lit_i (js ''EXT''))
            (Alt (lit_i (js ''INT/EXT'')) (lit_i (js ''I/E'')))))
         (Seq (Opt (Cls (\<lambda>c. c = of_char (CHR ''.'')))) (Cls isSpace))"

text \<open>\<^verbatim>\<open>/TO:$/\<close> and \<^verbatim>\<open>/^FADE (IN|OUT)|^DISSOLVE/i\<close>\<close>

definition to_rx :: rx where
  "to_rx = lit (js ''TO:'')"

definition fade_rx :: rx where
  "fade_rx =
     Alt (Seq (lit_i (js ''FADE '')) (Alt (lit_i (js ''IN'')) (lit_i (js ''OUT''))))
         (lit_i (js ''DISSOLVE''))"

text \<open>\<^verbatim>\<open>/^[A-Z][A-Z\s.()]*$/\<close>\<close>

definition character_rx :: rx where
  "character_rx =
     Seq (Cls isUpperAZ)
         (Many (\<lambda>c. isUpperAZ c \<or> isSpace c \<or> c = of_char (CHR ''.'')
                    \<or> c = of_char (CHR ''('') \<or> c = of_char (CHR '')'')))"

definition detectFormat :: "jsstring \<Rightarrow> string option" where
  "detectFormat text =
     (let trimmed = trim text in
      if test_start scene_heading_rx trimmed then Some ''scene-heading''
      else if test_end to_rx trimmed \<or> test_start fade_rx trimmed then Some ''transition''
      else if test_whole character_rx trimmed \<and> length trimmed > 0 then Some ''character''
      else if startsWith trimmed (js ''('') \<and> endsWith trimmed (js '')'')
        then Some ''parenthetical''
      else None)"

text \<open>\<^verbatim>\<open>/^(INT\.|EXT\.|INT\.\/EXT\.|EXT\.\/INT\.|I\/E\.)$/i\<close>\<close>

definition scene_prefix_rx :: rx where
  "scene_prefix_rx =
     Alt (lit_i (js ''INT.'')) (Alt (lit_i (js ''EXT.'')) (Alt (lit_i (js ''INT./EXT.''))
       (Alt (lit_i (js ''EXT./INT.'')) (lit_i (js ''I/E.'')))))"

definition getNextBlockType :: "string \<Rightarrow> jsstring \<Rightarrow> bool \<Rightarrow> string" where
  "getNextBlockType currentType content' isDoubleEnter =
     (let isScenePrefix = test_whole scene_prefix_rx (trim content') in
      if currentType = ''scene-heading'' \<and> isScenePrefix then ''scene-heading''
      else if currentType = ''scene-heading'' then ''action''
      else case detectFormat content' of
        Some detectedFormat \<Rightarrow> detectedFormat
      | None \<Rightarrow>
          if currentType = ''action'' then ''character''
          else if currentType = ''character'' then ''dialogue''
          else if currentType = ''parenthetical'' then ''dialogue''
          else if currentType = ''dialogue'' then (if isDoubleEnter then ''action'' else ''character'')
          else if currentType = ''transition'' then ''scene-heading''
          else ''action'')"

text \<open>An optional period and then a white-space character: what \<open>\.?\s\<close> matches.\<close>

definition space_follows :: "jsstring \<Rightarrow> bool" where
  "space_follows r =
     (case r of
        [] \<Rightarrow> False
      | c # r' \<Rightarrow>
          isSpace c
          \<or> (c = of_char (CHR ''.'') \<and> (case r' of [] \<Rightarrow> False | d # _ \<Rightarrow> isSpace d)))"

section \<open>Persistence (src/lib/screenplay/saveManager.ts)\<close>

definition SCENE_SIZE_LIMIT :: nat where
  "SCENE_SIZE_LIMIT = 500 * 1024"

definition LOCK_DURATION :: int where
  "LOCK_DURATION = 5 * 60 * 1000"

text \<open>
  \<open>Dialogue\<close> and \<open>SceneContent\<close> of src/types/screenplay.ts. An optional field is an
  \<open>option\<close>. The field \<open>text\<close> of a dialogue is \<open>dialogue_text\<close> here, and the fields
  \<open>id\<close> and \<open>sceneId\<close> of a scene content are \<open>content_id\<close> and \<open>content_sceneId\<close>.
\<close>

record Dialogue =
  characterName :: jsstring
  dialogue_text :: jsstring
  parenthetical :: "jsstring option"

record SceneContent =
  content_id :: string
  content_sceneId :: string
  action :: "jsstring option"
  actionChunks :: "jsstring list option"
  dialogues :: "Dialogue list"

subsection \<open>splitActionIntoChunks\<close>

text \<open>
  \<^verbatim>\<open>action.split(/(?<=[.!?])\s+/)\<close>: the string is cut at every run of white space
  that comes right after a period, an exclamation mark or a question mark; the run is
  dropped. \<open>cur\<close> is the piece read so far. A piece starts after a white-space
  character (or at the start of the string), so the look-behind fails while \<open>cur\<close> is
  empty. The result always has at least one piece.
\<close>

function split_from :: "jsstring \<Rightarrow> jsstring \<Rightarrow> jsstring list" where
  "split_from cur [] = [cur]"
| "split_from cur (c # cs) =
     (if isSpace c \<and> cur \<noteq> [] \<and> last cur \<in> set (js ''.!?'')
      then cur # split_from [] (dropWhile isSpace cs)
      else split_from (cur @ [c]) cs)"
  by pat_completeness auto
termination
  by (relation "measure (\<lambda>(cur, s). length s)")
    (auto simp: le_imp_less_Suc length_dropWhile_le)

definition split_sentences :: "jsstring \<Rightarrow> jsstring list" where
  "split_sentences action' = split_from [] action'"

text \<open>
  The \<open>for\<close> loop over the sentences, with the variables \<open>chunks\<close> and \<open>currentChunk\<close>;
  the last equation is the code after the loop. An empty string is falsy.
\<close>

fun chunk_loop :: "jsstring list \<Rightarrow> jsstring list \<Rightarrow> jsstring \<Rightarrow> jsstring list" where
  "chunk_loop [] chunks currentChunk =
     (if currentChunk \<noteq> [] then chunks @ [currentChunk] else chunks)"
| "chunk_loop (sentence # rest) chunks currentChunk =
     (if length (currentChunk @ sentence) > SCENE_SIZE_LIMIT
      then chunk_loop rest (chunks @ [currentChunk]) sentence
      else chunk_loop rest chunks
             (currentChunk @ (if currentChunk \<noteq> [] then js '' '' else []) @ sentence))"

definition splitActionIntoChunks :: "jsstring \<Rightarrow> jsstring list" where
  "splitActionIntoChunks action' = chunk_loop (split_sentences action') [] []"

subsection \<open>The scene content built by saveScene\<close>

text \<open>\<open>Array.prototype.join\<close>.\<close>

fun join :: "jsstring \<Rightarrow> jsstring list \<Rightarrow> jsstring" where
  "join sep [] = []"
| "join sep [x] = x"
| "join sep (x # y # ys) = x @ sep @ join sep (y # ys)"

text \<open>
  \<open>new Blob([s]).size\<close> is the number of bytes of the string in UTF-8: one byte for a
  code unit below U+0080, two below U+0800, four for a surrogate pair, and three for
  any other code unit (a lone surrogate is written as U+FFFD, three bytes).
\<close>

fun utf8_length :: "jsstring \<Rightarrow> nat" where
  "utf8_length [] = 0"
| "utf8_length [c] = (if c < 0x80 then 1 else if c < 0x800 then 2 else 3)"
| "utf8_length (c # d # cs) =
     (if c < 0x80 then 1 + utf8_length (d # cs)
      else if c < 0x800 then 2 + utf8_length (d # cs)
      else if 0xD800 \<le> c \<and> c < 0xDC00 \<and> 0xDC00 \<le> d \<and> d < 0xE000
        then 4 + utf8_length cs
      else 3 + utf8_length (d # cs))"

definition blob_size :: "jsstring \<Rightarrow> nat" where
  "blob_size s = utf8_length s"

text \<open>
  \<^verbatim>\<open>blocks.find(b => b.type === 'scene-heading')?.content || ''\<close>
\<close>

definition sceneHeadingOf :: "Block list \<Rightarrow> jsstring" where
  "sceneHeadingOf blocks =
     (case find (\<lambda>b. block_type b = ''scene-heading'') blocks of
        None \<Rightarrow> []
      | Some b \<Rightarrow> content b)"

text \<open>
  The loop over \<open>dialogueBlocks\<close> with the variables \<open>currentCharacter\<close> and
  \<open>currentParenthetical\<close> (\<open>null\<close> is \<open>None\<close>). A dialogue block is recorded only under
  a truthy current character, that is a character block with content before it; a
  parenthetical that is the empty string is stored as \<open>undefined\<close>. A property that is
  \<open>undefined\<close> is a field the stored record does not have, \<^const>\<open>None\<close>: the store is
  taken to drop such properties (its settings are made where \<open>db\<close> is created, which
  is not among these sources).
\<close>

fun process_dialogues ::
  "Block list \<Rightarrow> jsstring option \<Rightarrow> jsstring option \<Rightarrow> Dialogue list \<Rightarrow> Dialogue list"
  where
  "process_dialogues [] currentCharacter currentParenthetical ds = ds"
| "process_dialogues (block # rest) currentCharacter currentParenthetical ds =
     (if block_type block = ''character'' then
        process_dialogues rest (Some (content block)) None ds
      else if block_type block = ''parenthetical'' then
        process_dialogues rest currentCharacter (Some (content block)) ds
      else if block_type block = ''dialogue''
              \<and> currentCharacter \<noteq> None \<and> currentCharacter \<noteq> Some [] then
        process_dialogues rest currentCharacter None
          (ds @ [\<lparr>characterName = (case currentCharacter of Some c \<Rightarrow> c | None \<Rightarrow> []),
                  dialogue_text = content block,
                  parenthetical =
                    (if currentParenthetical = Some [] then None else currentParenthetical)\<rparr>])
      else process_dialogues rest currentCharacter currentParenthetical ds)"

definition buildSceneContent :: "string \<Rightarrow> Block list \<Rightarrow> SceneContent" where
  "buildSceneContent sceneId blocks =
     (let actionBlocks = filter (\<lambda>b. block_type b = ''action'') blocks;
          dialogueBlocks =
            filter (\<lambda>b. block_type b \<in> set [''character'', ''dialogue'', ''parenthetical''])
              blocks;
          action' = join [0x0A] (map content actionBlocks);
          actionSize = blob_size action'
      in \<lparr>content_id = ''main'',
          content_sceneId = sceneId,
          action = (if actionSize > SCENE_SIZE_LIMIT then None else Some action'),
          actionChunks =
            (if actionSize > SCENE_SIZE_LIMIT then Some (splitActionIntoChunks action')
             else None),
          dialogues = process_dialogues dialogueBlocks None None []\<rparr>)"

subsection \<open>Reconstructing blocks from the saved records (reconstructBlocksFromScenes)\<close>

text \<open>
  What \<open>reconstructBlocksFromScenes\<close> reads of one scene: the document id, the fields
  \<open>sceneHeading\<close> and \<open>sceneNumber\<close> of the scene record, and the content record
  \<open>content/main\<close> when it exists. The content record is the \<open>SceneContent\<close> that
  \<open>saveScene\<close> writes; it has no \<open>actionBlocks\<close> field and its dialogues carry no block
  ids, so the function's branches on those fields take their fallbacks.
\<close>

record SceneRecord =
  doc_id :: string
  sceneHeading :: jsstring
  sceneNumber :: "nat option"
  content_main :: "SceneContent option"

text \<open>
  A template string \<^verbatim>\<open>`${index}`\<close> writes the array index in decimal digits.
\<close>

definition digit_char :: "nat \<Rightarrow> char" where
  "digit_char d = ''0123456789'' ! d"

function decimal :: "nat \<Rightarrow> string" where
  "decimal n =
     (case n div 10 of
        0 \<Rightarrow> [digit_char n]
      | Suc q \<Rightarrow> decimal (Suc q) @ [digit_char (n mod 10)])"
  by pat_completeness auto
termination
  by (relation "measure (\<lambda>n. n)") auto

text \<open>\<open>content.dialogues.forEach((dialogue, index) => ...)\<close>, from \<open>index\<close> on.\<close>

fun dialogue_blocks :: "string \<Rightarrow> nat \<Rightarrow> Dialogue list \<Rightarrow> Block list" where
  "dialogue_blocks sid index [] = []"
| "dialogue_blocks sid index (dialogue # rest) =
     [\<lparr>block_id = sid @ ''-character-'' @ decimal index,
       block_type = ''character'',
       content = (if characterName dialogue \<noteq> [] then characterName dialogue
                  else js ''CHARACTER''),
       number = None\<rparr>]
     @ (case parenthetical dialogue of
          Some p \<Rightarrow>
            if p \<noteq> [] then
              [\<lparr>block_id = sid @ ''-parenthetical-'' @ decimal index,
                block_type = ''parenthetical'', content = p, number = None\<rparr>]
            else []
        | None \<Rightarrow> [])
     @ [\<lparr>block_id = sid @ ''-dialogue-'' @ decimal index,
         block_type = ''dialogue'',
         content = dialogue_text dialogue,
         number = Some (index + 1)\<rparr>]
     @ dialogue_blocks sid (index + 1) rest"

text \<open>The blocks pushed for one scene, \<open>n\<close> being \<open>allBlocks.length\<close> before it.\<close>

definition scene_blocks :: "nat \<Rightarrow> SceneRecord \<Rightarrow> Block list" where
  "scene_blocks n scene =
     [\<lparr>block_id = doc_id scene @ ''-heading'',
       block_type = ''scene-heading'',
       content = (if sceneHeading scene \<noteq> [] then sceneHeading scene
                  else js ''INT. LOCATION - DAY''),
       number = (case sceneNumber scene of
                   Some k \<Rightarrow> if k \<noteq> 0 then Some k else Some (n + 1)
                 | None \<Rightarrow> Some (n + 1))\<rparr>]
     @ (case content_main scene of
          None \<Rightarrow> []
        | Some c \<Rightarrow>
            (case action c of
               Some a \<Rightarrow>
                 if a \<noteq> [] then
                   [\<lparr>block_id = doc_id scene @ ''-action'', block_type = ''action'',
                     content = a, number = None\<rparr>]
                 else []
             | None \<Rightarrow> [])
            @ dialogue_blocks (doc_id scene) 0 (dialogues c))"

fun reconstruct_loop :: "SceneRecord list \<Rightarrow> Block list \<Rightarrow> Block list" where
  "reconstruct_loop [] allBlocks = allBlocks"
| "reconstruct_loop (scene # rest) allBlocks =
     reconstruct_loop rest (allBlocks @ scene_blocks (length allBlocks) scene)"

text \<open>
  \<^verbatim>\<open>query(scenesRef, orderBy('sceneNumber', 'asc'))\<close>: the documents of the collection
  that have the field \<open>sceneNumber\<close>, in ascending order of it; a document without the
  field is not in the result. Documents with equal numbers come in the order of their
  names, which is the order \<open>scenes\<close> lists the collection in.
\<close>

definition scenesQuery :: "SceneRecord list \<Rightarrow> SceneRecord list" where
  "scenesQuery scenes =
     sort_key (\<lambda>s. case sceneNumber s of Some k \<Rightarrow> k | None \<Rightarrow> 0)
       (filter (\<lambda>s. sceneNumber s \<noteq> None) scenes)"

text \<open>
  \<open>reconstructBlocksFromScenes\<close> on the scene collection \<open>scenes\<close>:
  \<^verbatim>\<open>if (scenesSnap.empty) return []\<close>, then the loop over \<open>scenesSnap.docs\<close>.
\<close>

definition reconstructBlocksFromScenes :: "SceneRecord list \<Rightarrow> Block list" where
  "reconstructBlocksFromScenes scenes =
     (let scenesSnap = scenesQuery scenes in
      if scenesSnap = [] then [] else reconstruct_loop scenesSnap [])"

text \<open>
  The records \<open>saveScene\<close> writes for a scene, as documents of the scene collection:
  the scene record, written by \<open>batch.set\<close> without \<open>merge\<close> and so with the fields
  \<open>id\<close>, \<open>screenplayId\<close>, \<open>sceneHeading\<close>, \<open>status\<close>, \<open>lastModified\<close> and
  \<open>modifiedBy\<close> only, no \<open>sceneNumber\<close>; and its content record \<open>content/main\<close>.
\<close>

definition saved_scene :: "string \<Rightarrow> Block list \<Rightarrow> SceneRecord" where
  "saved_scene sceneId blocks =
     \<lparr>doc_id = sceneId,
      sceneHeading = sceneHeadingOf blocks,
      sceneNumber = None,
      content_main = Some (buildSceneContent sceneId blocks)\<rparr>"

text \<open>The type and the content of a block, without its id and number.\<close>

definition view :: "Block \<Rightarrow> string \<times> jsstring" where
  "view b = (block_type b, content b)"





subsection \<open>The remote store, the manager and saveScene\<close>

text \<open>
  The documents the manager reads and writes, with the fields it uses. A
  \<open>serverTimestamp()\<close> is the time of the call. Times are milliseconds since the epoch,
  as integers.
  \<^item> a lock \<open>scene_locks/<sceneId>\<close>: \<open>sceneId\<close>, \<open>userId\<close>, \<open>expires\<close>;
  \<^item> a scene record: \<open>id\<close>, \<open>screenplayId\<close>, \<open>sceneHeading\<close>, \<open>modifiedBy\<close>,
    \<open>lastModified\<close> (and the constant \<open>status: 'Draft'\<close>);
  \<^item> a scene content record;
  \<^item> the update of an existing screenplay (\<open>lastModified\<close>, \<open>version: increment(1)\<close>);
  \<^item> a new screenplay: \<open>id\<close>, \<open>ownerId\<close> (the other fields are constants);
  \<^item> a history entry: \<open>userId\<close>, \<open>sceneId\<close> (\<open>type: 'UPDATE_SCENE'\<close>).
\<close>

datatype document =
    LockDoc string string int
  | SceneDoc string string jsstring string int
  | ContentDoc SceneContent
  | ScreenplayBump
  | ScreenplayNew string string
  | HistoryDoc string string

text \<open>A remote write: \<open>set\<close>, \<open>update\<close> or \<open>delete\<close> of the document at a path.\<close>

datatype write_op = SetDoc string document | UpdateDoc string document | DeleteDoc string

text \<open>
  The store: the document at each path, and the log of the writes issued against it.
  An update of a screenplay changes only fields the manager never reads back, so it
  leaves the stored document as it is.
\<close>

record store =
  docs :: "string \<Rightarrow> document option"
  writes :: "write_op list"

fun apply_write :: "(string \<Rightarrow> document option) \<Rightarrow> write_op \<Rightarrow> (string \<Rightarrow> document option)" where
  "apply_write d (SetDoc path doc) = d(path \<mapsto> doc)"
| "apply_write d (UpdateDoc path doc) = d"
| "apply_write d (DeleteDoc path) = d(path := None)"

definition commit :: "write_op list \<Rightarrow> store \<Rightarrow> store" where
  "commit ws st = st\<lparr>docs := foldl apply_write (docs st) ws, writes := writes st @ ws\<rparr>"

text \<open>
  The fields of \<open>ScreenplaySaveManager\<close>: \<open>screenplay.id\<close>, \<open>screenplay.projectId\<close>,
  \<open>userId\<close>, and the scene ids that have a renewal timer in \<open>activeLocks\<close>.
\<close>

record manager =
  screenplay_id :: string
  screenplay_projectId :: string
  manager_userId :: string
  activeLocks :: "string list"

text \<open>
  What a call reads of its environment: \<open>Date.now()\<close>, the \<open>screenplay\<close> parameter of
  \<open>window.location.search\<close>, the screenplay id matched in \<open>window.location.pathname\<close>,
  and the id the store generates for a new history document.
\<close>

record env =
  now :: int
  urlScreenplayId :: "string option"
  pathScreenplayId :: "string option"
  autoId :: string

record SaveResult =
  success :: bool
  error :: "string option"
  version :: "nat option"
  conflicts :: "(string \<times> string \<times> int) list option"

definition getEffectiveScreenplayId :: "env \<Rightarrow> manager \<Rightarrow> string" where
  "getEffectiveScreenplayId e m =
     (let effectiveScreenplayId =
            (case urlScreenplayId e of
               Some u \<Rightarrow> if u \<noteq> [] then u else screenplay_id m
             | None \<Rightarrow> screenplay_id m)
      in if effectiveScreenplayId = ''default-screenplay-id'' then
           (case pathScreenplayId e of
              Some p \<Rightarrow>
                if p \<noteq> [] \<and> p \<noteq> ''default-screenplay-id'' then p
                else if screenplay_projectId m \<noteq> [] then screenplay_projectId m
                else effectiveScreenplayId
            | None \<Rightarrow>
                if screenplay_projectId m \<noteq> [] then screenplay_projectId m
                else effectiveScreenplayId)
         else effectiveScreenplayId)"

definition lock_path :: "string \<Rightarrow> string" where
  "lock_path sceneId = ''scene_locks/'' @ sceneId"

definition screenplays_path :: "manager \<Rightarrow> string" where
  "screenplays_path m = ''projects/'' @ screenplay_projectId m @ ''/screenplays''"

definition scenes_path :: "manager \<Rightarrow> string \<Rightarrow> string" where
  "scenes_path m effectiveScreenplayId =
     screenplays_path m @ ''/'' @ effectiveScreenplayId @ ''/scenes''"

text \<open>
  \<open>acquireLock\<close>: fails on a lock of another user that has not expired; otherwise it
  writes the caller's lock and registers the renewal timer.
\<close>

definition acquireLock :: "env \<Rightarrow> string \<Rightarrow> manager \<times> store \<Rightarrow> bool \<times> manager \<times> store" where
  "acquireLock e sceneId ms =
     (case ms of (m, st) \<Rightarrow>
        let held =
              (case docs st (lock_path sceneId) of
                 Some (LockDoc _ lockUser expires) \<Rightarrow>
                   lockUser \<noteq> manager_userId m \<and> expires > now e
               | _ \<Rightarrow> False)
        in if held then (False, m, st)
           else (True,
                 m\<lparr>activeLocks := sceneId # filter (\<lambda>s. s \<noteq> sceneId) (activeLocks m)\<rparr>,
                 commit [SetDoc (lock_path sceneId)
                           (LockDoc sceneId (manager_userId m) (now e + LOCK_DURATION))] st))"

text \<open>\<open>releaseLock\<close>: clears the timer and deletes the lock document, whoever holds it.\<close>

definition releaseLock :: "string \<Rightarrow> manager \<times> store \<Rightarrow> manager \<times> store" where
  "releaseLock sceneId ms =
     (case ms of (m, st) \<Rightarrow>
        (m\<lparr>activeLocks := filter (\<lambda>s. s \<noteq> sceneId) (activeLocks m)\<rparr>,
         commit [DeleteDoc (lock_path sceneId)] st))"

definition checkConflicts :: "env \<Rightarrow> string \<Rightarrow> manager \<Rightarrow> store \<Rightarrow> bool" where
  "checkConflicts e sceneId m st =
     (case docs st (scenes_path m (getEffectiveScreenplayId e m) @ ''/'' @ sceneId) of
        Some (SceneDoc _ _ _ modifiedBy lastModified) \<Rightarrow>
          modifiedBy \<noteq> manager_userId m \<and> lastModified > now e - 5000
      | _ \<Rightarrow> False)"

definition conflict_result :: "env \<Rightarrow> string \<Rightarrow> string \<Rightarrow> SaveResult" where
  "conflict_result e msg sceneId =
     \<lparr>success = False, error = Some msg, version = None,
      conflicts = Some [(sceneId, ''another-user@example.com'', now e)]\<rparr>"

text \<open>The body of the \<open>try\<close> block of \<open>saveScene\<close>.\<close>

definition saveScene_try ::
  "env \<Rightarrow> string \<Rightarrow> Block list \<Rightarrow> bool \<Rightarrow> manager \<times> store \<Rightarrow> SaveResult \<times> manager \<times> store" where
  "saveScene_try e sceneId blocks ignoreConflicts ms =
     (case ms of (m0, st) \<Rightarrow>
        let effectiveScreenplayId = getEffectiveScreenplayId e m0;
            m = (if effectiveScreenplayId \<noteq> screenplay_id m0
                 then m0\<lparr>screenplay_id := effectiveScreenplayId\<rparr> else m0)
        in if \<not> ignoreConflicts \<and> checkConflicts e sceneId m st then
             (conflict_result e ''Scene has been modified by another user'' sceneId, m, st)
           else
             (case acquireLock e sceneId (m, st) of
                (False, m1, st1) \<Rightarrow>
                  (conflict_result e ''Scene is being edited by another user'' sceneId, m1, st1)
              | (True, m1, st1) \<Rightarrow>
                  let sceneRef = scenes_path m1 effectiveScreenplayId @ ''/'' @ sceneId;
                      contentRef = sceneRef @ ''/content/main'';
                      screenplayRef = screenplays_path m1 @ ''/'' @ effectiveScreenplayId;
                      changeRef = screenplayRef @ ''/history/'' @ autoId e;
                      batch =
                        [SetDoc sceneRef
                           (SceneDoc sceneId effectiveScreenplayId (sceneHeadingOf blocks)
                              (manager_userId m1) (now e)),
                         SetDoc contentRef (ContentDoc (buildSceneContent sceneId blocks)),
                         (if docs st1 screenplayRef \<noteq> None
                          then UpdateDoc screenplayRef ScreenplayBump
                          else SetDoc screenplayRef
                                 (ScreenplayNew effectiveScreenplayId (manager_userId m1))),
                         SetDoc changeRef (HistoryDoc (manager_userId m1) sceneId)]
                  in (\<lparr>success = True, error = None, version = None, conflicts = None\<rparr>,
                      m1, commit batch st1)))"

text \<open>\<open>saveScene\<close>: the \<open>try\<close> block, then \<open>finally { await this.releaseLock(sceneId) }\<close>.\<close>

definition saveScene ::
  "env \<Rightarrow> string \<Rightarrow> Block list \<Rightarrow> bool \<Rightarrow> manager \<times> store \<Rightarrow> SaveResult \<times> manager \<times> store" where
  "saveScene e sceneId blocks ignoreConflicts ms =
     (case saveScene_try e sceneId blocks ignoreConflicts ms of
        (result, m, st) \<Rightarrow>
          (case releaseLock sceneId (m, st) of (m', st') \<Rightarrow> (result, m', st')))"



text \<open>
  A store in which Bob holds the lock of scene \<open>s1\<close> for another minute, and Alice's
  manager and environment.
\<close>

definition env0 :: env where
  "env0 = \<lparr>now = 1000000, urlScreenplayId = None, pathScreenplayId = None, autoId = ''h1''\<rparr>"

definition alice :: manager where
  "alice = \<lparr>screenplay_id = ''sp1'', screenplay_projectId = ''p1'', manager_userId = ''alice'',
     activeLocks = []\<rparr>"

definition bob_locked :: store where
  "bob_locked =
     \<lparr>docs = [''scene_locks/s1'' \<mapsto> LockDoc ''s1'' ''bob'' 1060000], writes = []\<rparr>"

text \<open>
  An action block of 512001 characters without white space, and an action text of two
  sentences of 256000 characters each, 512001 characters with the space between them.
\<close>

definition long_action :: "Block list" where
  "long_action =
     [\<lparr>block_id = ''1'', block_type = ''scene-heading'', content = js ''INT. HOUSE - DAY'',
        number = None\<rparr>,
      \<lparr>block_id = ''2'', block_type = ''action'',
        content = js (replicate 512001 (CHR ''a'')), number = None\<rparr>]"

definition two_sentences :: jsstring where
  "two_sentences =
     js (replicate 255999 (CHR ''a'') @ ''.'' @ '' '' @ replicate 256000 (CHR ''b''))"

section \<open>Editing handlers (src/hooks/useBlockHandlers.ts)\<close>

text \<open>
  The handlers as functions from the block sequence \<open>state.blocks\<close> and the event to
  the block sequence passed to \<open>updateBlocks\<close>. What they read from the page is a
  parameter: the text of the element, the caret offset, the clock, and the id
  \<open>Date.now().toString()\<close> of a new block. Their other effects (undo history, focus,
  cursor, the change flag) do not touch the block sequence and are left out.

  \<open>String.prototype.toUpperCase\<close> is the parameter \<open>toUpperCase\<close> of the handlers that
  call it: the theorems hold for every such function, and the examples, whose texts
  are ASCII, take \<open>upperASCII\<close>.

  \<open>findIndex\<close> returns \<open>None\<close> where the source gets \<open>-1\<close>; \<open>splice\<close> is
  \<open>arr.splice(i, 0, x)\<close>, and \<open>remove_at\<close> is the filter on the index.
\<close>

definition findIndex :: "('a \<Rightarrow> bool) \<Rightarrow> 'a list \<Rightarrow> nat option" where
  "findIndex P xs =
     (if list_ex P xs then Some (length (takeWhile (\<lambda>x. \<not> P x) xs)) else None)"

definition splice :: "nat \<Rightarrow> 'a \<Rightarrow> 'a list \<Rightarrow> 'a list" where
  "splice i x xs = take i xs @ [x] @ drop i xs"

definition remove_at :: "nat \<Rightarrow> 'a list \<Rightarrow> 'a list" where
  "remove_at i xs = take i xs @ drop (Suc i) xs"

text \<open>\<^verbatim>\<open>s.replace(/^\(|\)$/g, '')\<close>: a leading \<open>(\<close> and a trailing \<open>)\<close> are removed.\<close>

definition strip_parens :: "jsstring \<Rightarrow> jsstring" where
  "strip_parens s =
     (let s1 = (if startsWith s (js ''('') then drop 1 s else s)
      in if endsWith s1 (js '')'') then butlast s1 else s1)"

definition new_block :: "string \<Rightarrow> string \<Rightarrow> jsstring \<Rightarrow> Block" where
  "new_block newId t c = \<lparr>block_id = newId, block_type = t, content = c, number = None\<rparr>"

subsection \<open>handleEnterKey\<close>

definition handleEnterKey ::
  "(jsstring \<Rightarrow> jsstring) \<Rightarrow> Block list \<Rightarrow> string \<Rightarrow> jsstring \<Rightarrow> nat \<Rightarrow> int \<Rightarrow> int \<Rightarrow> string
     \<Rightarrow> Block list \<times> string" where
  "handleEnterKey toUpperCase blocks blockId elementText caretPos now' lastKeyPressTime newId =
     (case findIndex (\<lambda>b. block_id b = blockId) blocks of
        None \<Rightarrow> (blocks, blockId)
      | Some currentIndex \<Rightarrow>
          let currentBlock = blocks ! currentIndex;
              textBefore = take caretPos elementText;
              textAfter = drop caretPos elementText;
              isDoubleEnter = (now' - lastKeyPressTime < 500
                               \<and> block_type currentBlock = ''dialogue''
                               \<and> trim textBefore = [])
          in if block_type currentBlock = ''transition'' then
               let newBlock = new_block newId ''scene-heading'' [];
                   updatedBlocks =
                     (if trim textBefore \<noteq> []
                      then blocks[currentIndex :=
                             currentBlock\<lparr>content := toUpperCase (trim textBefore)\<rparr>]
                      else blocks)
               in (splice (currentIndex + 1) newBlock updatedBlocks, newId)
             else if isDoubleEnter then
               (filter (\<lambda>b. block_id b \<noteq> blockId) blocks @ [new_block newId ''action'' textAfter],
                newId)
             else if block_type currentBlock = ''parenthetical'' then
               let updatedBlocks =
                     (if \<not> endsWith textBefore (js '')'')
                      then blocks[currentIndex :=
                             currentBlock\<lparr>content := textBefore @ js '')''\<rparr>]
                      else blocks);
                   newBlock = new_block newId ''dialogue''
                     (trim (if startsWith textAfter (js '')'') then drop 1 textAfter
                           else textAfter))
               in (splice (currentIndex + 1) newBlock updatedBlocks, newId)
             else
               let newBlockType = getNextBlockType (block_type currentBlock) textBefore False;
                   updatedBlocks = blocks[currentIndex := currentBlock\<lparr>content := textBefore\<rparr>];
                   newBlock = new_block newId newBlockType textAfter
               in (splice (currentIndex + 1) newBlock updatedBlocks, newId))"

subsection \<open>handleFormatChange\<close>

text \<open>The content transformations, in the order of the source.\<close>

definition format_content :: "(jsstring \<Rightarrow> jsstring) \<Rightarrow> Block \<Rightarrow> string \<Rightarrow> jsstring" where
  "format_content toUpperCase currentBlock type' =
     (let c0 = content currentBlock;
          c1 = (if type' = ''parenthetical'' then
                  (let c = trim c0 in
                   if c = [] \<or> c = js ''()'' then js ''()''
                   else if \<not> startsWith c (js ''('') \<or> \<not> endsWith c (js '')'')
                     then js ''('' @ strip_parens c @ js '')''
                   else c0)
                else if block_type currentBlock = ''parenthetical'' \<and> type' \<noteq> ''parenthetical''
                  then trim (strip_parens c0)
                else c0);
          c2 = (if type' = ''character'' \<and> block_type currentBlock \<noteq> ''character''
                then toUpperCase c1 else c1);
          c3 = (if type' = ''scene-heading'' \<and> \<not> test_start scene_heading_rx c2
                then (if trim c2 = [] then [] else c2) else c2);
          c4 = (if type' = ''transition'' \<and> \<not> (test_end to_rx c3 \<or> test_start fade_rx c3)
                then (if trim c3 = [] then []
                      else if \<not> endsWith c3 (js ''TO:'') then toUpperCase c3 else c3)
                else c3)
      in c4)"

definition handleFormatChange ::
  "(jsstring \<Rightarrow> jsstring) \<Rightarrow> Block list \<Rightarrow> string option \<Rightarrow> string \<Rightarrow> Block list" where
  "handleFormatChange toUpperCase blocks activeBlock type' =
     (case activeBlock of
        None \<Rightarrow> blocks
      | Some active \<Rightarrow>
          if active = [] then blocks
          else
            (case find (\<lambda>b. block_id b = active) blocks of
               None \<Rightarrow> blocks
             | Some currentBlock \<Rightarrow>
                 let newContent = format_content toUpperCase currentBlock type';
                     updatedBlocks =
                       map (\<lambda>block. if block_id block = active
                                     then block\<lparr>block_type := type', content := newContent\<rparr>
                                     else block) blocks
                 in updateBlockNumbers updatedBlocks))"

subsection \<open>handleContentChange\<close>

text \<open>\<^verbatim>\<open>/^FADE (IN|OUT)|^DISSOLVE/\<close>, without the flag \<open>i\<close>, on the upper-cased text.\<close>

definition fade_upper_rx :: rx where
  "fade_upper_rx =
     Alt (Seq (lit (js ''FADE '')) (Alt (lit (js ''IN'')) (lit (js ''OUT''))))
         (lit (js ''DISSOLVE''))"

definition isTransitionContent :: "(jsstring \<Rightarrow> jsstring) \<Rightarrow> jsstring \<Rightarrow> bool" where
  "isTransitionContent toUpperCase c =
     (let trimmedContent = toUpperCase (trim c)
      in endsWith trimmedContent (js ''TO:'') \<or> test_start fade_upper_rx trimmedContent)"

text \<open>The function mapped over the blocks for a regular content change.\<close>

definition change_block :: "(jsstring \<Rightarrow> jsstring) \<Rightarrow> jsstring \<Rightarrow> Block \<Rightarrow> Block" where
  "change_block toUpperCase newContent block =
     (if block_type block = ''parenthetical'' then
        (let c = trim newContent;
             c' = (if \<not> startsWith c (js ''('') then js ''('' @ c else c);
             c'' = (if \<not> endsWith c' (js '')'') then c' @ js '')'' else c')
         in block\<lparr>content := c''\<rparr>)
      else if isTransitionContent toUpperCase newContent \<and> block_type block \<noteq> ''transition'' then
        block\<lparr>block_type := ''transition'', content := toUpperCase (trim newContent)\<rparr>
      else
        block\<lparr>content := newContent,
              block_type := (case detectFormat newContent of
                               Some detectedFormat \<Rightarrow> detectedFormat
                             | None \<Rightarrow> block_type block)\<rparr>)"

definition handleContentChange ::
  "(jsstring \<Rightarrow> jsstring) \<Rightarrow> Block list \<Rightarrow> string \<Rightarrow> jsstring \<Rightarrow> string option \<Rightarrow> string
     \<Rightarrow> Block list" where
  "handleContentChange toUpperCase blocks id' newContent forcedType newId =
     (case findIndex (\<lambda>b. block_id b = id') blocks of
        None \<Rightarrow> blocks
      | Some currentBlockIndex \<Rightarrow>
          let currentBlock = blocks ! currentBlockIndex;
              sceneHeadingBlock = new_block newId ''scene-heading'' []
          in if trim newContent = [] then remove_at currentBlockIndex blocks
             else if forcedType \<noteq> None \<and> forcedType \<noteq> Some [] then
               (let forced = (case forcedType of Some t \<Rightarrow> t | None \<Rightarrow> []);
                    updatedBlocks =
                      map (\<lambda>block. if block_id block \<noteq> id' then block
                                    else block\<lparr>block_type := forced, content := newContent\<rparr>)
                        blocks
                in if forced = ''transition''
                   then splice (currentBlockIndex + 1) sceneHeadingBlock updatedBlocks
                   else updatedBlocks)
             else
               (let updatedBlocks =
                      map (\<lambda>block. if block_id block \<noteq> id' then block
                                    else change_block toUpperCase newContent block) blocks;
                    updatedBlock = updatedBlocks ! currentBlockIndex;
                    wasTransitionCreated = (block_type updatedBlock = ''transition''
                                            \<and> block_type currentBlock \<noteq> ''transition'')
                in if wasTransitionCreated
                   then splice (currentBlockIndex + 1) sceneHeadingBlock updatedBlocks
                   else updatedBlocks))"

subsection \<open>handleKeyDown: Enter, Tab and Backspace\<close>

text \<open>
  Enter is passed to \<open>handleEnterKey\<close> unless the element holds white space only.
  Tab takes the type after the one of the block with the key's \<open>blockId\<close> in
  \<open>BLOCK_TYPES\<close> (the first type when the block's type is not in the list) and applies
  \<open>handleFormatChange\<close>, which changes the active block. Backspace in an empty element
  removes the blocks with that id when the block is not the first one.
\<close>

definition keyEnter ::
  "(jsstring \<Rightarrow> jsstring) \<Rightarrow> Block list \<Rightarrow> string \<Rightarrow> jsstring \<Rightarrow> nat \<Rightarrow> int \<Rightarrow> int \<Rightarrow> string
     \<Rightarrow> Block list" where
  "keyEnter toUpperCase blocks blockId elementText caretPos now' lastKeyPressTime newId =
     (if trim elementText \<noteq> [] \<or> elementText = []
      then fst (handleEnterKey toUpperCase blocks blockId elementText caretPos now'
                  lastKeyPressTime newId)
      else blocks)"

definition keyTab ::
  "(jsstring \<Rightarrow> jsstring) \<Rightarrow> Block list \<Rightarrow> string option \<Rightarrow> string \<Rightarrow> Block list" where
  "keyTab toUpperCase blocks activeBlock blockId =
     (case find (\<lambda>b. block_id b = blockId) blocks of
        None \<Rightarrow> blocks
      | Some currentBlock \<Rightarrow>
          let currentIndex = (case findIndex (\<lambda>t. t = block_type currentBlock) BLOCK_TYPES of
                                Some i \<Rightarrow> int i | None \<Rightarrow> - 1);
              nextType = BLOCK_TYPES ! nat ((currentIndex + 1) mod int (length BLOCK_TYPES))
          in handleFormatChange toUpperCase blocks activeBlock nextType)"

definition keyBackspace :: "Block list \<Rightarrow> string \<Rightarrow> jsstring \<Rightarrow> Block list" where
  "keyBackspace blocks blockId elementText =
     (if elementText = [] then
        (case findIndex (\<lambda>b. block_id b = blockId) blocks of
           Some currentIndex \<Rightarrow>
             if currentIndex > 0 then filter (\<lambda>b. block_id b \<noteq> blockId) blocks else blocks
         | None \<Rightarrow> blocks)
      else blocks)"

text \<open>
  Every transition block of the sequence is immediately followed by a scene-heading
  block.
\<close>

fun transitions_followed :: "Block list \<Rightarrow> bool" where
  "transitions_followed [] = True"
| "transitions_followed [b] = (block_type b \<noteq> ''transition'')"
| "transitions_followed (b # c # rest) =
     ((if block_type b = ''transition'' then block_type c = ''scene-heading'' else True)
      \<and> transitions_followed (c # rest))"

definition blk :: "string \<Rightarrow> string \<Rightarrow> jsstring \<Rightarrow> Block" where
  "blk i t c = \<lparr>block_id = i, block_type = t, content = c, number = None\<rparr>"

text \<open>A transition block and the empty scene heading after it.\<close>

definition after_transition :: "Block list" where
  "after_transition =
     [blk ''1'' ''transition'' (js ''CUT TO:''), blk ''2'' ''scene-heading'' []]"

text \<open>A scene that ends in a transition still in lower case, and the scene after it.\<close>

definition two_scenes :: "Block list" where
  "two_scenes =
     [blk ''1'' ''scene-heading'' (js ''INT. HOUSE - DAY''),
      blk ''2'' ''action'' (js ''He walks in.''),
      blk ''3'' ''transition'' (js ''cut to:''),
      blk ''4'' ''scene-heading'' (js ''EXT. STREET - NIGHT''),
      blk ''5'' ''action'' (js ''Rain.'')]"

text \<open>The same with the third block an action block whose text is not yet a transition.\<close>

definition two_scenes_action :: "Block list" where
  "two_scenes_action =
     [blk ''1'' ''scene-heading'' (js ''INT. HOUSE - DAY''),
      blk ''2'' ''action'' (js ''He walks in.''),
      blk ''3'' ''action'' (js ''cut to''),
      blk ''4'' ''scene-heading'' (js ''EXT. STREET - NIGHT''),
      blk ''5'' ''action'' (js ''Rain.'')]"

section \<open>Example documents\<close>

text \<open>A character block followed by a dialogue block of 2000 characters.\<close>

definition long_dialogue_pair :: "Block list" where
  "long_dialogue_pair =
     [\<lparr>block_id = ''1'', block_type = ''character'', content = js ''SARAH'', number = None\<rparr>,
      \<lparr>block_id = ''2'', block_type = ''dialogue'', content = replicate 2000 97,
        number = None\<rparr>]"

text \<open>
  An action block of 2000 characters, which fills a page but for one unit, before a
  character block and its parenthetical.
\<close>

definition pair_after_long_action :: "Block list" where
  "pair_after_long_action =
     [\<lparr>block_id = ''1'', block_type = ''action'', content = replicate 2000 97,
        number = None\<rparr>,
      \<lparr>block_id = ''2'', block_type = ''character'', content = js ''SARAH'', number = None\<rparr>,
      \<lparr>block_id = ''3'', block_type = ''parenthetical'', content = js ''(quietly)'',
        number = None\<rparr>]"

text \<open>
  A page of three blocks of 4, 13 and 7 lines (226, 901 and 451 characters) before a
  character block and a parenthetical of 4 lines.
\<close>

definition rounding_example :: "Block list" where
  "rounding_example =
     [\<lparr>block_id = ''1'', block_type = ''parenthetical'', content = replicate 226 97,
        number = None\<rparr>,
      \<lparr>block_id = ''2'', block_type = ''action'', content = replicate 901 97,
        number = None\<rparr>,
      \<lparr>block_id = ''3'', block_type = ''parenthetical'', content = replicate 451 97,
        number = None\<rparr>,
      \<lparr>block_id = ''4'', block_type = ''character'', content = js ''SARAH'', number = None\<rparr>,
      \<lparr>block_id = ''5'', block_type = ''parenthetical'', content = replicate 226 97,
        number = None\<rparr>]"

text \<open>A scene without a parenthetical.\<close>

definition dialogue_scene :: "Block list" where
  "dialogue_scene =
     [\<lparr>block_id = ''1'', block_type = ''scene-heading'',
        content = js ''INT. COFFEE SHOP - DAY'', number = None\<rparr>,
      \<lparr>block_id = ''2'', block_type = ''action'',
        content = js ''A quiet morning scene. Sunlight streams through large windows.'',
        number = None\<rparr>,
      \<lparr>block_id = ''3'', block_type = ''character'', content = js ''SARAH'', number = None\<rparr>,
      \<lparr>block_id = ''4'', block_type = ''dialogue'',
        content = js ''This can't be happening. Not today of all days.'', number = None\<rparr>]"

text \<open>How many blocks of a given type a list holds.\<close>

definition count_type :: "string \<Rightarrow> Block list \<Rightarrow> nat" where
  "count_type t blocks = length (filter (\<lambda>b. block_type b = t) blocks)"

definition INITIAL_BLOCKS :: "Block list" where
  "INITIAL_BLOCKS =
     [\<lparr>block_id = ''1'', block_type = ''scene-heading'',
        content = js ''INT. COFFEE SHOP - DAY'', number = Some 1\<rparr>,
      \<lparr>block_id = ''2'', block_type = ''action'',
        content = js ''A quiet morning scene. Sunlight streams through large windows.'',
        number = None\<rparr>,
      \<lparr>block_id = ''3'', block_type = ''character'', content = js ''SARAH'', number = None\<rparr>,
      \<lparr>block_id = ''4'', block_type = ''parenthetical'',
        content = js ''(checking her phone)'', number = None\<rparr>,
      \<lparr>block_id = ''5'', block_type = ''dialogue'',
        content = js ''This can't be happening. Not today of all days.'', number = Some 1\<rparr>]"

section \<open>Renumbering: proofs\<close>

lemma length_updateBlockNumbers_from:
  "length (updateBlockNumbers_from sc dc bs) = length bs"
  by (induction bs arbitrary: sc dc) simp_all

lemma updateBlockNumbers_from_type:
  "map block_type (updateBlockNumbers_from sc dc bs) = map block_type bs"
  by (induction bs arbitrary: sc dc) simp_all

lemma updateBlockNumbers_from_frame:
  "map (\<lambda>b. (block_id b, block_type b, content b)) (updateBlockNumbers_from sc dc bs)
     = map (\<lambda>b. (block_id b, block_type b, content b)) bs"
  by (induction bs arbitrary: sc dc) simp_all

lemma updateBlockNumbers_from_nth:
  "i < length bs \<Longrightarrow>
   number (updateBlockNumbers_from sc dc bs ! i) =
     (if block_type (bs ! i) = ''scene-heading''
        then Some (sc + count_type ''scene-heading'' (take (Suc i) bs))
      else if block_type (bs ! i) = ''dialogue''
        then Some (dc + count_type ''dialogue'' (take (Suc i) bs))
      else None)"
proof (induction bs arbitrary: sc dc i)
  case Nil
  then show ?case by simp
next
  case (Cons b bs)
  show ?case
  proof (cases i)
    case 0
    then show ?thesis by (simp add: count_type_def)
  next
    case (Suc j)
    with Cons.prems have j: "j < length bs" by simp
    show ?thesis
      using Cons.IH [OF j] Suc by (simp add: count_type_def)
  qed
qed

lemma updateBlockNumbers_from_idem:
  "updateBlockNumbers_from sc dc (updateBlockNumbers_from sc' dc' bs)
     = updateBlockNumbers_from sc dc bs"
  by (induction bs arbitrary: sc dc sc' dc') simp_all

text \<open>
  Claim C6. \<open>updateBlockNumbers\<close> gives the scene-heading blocks the numbers 1, 2, 3, ...
  and the dialogue blocks the numbers 1, 2, 3, ... from two independent counters, in
  document order: the block at position \<open>i\<close> gets the count of blocks of its own type up
  to and including position \<open>i\<close>. Every other block has no number. Applying the function
  twice gives what applying it once gives.
\<close>

theorem updateBlockNumbers_numbering:
  "(\<forall>i < length blocks.
      number (updateBlockNumbers blocks ! i) =
        (if block_type (blocks ! i) = ''scene-heading''
           then Some (count_type ''scene-heading'' (take (Suc i) blocks))
         else if block_type (blocks ! i) = ''dialogue''
           then Some (count_type ''dialogue'' (take (Suc i) blocks))
         else None))
   \<and> updateBlockNumbers (updateBlockNumbers blocks) = updateBlockNumbers blocks"
  by (simp add: updateBlockNumbers_def updateBlockNumbers_from_nth
      updateBlockNumbers_from_idem)

theorem updateBlockNumbers_numbering_witness:
  "(4::nat) < length INITIAL_BLOCKS
   \<and> number (updateBlockNumbers INITIAL_BLOCKS ! 0) = Some 1
   \<and> number (updateBlockNumbers INITIAL_BLOCKS ! 2) = None
   \<and> number (updateBlockNumbers INITIAL_BLOCKS ! 4) = Some 1
   \<and> updateBlockNumbers (updateBlockNumbers INITIAL_BLOCKS) = updateBlockNumbers INITIAL_BLOCKS"
  using updateBlockNumbers_numbering [of INITIAL_BLOCKS]
  by (simp add: INITIAL_BLOCKS_def count_type_def)

text \<open>
  Claim C10. \<open>updateBlockNumbers\<close> changes the \<open>number\<close> field only: the result has as
  many blocks as the input, and the block at each position keeps its id, type and
  content.
\<close>

theorem updateBlockNumbers_frame:
  "length (updateBlockNumbers blocks) = length blocks
   \<and> map (\<lambda>b. (block_id b, block_type b, content b)) (updateBlockNumbers blocks)
       = map (\<lambda>b. (block_id b, block_type b, content b)) blocks"
  by (simp add: updateBlockNumbers_def length_updateBlockNumbers_from
      updateBlockNumbers_from_frame)

section \<open>Pagination: proofs\<close>

subsection \<open>Rounding to a double\<close>

lemma rne_of_int [simp]: "rne (of_int n) = n"
  by (simp add: rne_def)

lemma rne_bounds: "\<lfloor>x\<rfloor> \<le> rne x" "rne x \<le> \<lfloor>x\<rfloor> + 1"
  by (simp_all add: rne_def Let_def)

lemma rne_mono: "x \<le> y \<Longrightarrow> rne x \<le> rne y"
proof -
  assume xy: "x \<le> y"
  then have f: "\<lfloor>x\<rfloor> \<le> \<lfloor>y\<rfloor>" by (rule floor_mono)
  show ?thesis
  proof (cases "\<lfloor>x\<rfloor> = \<lfloor>y\<rfloor>")
    case True
    with xy show ?thesis by (auto simp: rne_def Let_def)
  next
    case False
    with f have "\<lfloor>x\<rfloor> + 1 \<le> \<lfloor>y\<rfloor>" by simp
    with rne_bounds(2) [of x] rne_bounds(1) [of y] show ?thesis by linarith
  qed
qed

lemma rne_error: "\<bar>of_int (rne x) - x\<bar> \<le> 1 / 2"
  by (auto simp: rne_def Let_def)

lemma ulp_pos [simp]: "0 < ulp x" "0 \<le> ulp x" "ulp x \<noteq> 0"
  by (simp_all add: ulp_def)

lemma powr_int_nat: "0 \<le> j \<Longrightarrow> (2::real) powr of_int j = 2 ^ nat j"
  by (simp add: powr_real_of_int)

lemma binade_bounds:
  assumes "0 < x"
  shows "2 powr of_int (binade x) \<le> x" "x < 2 powr of_int (binade x + 1)"
proof -
  from assms have "2 powr of_int (binade x) \<le> x \<and> x < 2 powr of_int (binade x + 1)"
    using floor_log_eq_powr_iff [of x 2 "binade x"] by (simp add: binade_def)
  then show "2 powr of_int (binade x) \<le> x" "x < 2 powr of_int (binade x + 1)"
    by simp_all
qed

lemma binade_less:
  assumes "0 < x" "x < 2 powr of_int k"
  shows "binade x < k"
proof -
  from binade_bounds(1) [OF assms(1)] assms(2)
  have "(2::real) powr of_int (binade x) < 2 powr of_int k" by linarith
  then have "(of_int (binade x) :: real) < of_int k"
    by (rule powr_less_cancel_iff [THEN iffD1, rotated]) simp
  then show ?thesis by (simp only: of_int_less_iff)
qed

lemma binade_eq:
  assumes "2 powr of_int k \<le> x" "x < 2 powr of_int (k + 1)"
  shows "binade x = k"
proof -
  have "0 < (2::real) powr of_int k" by simp
  with assms(1) have pos: "0 < x" by linarith
  then show ?thesis
    using floor_log_eq_powr_iff [of x 2 k] assms by (simp add: binade_def)
qed

lemma ulp_scale:
  "2 powr of_int (binade x) = 2 ^ 52 * ulp x"
  "2 powr of_int (binade x + 1) = 2 ^ 53 * ulp x"
proof -
  have "(2::real) powr of_int (binade x) = 2 powr (52 + of_int (binade x - 52))"
    by simp
  also have "\<dots> = 2 powr 52 * ulp x"
    unfolding ulp_def by (rule powr_add)
  finally show "2 powr of_int (binade x) = 2 ^ 52 * ulp x" by simp
  have "(2::real) powr of_int (binade x + 1) = 2 powr (53 + of_int (binade x - 52))"
    by (simp add: algebra_simps)
  also have "\<dots> = 2 powr 53 * ulp x"
    unfolding ulp_def by (rule powr_add)
  finally show "2 powr of_int (binade x + 1) = 2 ^ 53 * ulp x" by simp
qed

lemma scaled_bounds:
  assumes "0 < x"
  shows "2 ^ 52 \<le> x / ulp x" "x / ulp x < 2 ^ 53"
proof -
  have "2 ^ 52 * ulp x \<le> x"
    using binade_bounds(1) [OF assms] by (simp only: ulp_scale)
  moreover have "x < 2 ^ 53 * ulp x"
    using binade_bounds(2) [OF assms] by (simp only: ulp_scale)
  ultimately show "2 ^ 52 \<le> x / ulp x" "x / ulp x < 2 ^ 53"
    by (simp_all add: pos_le_divide_eq pos_divide_less_eq)
qed

lemma binade_mono:
  assumes "0 < x" "x \<le> y"
  shows "binade x \<le> binade y"
  using assms by (simp add: binade_def floor_mono)

lemma double_zero [simp]: "double 0 = 0"
  by (simp add: double_def)

lemma double_lower:
  assumes "0 < x"
  shows "2 powr of_int (binade x) \<le> double x"
proof -
  have "rne (of_int (2 ^ 52)) \<le> rne (x / ulp x)"
    by (rule rne_mono) (use scaled_bounds(1) [OF assms] in simp)
  then have "(2::int) ^ 52 \<le> rne (x / ulp x)"
    by (simp only: rne_of_int)
  then have "of_int ((2::int) ^ 52) \<le> (of_int (rne (x / ulp x)) :: real)"
    by (simp only: of_int_le_iff)
  then have le: "(2::real) ^ 52 \<le> of_int (rne (x / ulp x))"
    by simp
  have "2 powr of_int (binade x) = 2 ^ 52 * ulp x"
    by (rule ulp_scale)
  also have "\<dots> \<le> of_int (rne (x / ulp x)) * ulp x"
    by (rule mult_right_mono [OF le]) simp
  also have "\<dots> = double x"
    using assms by (simp add: double_def)
  finally show ?thesis .
qed

lemma double_upper:
  assumes "0 < x"
  shows "double x \<le> 2 powr of_int (binade x + 1)"
proof -
  have "rne (x / ulp x) \<le> rne (of_int (2 ^ 53))"
    by (rule rne_mono) (use scaled_bounds(2) [OF assms] in simp)
  then have "rne (x / ulp x) \<le> (2::int) ^ 53"
    by (simp only: rne_of_int)
  then have "(of_int (rne (x / ulp x)) :: real) \<le> of_int ((2::int) ^ 53)"
    by (simp only: of_int_le_iff)
  then have le: "of_int (rne (x / ulp x)) \<le> (2::real) ^ 53"
    by simp
  have "double x = of_int (rne (x / ulp x)) * ulp x"
    using assms by (simp add: double_def)
  also have "\<dots> \<le> 2 ^ 53 * ulp x"
    by (rule mult_right_mono [OF le]) simp
  also have "\<dots> = 2 powr of_int (binade x + 1)"
    by (rule ulp_scale [symmetric])
  finally show ?thesis .
qed

lemma double_pos: "0 < x \<Longrightarrow> 0 < double x"
  using double_lower [of x] powr_gt_zero [of 2 "of_int (binade x)"] by linarith

lemma double_mono_pos:
  assumes "0 < x" "x \<le> y"
  shows "double x \<le> double y"
proof (cases "binade x = binade y")
  case True
  then have u: "ulp x = ulp y" by (simp add: ulp_def)
  have "x / ulp y \<le> y / ulp y"
    by (rule divide_right_mono) (simp_all add: assms less_imp_le)
  then have "rne (x / ulp y) \<le> rne (y / ulp y)" by (rule rne_mono)
  then have "(of_int (rne (x / ulp y)) :: real) \<le> of_int (rne (y / ulp y))"
    by (simp only: of_int_le_iff)
  then have "of_int (rne (x / ulp y)) * ulp y \<le> of_int (rne (y / ulp y)) * ulp y"
    by (rule mult_right_mono) simp
  with assms u show ?thesis by (simp add: double_def)
next
  case False
  with binade_mono [OF assms] have "binade x + 1 \<le> binade y" by simp
  then have "(of_int (binade x + 1) :: real) \<le> of_int (binade y)"
    by (simp only: of_int_le_iff)
  then have "(2::real) powr of_int (binade x + 1) \<le> 2 powr of_int (binade y)"
    by (rule powr_mono) simp
  moreover from assms have "0 < y" by simp
  ultimately show ?thesis
    using double_upper [OF assms(1)] double_lower [of y] by linarith
qed

lemma double_mono:
  assumes "0 \<le> x" "x \<le> y"
  shows "double x \<le> double y"
proof (cases "x = 0")
  case True
  with assms double_pos [of y] show ?thesis by (cases "y = 0") (simp_all add: less_imp_le)
next
  case False
  with assms show ?thesis by (simp add: double_mono_pos)
qed

lemma double_nonneg: "0 \<le> x \<Longrightarrow> 0 \<le> double x"
  using double_mono [of 0 x] by simp

text \<open>A multiple of a power of two with fewer than 54 bits is a double.\<close>

lemma double_exact:
  assumes "x = of_int m * 2 powr of_int k" "0 \<le> m" "m < 2 ^ 53"
  shows "double x = x"
proof (cases "m = 0")
  case True
  with assms show ?thesis by simp
next
  case False
  with assms have m: "0 < m" by simp
  then have x: "0 < x" using assms(1) by simp
  define e where "e = binade x"
  from assms(3) have "(of_int m :: real) < of_int (2 ^ 53)"
    by (simp only: of_int_less_iff)
  then have m53: "(of_int m :: real) < 2 ^ 53" by simp
  have "2 powr of_int e \<le> x" using binade_bounds(1) [OF x] by (simp add: e_def)
  also have "x < 2 ^ 53 * 2 powr of_int k"
    unfolding assms(1) by (rule mult_strict_right_mono [OF m53]) simp
  also have "\<dots> = 2 powr (53 + of_int k)"
    by (simp add: powr_add)
  finally have "of_int e < (53 + of_int k :: real)"
    by simp
  then have "of_int e < (of_int (53 + k) :: real)" by simp
  then have "e < 53 + k" by (simp only: of_int_less_iff)
  then have nn: "0 \<le> k + 52 - e" by simp
  have "2 powr of_int k / ulp x = 2 powr (of_int k - of_int (e - 52))"
    unfolding ulp_def e_def by (rule powr_diff [symmetric])
  also have "of_int k - of_int (e - 52) = (of_int (k + 52 - e) :: real)"
    by simp
  also have "2 powr of_int (k + 52 - e) = (2::real) ^ nat (k + 52 - e)"
    by (rule powr_int_nat [OF nn])
  finally have sc: "2 powr of_int k / ulp x = 2 ^ nat (k + 52 - e)" .
  have "x / ulp x = of_int m * (2 powr of_int k / ulp x)"
    by (simp add: assms(1))
  also have "\<dots> = of_int (m * 2 ^ nat (k + 52 - e))"
    by (simp add: sc)
  finally have q: "x / ulp x = of_int (m * 2 ^ nat (k + 52 - e))" .
  have "rne (x / ulp x) = m * 2 ^ nat (k + 52 - e)"
    unfolding q by (rule rne_of_int)
  then have "of_int (rne (x / ulp x)) = x / ulp x"
    by (simp only: q)
  then show ?thesis using x by (simp add: double_def)
qed


lemma double_idem:
  assumes "0 \<le> x"
  shows "double (double x) = double x"
proof (cases "x = 0")
  case True
  then show ?thesis by simp
next
  case False
  with assms have x: "0 < x" by simp
  define m where "m = rne (x / ulp x)"
  have d: "double x = of_int m * 2 powr of_int (binade x - 52)"
    using x by (simp add: double_def m_def ulp_def)
  have "rne (of_int (2 ^ 52)) \<le> m"
    unfolding m_def by (rule rne_mono) (use scaled_bounds(1) [OF x] in simp)
  then have m0: "0 \<le> m" by (simp only: rne_of_int) simp
  have "m \<le> rne (of_int (2 ^ 53))"
    unfolding m_def by (rule rne_mono) (use scaled_bounds(2) [OF x] in simp)
  then have m1: "m \<le> 2 ^ 53" by (simp only: rne_of_int)
  show ?thesis
  proof (cases "m = 2 ^ 53")
    case False
    with m1 have "m < 2 ^ 53" by simp
    from double_exact [OF d m0 this] show ?thesis .
  next
    case True
    have "double x = 2 powr 53 * 2 powr of_int (binade x - 52)"
      unfolding d True by simp
    also have "\<dots> = 2 powr (53 + of_int (binade x - 52))"
      by (rule powr_add [symmetric])
    also have "53 + of_int (binade x - 52) = (of_int (binade x + 1) :: real)"
      by simp
    finally have "double x = of_int 1 * 2 powr of_int (binade x + 1)"
      by simp
    from double_exact [OF this] show ?thesis by simp
  qed
qed

lemma double_of_nat:
  assumes "n < 2 ^ 53"
  shows "double (real n) = real n"
proof -
  have "real n = of_int (int n) * 2 powr of_int 0" by simp
  moreover have "int n < 2 ^ 53" using assms by simp
  ultimately show ?thesis by (intro double_exact [where m = "int n" and k = 0]) simp_all
qed

lemma double_half:
  assumes "n < 2 ^ 53"
  shows "double (real n / 2) = real n / 2"
proof -
  have "(2::real) powr of_int (- 1) = 1 / 2"
    by (simp add: powr_minus_divide)
  then have "real n / 2 = of_int (int n) * 2 powr of_int (- 1)" by simp
  moreover have "int n < 2 ^ 53" using assms by simp
  ultimately show ?thesis by (intro double_exact [where m = "int n" and k = "- 1"]) simp_all
qed

lemma halves_double:
  assumes "halves N x" "N < 2 ^ 53"
  shows "double x = x"
proof -
  from assms(1) obtain n where n: "n \<le> N" "x = real n / 2" by (auto simp: halves_def)
  with assms(2) have "n < 2 ^ 53" by simp
  then show ?thesis unfolding n(2) by (rule double_half)
qed

lemma halves_add: "halves M x \<Longrightarrow> halves N y \<Longrightarrow> halves (M + N) (x + y)"
proof -
  assume "halves M x" "halves N y"
  then obtain m n where "m \<le> M" "x = real m / 2" "n \<le> N" "y = real n / 2"
    by (auto simp: halves_def)
  then have "m + n \<le> M + N" "x + y = real (m + n) / 2" by simp_all
  then show ?thesis unfolding halves_def by blast
qed

lemma halves_mono: "halves M x \<Longrightarrow> M \<le> N \<Longrightarrow> halves N x"
  by (auto simp: halves_def)

lemma halves_le:
  assumes "halves M x" "x \<le> real N / 2"
  shows "halves N x"
proof -
  from assms(1) obtain m where m: "x = real m / 2" by (auto simp: halves_def)
  with assms(2) have "m \<le> N" by simp
  with m show ?thesis unfolding halves_def by blast
qed

lemma double_error: "\<bar>double x - x\<bar> \<le> ulp x / 2"
proof (cases "x = 0")
  case True
  then show ?thesis by simp
next
  case False
  have "\<bar>of_int (rne (x / ulp x)) - x / ulp x\<bar> * ulp x \<le> 1 / 2 * ulp x"
    by (rule mult_right_mono [OF rne_error]) simp
  moreover have "\<bar>of_int (rne (x / ulp x)) - x / ulp x\<bar> * ulp x
      = \<bar>(of_int (rne (x / ulp x)) - x / ulp x) * ulp x\<bar>"
    by (simp add: abs_mult)
  moreover have "(of_int (rne (x / ulp x)) - x / ulp x) * ulp x
      = of_int (rne (x / ulp x)) * ulp x - x"
    by (simp add: left_diff_distrib)
  ultimately show ?thesis using False by (simp add: double_def)
qed

text \<open>
  Between \<open>2^k\<close> and \<open>2^(k+1)\<close> the doubles are the multiples of \<open>2^k / 2^52\<close>; this is
  how a rounding is computed.
\<close>

lemma double_eval:
  assumes "2 ^ k \<le> x" "x < 2 ^ Suc k" "k \<le> 52"
  shows "double x = of_int (rne (x * 2 ^ (52 - k))) / 2 ^ (52 - k)"
proof -
  have p: "(2::real) powr of_int (int k) = 2 ^ k" "(2::real) powr of_int (int k + 1) = 2 ^ Suc k"
    using powr_int_nat [of "int k"] powr_int_nat [of "int k + 1"]
    by (simp_all add: nat_add_distrib)
  have b: "binade x = int k"
    by (rule binade_eq) (simp_all only: p assms)
  have "0 < (2::real) ^ k" by simp
  with assms(1) have x: "x \<noteq> 0" by linarith
  have "ulp x = 2 powr (- of_int (int (52 - k)))"
    using assms(3) by (simp add: ulp_def b of_nat_diff)
  also have "\<dots> = 1 / 2 powr of_int (int (52 - k))"
    by (rule powr_minus_divide)
  also have "(2::real) powr of_int (int (52 - k)) = 2 ^ (52 - k)"
    using powr_int_nat [of "int (52 - k)"] by simp
  finally have u: "ulp x = 1 / 2 ^ (52 - k)" .
  show ?thesis using x by (simp add: double_def u)
qed

text \<open>Rounding the quotient by 75 does not change its ceiling.\<close>

lemma ceiling_double:
  assumes "n < 2 ^ 53"
  shows "\<lceil>double (real n / 75)\<rceil> = \<lceil>real n / 75\<rceil>"
proof (cases "n = 0")
  case True
  then show ?thesis by simp
next
  case False
  define x where "x = real n / 75"
  define c where "c = \<lceil>x\<rceil>"
  from False have x: "0 < x" by (simp add: x_def)
  have xc: "x \<le> of_int c" "of_int c - 1 < x"
    unfolding c_def by linarith+
  from x xc have c0: "0 \<le> c" by linarith
  have "x \<le> real n" using x by (simp add: x_def)
  with xc(2) have "(of_int (c - 1) :: real) < of_int (int n)" by simp
  then have "c - 1 < int n" by (simp only: of_int_less_iff)
  moreover have "int n < 2 ^ 53"
    using assms by simp
  ultimately have c53: "c < 2 ^ 53" by linarith
  have "real_of_int c = of_int c * 2 powr of_int 0" by simp
  from double_exact [OF this c0 c53] have dc: "double (of_int c) = of_int c" .
  have upper: "double x \<le> of_int c"
    using double_mono [of x "of_int c"] x xc(1) dc by simp
  have lower: "of_int c - 1 < double x"
  proof (cases "x = of_int c")
    case True
    with dc show ?thesis by simp
  next
    case False
    have "(of_int (int n) :: real) \<le> of_int (75 * c)" using xc(1) by (simp add: x_def)
    then have "int n \<le> 75 * c" by (simp only: of_int_le_iff)
    moreover have "int n \<noteq> 75 * c"
    proof
      assume "int n = 75 * c"
      then have "(of_int (int n) :: real) = of_int (75 * c)" by (simp only:)
      with False show False by (simp add: x_def)
    qed
    moreover have "75 * (c - 1) < int n"
    proof -
      have "(of_int (75 * (c - 1)) :: real) < of_int (int n)"
        using xc(2) by (simp add: x_def)
      then show ?thesis by (simp only: of_int_less_iff)
    qed
    ultimately have "75 * (c - 1) + 1 \<le> int n" by linarith
    then have "of_int (75 * (c - 1) + 1) \<le> (of_int (int n) :: real)"
      by (simp only: of_int_le_iff)
    then have gap: "of_int c - 1 + 1 / 75 \<le> x"
      by (simp add: x_def)
    have "real n < 2 ^ 53"
      using assms by simp
    then have "x < 2 ^ 53 / 75"
      by (simp add: x_def)
    then have "x < 2 powr of_int 47" by simp
    from binade_less [OF x this] have "binade x < 47" .
    then have "binade x - 52 \<le> - 6" by simp
    then have "(of_int (binade x - 52) :: real) \<le> of_int (- 6)"
      by (simp only: of_int_le_iff)
    then have "ulp x \<le> 2 powr of_int (- 6)"
      unfolding ulp_def by (rule powr_mono) simp
    also have "\<dots> = 1 / 64" by (simp add: powr_minus_divide)
    finally have "ulp x / 2 \<le> 1 / 128" by simp
    with double_error [of x] have "x - 1 / 128 \<le> double x" by linarith
    with gap show ?thesis by linarith
  qed
  from upper lower have "\<lceil>double x\<rceil> = c"
    by (simp add: ceiling_unique)
  then show ?thesis by (simp add: x_def c_def)
qed

subsection \<open>Block heights\<close>

text \<open>
  Claim C8. The height of a block is the base height of its type times the number of
  content lines, \<open>ceil(length / 75)\<close> and at least 1; the base heights are
  scene-heading 2.5, action 2, character 2, parenthetical 1.8, dialogue 2,
  transition 2.5, text 2, shot 2.5 (and 2 for a type outside the table). In double
  precision the height is the same product, with the base height, the quotient and the
  product each rounded to a double.
\<close>

theorem calculateBlockHeight_formula:
  "calculateBlockHeight b =
     (if block_type b = ''scene-heading'' then 5 / 2
      else if block_type b = ''action'' then 2
      else if block_type b = ''character'' then 2
      else if block_type b = ''parenthetical'' then 9 / 5
      else if block_type b = ''dialogue'' then 2
      else if block_type b = ''transition'' then 5 / 2
      else if block_type b = ''text'' then 2
      else if block_type b = ''shot'' then 5 / 2
      else 2)
     * real_of_int (max 1 \<lceil>real (length (content b)) / 75\<rceil>)
   \<and> calculateBlockHeight_double b =
     double
       ((if block_type b = ''scene-heading'' then double (5 / 2)
         else if block_type b = ''action'' then double 2
         else if block_type b = ''character'' then double 2
         else if block_type b = ''parenthetical'' then double (9 / 5)
         else if block_type b = ''dialogue'' then double 2
         else if block_type b = ''transition'' then double (5 / 2)
         else if block_type b = ''text'' then double 2
         else if block_type b = ''shot'' then double (5 / 2)
         else 2)
        * real_of_int (max 1 \<lceil>double (real (length (content b)) / 75)\<rceil>))"
  by (simp add: calculateBlockHeight_def calculateBlockHeight_double_def BLOCK_HEIGHTS_def)

lemma BLOCK_HEIGHTS_pos: "BLOCK_HEIGHTS t = Some h \<Longrightarrow> 0 < h"
  by (auto simp: BLOCK_HEIGHTS_def split: if_splits)

lemma height_arg_pos:
  "0 < (case BLOCK_HEIGHTS t of Some h \<Rightarrow> double h | None \<Rightarrow> 2) * real_of_int (max 1 c)"
proof -
  have "0 < (case BLOCK_HEIGHTS t of Some h \<Rightarrow> double h | None \<Rightarrow> 2)"
    by (auto split: option.splits dest: BLOCK_HEIGHTS_pos intro: double_pos)
  moreover have "0 < real_of_int (max 1 c)" by simp
  ultimately show ?thesis by (rule mult_pos_pos)
qed

lemma height_pos: "0 < calculateBlockHeight_double b"
  unfolding calculateBlockHeight_double_def Let_def
  by (rule double_pos) (rule height_arg_pos)

lemma height_double [simp]: "double (calculateBlockHeight_double b) = calculateBlockHeight_double b"
  unfolding calculateBlockHeight_double_def Let_def
  by (rule double_idem) (rule less_imp_le, rule height_arg_pos)

lemma double_2 [simp]: "double 2 = 2"
  using double_of_nat [of 2] by simp

lemma double_5_2 [simp]: "double (5 / 2) = 5 / 2"
  using double_half [of 5] by simp

lemma lines_bound:
  assumes "n < 2 ^ 53"
  shows "\<exists>L. max 1 \<lceil>double (real n / 75)\<rceil> = int L \<and> 0 < L \<and> L \<le> 2 ^ 47"
proof -
  define c where "c = max 1 \<lceil>real n / 75\<rceil>"
  have "real n \<le> 75 * 2 ^ 47" using assms by simp
  then have "real n / 75 \<le> of_int (2 ^ 47)" by simp
  then have "\<lceil>real n / 75\<rceil> \<le> 2 ^ 47" by (simp only: ceiling_le_iff)
  then have c: "1 \<le> c" "c \<le> 2 ^ 47" by (simp_all add: c_def)
  then have "c = int (nat c)" "0 < nat c" "nat c \<le> 2 ^ 47" by simp_all
  then show ?thesis
    unfolding ceiling_double [OF assms] c_def [symmetric] by blast
qed

lemma exact_height_halves:
  assumes "exact_height b"
  shows "halves (2 ^ 50) (calculateBlockHeight_double b)"
proof -
  from assms have ty: "block_type b \<noteq> ''parenthetical''" and len: "length (content b) < 2 ^ 53"
    by (simp_all add: exact_height_def)
  from lines_bound [OF len] obtain L where
    L: "max 1 \<lceil>double (real (length (content b)) / 75)\<rceil> = int L" "0 < L" "L \<le> 2 ^ 47"
    by blast
  have base: "(case BLOCK_HEIGHTS (block_type b) of Some h \<Rightarrow> double h | None \<Rightarrow> 2) = 5 / 2
      \<or> (case BLOCK_HEIGHTS (block_type b) of Some h \<Rightarrow> double h | None \<Rightarrow> 2) = 2"
    using ty by (simp add: BLOCK_HEIGHTS_def)
  then show ?thesis
  proof
    assume b5: "(case BLOCK_HEIGHTS (block_type b) of Some h \<Rightarrow> double h | None \<Rightarrow> 2) = 5 / 2"
    have n: "5 * L \<le> 2 ^ 50" "5 * L < 2 ^ 53" using L(3) by simp_all
    have "calculateBlockHeight_double b = double (real (5 * L) / 2)"
      by (simp add: calculateBlockHeight_double_def Let_def b5 L(1))
    also have "\<dots> = real (5 * L) / 2" by (rule double_half [OF n(2)])
    finally show ?thesis
      unfolding halves_def using n(1) by blast
  next
    assume b2: "(case BLOCK_HEIGHTS (block_type b) of Some h \<Rightarrow> double h | None \<Rightarrow> 2) = 2"
    have n: "4 * L \<le> 2 ^ 50" "4 * L < 2 ^ 53" using L(3) by simp_all
    have "calculateBlockHeight_double b = double (real (4 * L) / 2)"
      by (simp add: calculateBlockHeight_double_def Let_def b2 L(1))
    also have "\<dots> = real (4 * L) / 2" by (rule double_half [OF n(2)])
    finally show ?thesis
      unfolding halves_def using n(1) by blast
  qed
qed

subsection \<open>The pages\<close>

lemma page_of_append:
  "page_of (ps @ qs) (length (concat ps) + k) = length ps + page_of qs k"
  by (induction ps) (simp_all add: add.assoc)

lemma loop_body_cases':
  "(loop_body b bs (pages, cur, h)
      = (pages, cur @ [b], double (h + calculateBlockHeight_double b))
    \<and> (cur = [] \<or> double (h + calculateBlockHeight_double b) \<le> MAX_PAGE_HEIGHT))
   \<or> (cur \<noteq> [] \<and> loop_body b bs (pages, cur, h)
         = (pages @ [cur], [b], calculateBlockHeight_double b))"
  by (auto simp: loop_body_def addBlockToPage_def keepTogether_def Let_def split: list.splits)

lemma loop_body_cases:
  "loop_body b bs (pages, cur, h)
     = (pages, cur @ [b], double (h + calculateBlockHeight_double b))
   \<or> (cur \<noteq> [] \<and> loop_body b bs (pages, cur, h)
         = (pages @ [cur], [b], calculateBlockHeight_double b))"
  using loop_body_cases' [of b bs pages cur h] by blast

lemma organize_loop_pages:
  "organize_loop bs (pages, cur, h) = pages @ organize_loop bs ([], cur, h)"
proof (induction bs arbitrary: pages cur h)
  case Nil
  show ?case by simp
next
  case (Cons b bs)
  from loop_body_cases [of b bs "[]" cur h] loop_body_cases [of b bs pages cur h]
  obtain P C H where st: "loop_body b bs ([], cur, h) = (P, C, H)"
    and st': "loop_body b bs (pages, cur, h) = (pages @ P, C, H)"
    by (auto simp: loop_body_def addBlockToPage_def keepTogether_def Let_def
        split: list.splits if_splits)
  show ?case
    using Cons.IH [of "pages @ P" C H] Cons.IH [of P C H] st st' by simp
qed

lemma organize_loop_head:
  "cur \<noteq> [] \<Longrightarrow> \<exists>p ps. organize_loop bs ([], cur, h) = (cur @ p) # ps"
proof (induction bs arbitrary: cur h)
  case Nil
  then show ?case by simp
next
  case (Cons b bs)
  from loop_body_cases [of b bs "[]" cur h] show ?case
  proof
    assume "loop_body b bs ([], cur, h) = ([], cur @ [b], double (h + calculateBlockHeight_double b))"
    moreover obtain p ps where
      "organize_loop bs ([], cur @ [b], double (h + calculateBlockHeight_double b))
         = ((cur @ [b]) @ p) # ps"
      using Cons.IH [of "cur @ [b]"] by blast
    ultimately show ?thesis by simp
  next
    assume "cur \<noteq> [] \<and> loop_body b bs ([], cur, h)
              = ([] @ [cur], [b], calculateBlockHeight_double b)"
    then show ?thesis
      using organize_loop_pages [of bs "[cur]" "[b]" "calculateBlockHeight_double b"] by simp
  qed
qed

lemma organize_loop_concat:
  "concat (organize_loop bs (pages, cur, h)) = concat pages @ cur @ bs"
proof (induction bs arbitrary: pages cur h)
  case Nil
  show ?case by simp
next
  case (Cons b bs)
  from loop_body_cases [of b bs pages cur h] show ?case
    by (auto simp: Cons.IH)
qed

lemma organize_loop_nonempty:
  "\<forall>p \<in> set pages. p \<noteq> [] \<Longrightarrow> \<forall>p \<in> set (organize_loop bs (pages, cur, h)). p \<noteq> []"
proof (induction bs arbitrary: pages cur h)
  case Nil
  then show ?case by simp
next
  case (Cons b bs)
  from loop_body_cases [of b bs pages cur h] show ?case
  proof
    assume "loop_body b bs (pages, cur, h)
              = (pages, cur @ [b], double (h + calculateBlockHeight_double b))"
    then show ?thesis using Cons.IH [OF Cons.prems] by simp
  next
    assume a: "cur \<noteq> [] \<and> loop_body b bs (pages, cur, h)
                 = (pages @ [cur], [b], calculateBlockHeight_double b)"
    then have "\<forall>p \<in> set (pages @ [cur]). p \<noteq> []" using Cons.prems by simp
    from Cons.IH [OF this] a show ?thesis by simp
  qed
qed

text \<open>Two positions inside the current page stay on one page.\<close>

lemma organize_loop_same_page:
  assumes "j < length cur" "k < length cur"
  shows "page_of (organize_loop bs (pages, cur, h)) (length (concat pages) + j)
       = page_of (organize_loop bs (pages, cur, h)) (length (concat pages) + k)"
proof -
  from assms have "cur \<noteq> []" by auto
  then obtain p ps where "organize_loop bs ([], cur, h) = (cur @ p) # ps"
    using organize_loop_head by blast
  then have "organize_loop bs (pages, cur, h) = pages @ (cur @ p) # ps"
    using organize_loop_pages [of bs pages cur h] by simp
  then show ?thesis using assms by (simp add: page_of_append)
qed

text \<open>What one iteration leaves: a page that is not empty, one block longer.\<close>

lemma loop_body_state:
  assumes "0 \<le> h"
  obtains P C H where "loop_body b bs (pages, cur, h) = (P, C, H)" "C \<noteq> []" "0 \<le> H"
    "length (concat P) + length C = Suc (length (concat pages) + length cur)"
proof -
  have "0 \<le> double (h + calculateBlockHeight_double b)"
    using assms height_pos [of b] by (intro double_nonneg) simp
  with loop_body_cases [of b bs pages cur h] height_pos [of b] that show ?thesis
    by (auto simp: less_imp_le)
qed

text \<open>
  The pair when the character block starts a page: the current page is empty, or the
  keep-together test closes it.
\<close>

lemma pair_first:
  assumes inv: "cur = [] \<longrightarrow> h = 0"
    and ty: "block_type b = ''character''"
      "block_type nb = ''dialogue'' \<or> block_type nb = ''parenthetical''"
    and fit: "double (calculateBlockHeight_double b + calculateBlockHeight_double nb)
                \<le> MAX_PAGE_HEIGHT"
    and first: "cur = [] \<or> double (h + double (calculateBlockHeight_double b
                  + calculateBlockHeight_double nb)) > MAX_PAGE_HEIGHT"
  shows "\<exists>P H. loop_body nb rest (loop_body b (nb # rest) (pages, cur, h)) = (P, [b, nb], H)
          \<and> length (concat P) = length (concat pages) + length cur"
proof (cases "cur = []")
  case True
  with inv have h: "h = 0" by simp
  show ?thesis
    using True h ty fit
    by (auto simp: loop_body_def addBlockToPage_def keepTogether_def Let_def split: list.splits)
next
  case False
  with first have "double (h + double (calculateBlockHeight_double b
                  + calculateBlockHeight_double nb)) > MAX_PAGE_HEIGHT" by simp
  then show ?thesis
    using False ty fit
    by (auto simp: loop_body_def addBlockToPage_def keepTogether_def Let_def split: list.splits)
qed

text \<open>Otherwise the character block joins the current page.\<close>

lemma pair_not_first:
  assumes "0 \<le> h" "cur \<noteq> []"
    and ty: "block_type b = ''character''"
      "block_type nb = ''dialogue'' \<or> block_type nb = ''parenthetical''"
    and fits: "double (h + double (calculateBlockHeight_double b
                  + calculateBlockHeight_double nb)) \<le> MAX_PAGE_HEIGHT"
  shows "loop_body b (nb # rest) (pages, cur, h)
           = (pages, cur @ [b], double (h + calculateBlockHeight_double b))"
proof -
  have "calculateBlockHeight_double b
          \<le> double (calculateBlockHeight_double b + calculateBlockHeight_double nb)"
    using double_mono [of "calculateBlockHeight_double b"
        "calculateBlockHeight_double b + calculateBlockHeight_double nb"]
      height_pos [of b] height_pos [of nb] by simp
  then have "double (h + calculateBlockHeight_double b)
          \<le> double (h + double (calculateBlockHeight_double b + calculateBlockHeight_double nb))"
    using assms(1) height_pos [of b] by (intro double_mono) simp_all
  with fits have "double (h + calculateBlockHeight_double b) \<le> MAX_PAGE_HEIGHT" by linarith
  then show ?thesis
    using ty fits
    by (auto simp: loop_body_def addBlockToPage_def keepTogether_def Let_def)
qed

lemma keep_together_first:
  assumes "cur = [] \<longrightarrow> h = 0" "0 \<le> h"
    and "Suc i < length bs"
    and "block_type (bs ! i) = ''character''"
    and "block_type (bs ! Suc i) = ''dialogue'' \<or> block_type (bs ! Suc i) = ''parenthetical''"
    and "double (calculateBlockHeight_double (bs ! i) + calculateBlockHeight_double (bs ! Suc i))
           \<le> MAX_PAGE_HEIGHT"
    and "(cur = [] \<and> i = 0)
         \<or> page_of (organize_loop bs (pages, cur, h)) (length (concat pages) + length cur + i - 1)
           \<noteq> page_of (organize_loop bs (pages, cur, h)) (length (concat pages) + length cur + i)"
  shows "page_of (organize_loop bs (pages, cur, h)) (length (concat pages) + length cur + i)
       = page_of (organize_loop bs (pages, cur, h)) (length (concat pages) + length cur + Suc i)"
  using assms
proof (induction bs arbitrary: pages cur h i)
  case Nil
  then show ?case by simp
next
  case (Cons b bs)
  show ?case
  proof (cases i)
    case 0
    with Cons.prems obtain nb rest where bs: "bs = nb # rest"
      by (cases bs) auto
    with 0 Cons.prems have ty: "block_type b = ''character''"
      "block_type nb = ''dialogue'' \<or> block_type nb = ''parenthetical''"
      and fit: "double (calculateBlockHeight_double b + calculateBlockHeight_double nb)
                  \<le> MAX_PAGE_HEIGHT"
      by simp_all
    have first: "cur = [] \<or> double (h + double (calculateBlockHeight_double b
                  + calculateBlockHeight_double nb)) > MAX_PAGE_HEIGHT"
    proof (rule ccontr)
      assume "\<not> ?thesis"
      then have ne: "cur \<noteq> []" and fits: "double (h + double (calculateBlockHeight_double b
                  + calculateBlockHeight_double nb)) \<le> MAX_PAGE_HEIGHT"
        by simp_all
      from pair_not_first [OF Cons.prems(2) ne ty fits, of rest pages]
      have st: "loop_body b bs (pages, cur, h)
           = (pages, cur @ [b], double (h + calculateBlockHeight_double b))"
        by (simp add: bs)
      have "page_of (organize_loop bs (pages, cur @ [b], double (h + calculateBlockHeight_double b)))
              (length (concat pages) + (length cur - 1))
          = page_of (organize_loop bs (pages, cur @ [b], double (h + calculateBlockHeight_double b)))
              (length (concat pages) + length cur)"
        using ne by (intro organize_loop_same_page) simp_all
      moreover from ne have "length (concat pages) + length cur + 0 - 1
          = length (concat pages) + (length cur - 1)"
        by (cases cur) simp_all
      ultimately show False
        using Cons.prems(7) ne st 0 by simp
    qed
    from pair_first [OF Cons.prems(1) ty fit first, of rest pages]
    obtain P H where st: "loop_body nb rest (loop_body b (nb # rest) (pages, cur, h))
          = (P, [b, nb], H)"
      and len: "length (concat P) = length (concat pages) + length cur"
      by blast
    have "page_of (organize_loop rest (P, [b, nb], H)) (length (concat P) + 0)
        = page_of (organize_loop rest (P, [b, nb], H)) (length (concat P) + 1)"
      by (rule organize_loop_same_page) simp_all
    then show ?thesis using st len bs 0 by simp
  next
    case (Suc j)
    from loop_body_state [OF Cons.prems(2), of b bs pages cur]
    obtain P C H where st: "loop_body b bs (pages, cur, h) = (P, C, H)"
      and ne: "C \<noteq> []" and H: "0 \<le> H"
      and len: "length (concat P) + length C = Suc (length (concat pages) + length cur)"
      by blast
    from Cons.prems(7) Suc st
    have diff: "page_of (organize_loop bs (P, C, H)) (length (concat pages) + length cur + j)
           \<noteq> page_of (organize_loop bs (P, C, H))
               (Suc (length (concat pages) + length cur + j))"
      by simp
    have "page_of (organize_loop bs (P, C, H)) (length (concat P) + length C + j)
        = page_of (organize_loop bs (P, C, H)) (length (concat P) + length C + Suc j)"
    proof (rule Cons.IH)
      show "C = [] \<longrightarrow> H = 0" using ne by simp
      show "0 \<le> H" by (rule H)
      show "Suc j < length bs" using Cons.prems(3) Suc by simp
      show "block_type (bs ! j) = ''character''" using Cons.prems(4) Suc by simp
      show "block_type (bs ! Suc j) = ''dialogue'' \<or> block_type (bs ! Suc j) = ''parenthetical''"
        using Cons.prems(5) Suc by simp
      show "double (calculateBlockHeight_double (bs ! j)
                + calculateBlockHeight_double (bs ! Suc j)) \<le> MAX_PAGE_HEIGHT"
        using Cons.prems(6) Suc by simp
      show "(C = [] \<and> j = 0)
         \<or> page_of (organize_loop bs (P, C, H)) (length (concat P) + length C + j - 1)
           \<noteq> page_of (organize_loop bs (P, C, H)) (length (concat P) + length C + j)"
        using diff len by simp
    qed
    then show ?thesis using st len Suc by simp
  qed
qed

text \<open>
  With exact heights every sum is exact, and the pair that passes the keep-together
  test also passes the two tests of \<open>addBlockToPage\<close>.
\<close>

lemma step_exact:
  assumes "cur = [] \<longrightarrow> h = 0" "halves (2 ^ 50) h" "exact_height b"
  obtains P C H where "loop_body b bs (pages, cur, h) = (P, C, H)" "C \<noteq> []"
    "halves (2 ^ 50) H"
    "length (concat P) + length C = Suc (length (concat pages) + length cur)"
proof -
  note hb = exact_height_halves [OF assms(3)]
  from halves_add [OF assms(2) hb] have s: "halves (2 ^ 50 + 2 ^ 50) (h + calculateBlockHeight_double b)" .
  from halves_double [OF s] have ex: "double (h + calculateBlockHeight_double b)
      = h + calculateBlockHeight_double b" by simp
  from loop_body_cases' [of b bs pages cur h]
  consider (stay) "loop_body b bs (pages, cur, h)
        = (pages, cur @ [b], double (h + calculateBlockHeight_double b))"
      "cur = [] \<or> double (h + calculateBlockHeight_double b) \<le> MAX_PAGE_HEIGHT"
    | (break) "cur \<noteq> []" "loop_body b bs (pages, cur, h)
        = (pages @ [cur], [b], calculateBlockHeight_double b)"
    by blast
  then show ?thesis
  proof cases
    case stay
    have "halves (2 ^ 50) (h + calculateBlockHeight_double b)"
    proof (cases "cur = []")
      case True
      with assms(1) hb show ?thesis by simp
    next
      case False
      with stay(2) have "h + calculateBlockHeight_double b \<le> MAX_PAGE_HEIGHT"
        by (simp add: ex)
      then show ?thesis
        by (intro halves_le [OF s]) (simp add: MAX_PAGE_HEIGHT_def)
    qed
    with stay(1) that show ?thesis by (simp add: ex)
  next
    case break
    with hb that show ?thesis by simp
  qed
qed

lemma pair_exact:
  assumes inv: "cur = [] \<longrightarrow> h = 0" "halves (2 ^ 50) h"
    and ex: "exact_height b" "exact_height nb"
    and ty: "block_type b = ''character''"
      "block_type nb = ''dialogue'' \<or> block_type nb = ''parenthetical''"
    and fit: "double (calculateBlockHeight_double b + calculateBlockHeight_double nb)
                \<le> MAX_PAGE_HEIGHT"
  shows "\<exists>P C H. loop_body nb rest (loop_body b (nb # rest) (pages, cur, h)) = (P, C @ [b, nb], H)
          \<and> length (concat P) + length C = length (concat pages) + length cur"
proof (cases "cur = [] \<or> double (h + double (calculateBlockHeight_double b
                  + calculateBlockHeight_double nb)) > MAX_PAGE_HEIGHT")
  case True
  from pair_first [OF inv(1) ty fit True, of rest pages] show ?thesis
    by (metis append_Nil list.size(3) add_0_right)
next
  case False
  then have ne: "cur \<noteq> []" and fits: "double (h + double (calculateBlockHeight_double b
                  + calculateBlockHeight_double nb)) \<le> MAX_PAGE_HEIGHT"
    by simp_all
  note hb = exact_height_halves [OF ex(1)]
  note hn = exact_height_halves [OF ex(2)]
  from halves_add [OF hb hn] have s1: "halves (2 ^ 50 + 2 ^ 50)
      (calculateBlockHeight_double b + calculateBlockHeight_double nb)" .
  from halves_double [OF s1] have e1: "double (calculateBlockHeight_double b
      + calculateBlockHeight_double nb)
      = calculateBlockHeight_double b + calculateBlockHeight_double nb" by simp
  from halves_add [OF inv(2) s1] have s2: "halves (2 ^ 50 + (2 ^ 50 + 2 ^ 50))
      (h + (calculateBlockHeight_double b + calculateBlockHeight_double nb))" .
  from halves_double [OF s2] have e2: "double (h + (calculateBlockHeight_double b
      + calculateBlockHeight_double nb))
      = h + (calculateBlockHeight_double b + calculateBlockHeight_double nb)" by simp
  from halves_add [OF inv(2) hb] have s3: "halves (2 ^ 50 + 2 ^ 50)
      (h + calculateBlockHeight_double b)" .
  from halves_double [OF s3] have e3: "double (h + calculateBlockHeight_double b)
      = h + calculateBlockHeight_double b" by simp
  from fits have le: "h + (calculateBlockHeight_double b + calculateBlockHeight_double nb)
      \<le> MAX_PAGE_HEIGHT"
    by (simp only: e1 e2)
  have inv0: "0 \<le> h" using inv(2) by (auto simp: halves_def)
  from pair_not_first [OF inv0 ne ty fits, of rest pages]
  have st: "loop_body b (nb # rest) (pages, cur, h)
           = (pages, cur @ [b], h + calculateBlockHeight_double b)"
    by (simp only: e3)
  have e4: "double (h + calculateBlockHeight_double b + calculateBlockHeight_double nb)
      = h + calculateBlockHeight_double b + calculateBlockHeight_double nb"
    using e2 by (simp add: add.assoc)
  have "loop_body nb rest (pages, cur @ [b], h + calculateBlockHeight_double b)
      = (pages, (cur @ [b]) @ [nb],
         h + calculateBlockHeight_double b + calculateBlockHeight_double nb)"
    using ty(2) le
    by (auto simp: e4 loop_body_def addBlockToPage_def keepTogether_def Let_def
        split: list.splits)
  with st show ?thesis by simp
qed

lemma keep_together_exact:
  assumes "cur = [] \<longrightarrow> h = 0" "halves (2 ^ 50) h"
    and "Suc i < length bs"
    and "list_all exact_height (take (Suc (Suc i)) bs)"
    and "block_type (bs ! i) = ''character''"
    and "block_type (bs ! Suc i) = ''dialogue'' \<or> block_type (bs ! Suc i) = ''parenthetical''"
    and "double (calculateBlockHeight_double (bs ! i) + calculateBlockHeight_double (bs ! Suc i))
           \<le> MAX_PAGE_HEIGHT"
  shows "page_of (organize_loop bs (pages, cur, h)) (length (concat pages) + length cur + i)
       = page_of (organize_loop bs (pages, cur, h)) (length (concat pages) + length cur + Suc i)"
  using assms
proof (induction bs arbitrary: pages cur h i)
  case Nil
  then show ?case by simp
next
  case (Cons b bs)
  show ?case
  proof (cases i)
    case 0
    with Cons.prems obtain nb rest where bs: "bs = nb # rest"
      by (cases bs) auto
    with 0 Cons.prems have ty: "block_type b = ''character''"
      "block_type nb = ''dialogue'' \<or> block_type nb = ''parenthetical''"
      and fit: "double (calculateBlockHeight_double b + calculateBlockHeight_double nb)
                  \<le> MAX_PAGE_HEIGHT"
      and ex: "exact_height b" "exact_height nb"
      by simp_all
    from pair_exact [OF Cons.prems(1,2) ex ty fit, of rest pages]
    obtain P C H where st: "loop_body nb rest (loop_body b (nb # rest) (pages, cur, h))
          = (P, C @ [b, nb], H)"
      and len: "length (concat P) + length C = length (concat pages) + length cur"
      by blast
    have "page_of (organize_loop rest (P, C @ [b, nb], H)) (length (concat P) + length C)
        = page_of (organize_loop rest (P, C @ [b, nb], H)) (length (concat P) + Suc (length C))"
      by (rule organize_loop_same_page) simp_all
    then show ?thesis using st len bs 0 by simp
  next
    case (Suc j)
    from Cons.prems(4) have exb: "exact_height b" by simp
    from step_exact [OF Cons.prems(1,2) exb, of bs pages]
    obtain P C H where st: "loop_body b bs (pages, cur, h) = (P, C, H)"
      and ne: "C \<noteq> []" and H: "halves (2 ^ 50) H"
      and len: "length (concat P) + length C = Suc (length (concat pages) + length cur)"
      by blast
    have "page_of (organize_loop bs (P, C, H)) (length (concat P) + length C + j)
        = page_of (organize_loop bs (P, C, H)) (length (concat P) + length C + Suc j)"
      using Cons.prems Suc ne H by (intro Cons.IH) simp_all
    then show ?thesis using st len Suc by simp
  qed
qed

text \<open>
  In general: the current height is the height of the current page, and the pair stays
  together when the total added up block by block is not above the total of the
  keep-together test.
\<close>

lemma page_height_snoc:
  "page_height (page @ [b]) = double (page_height page + calculateBlockHeight_double b)"
  by (simp add: page_height_def)

lemma page_height_nonneg: "0 \<le> page_height page"
proof (induction page rule: rev_induct)
  case Nil
  show ?case by (simp add: page_height_def)
next
  case (snoc b page)
  then have "0 \<le> page_height page + calculateBlockHeight_double b"
    using height_pos [of b] by simp
  then show ?case unfolding page_height_snoc by (rule double_nonneg)
qed

lemma before_on_page_append:
  "before_on_page (ps @ qs) (length (concat ps) + k) = before_on_page qs k"
  by (induction ps) (simp_all add: add.assoc)

lemma organize_loop_before:
  assumes "k < length cur"
  shows "before_on_page (organize_loop bs (pages, cur, h)) (length (concat pages) + k)
           = take k cur"
proof -
  from assms have "cur \<noteq> []" by auto
  then obtain p ps where "organize_loop bs ([], cur, h) = (cur @ p) # ps"
    using organize_loop_head by blast
  then have "organize_loop bs (pages, cur, h) = pages @ (cur @ p) # ps"
    using organize_loop_pages [of bs pages cur h] by simp
  then show ?thesis using assms by (simp add: before_on_page_append)
qed

lemma loop_body_height:
  obtains P C where "loop_body b bs (pages, cur, page_height cur) = (P, C, page_height C)"
    "C \<noteq> []"
    "length (concat P) + length C = Suc (length (concat pages) + length cur)"
proof -
  have "page_height [b] = calculateBlockHeight_double b"
    by (simp add: page_height_def)
  with loop_body_cases [of b bs pages cur "page_height cur"] that show ?thesis
    by (auto simp: page_height_snoc)
qed

lemma pair_second:
  assumes "block_type nb = ''dialogue'' \<or> block_type nb = ''parenthetical''"
    and "double (h + calculateBlockHeight_double nb) \<le> MAX_PAGE_HEIGHT"
  shows "loop_body nb rest (pages, cur, h)
           = (pages, cur @ [nb], double (h + calculateBlockHeight_double nb))"
  using assms
  by (auto simp: loop_body_def addBlockToPage_def keepTogether_def Let_def split: list.splits)

lemma keep_together_general:
  assumes "Suc i < length bs"
    and "block_type (bs ! i) = ''character''"
    and "block_type (bs ! Suc i) = ''dialogue'' \<or> block_type (bs ! Suc i) = ''parenthetical''"
    and "double (calculateBlockHeight_double (bs ! i) + calculateBlockHeight_double (bs ! Suc i))
           \<le> MAX_PAGE_HEIGHT"
    and "double (double (page_height (before_on_page (organize_loop bs (pages, cur, page_height cur))
                                        (length (concat pages) + length cur + i))
                         + calculateBlockHeight_double (bs ! i))
                 + calculateBlockHeight_double (bs ! Suc i))
         \<le> double (page_height (before_on_page (organize_loop bs (pages, cur, page_height cur))
                                     (length (concat pages) + length cur + i))
                    + double (calculateBlockHeight_double (bs ! i)
                              + calculateBlockHeight_double (bs ! Suc i)))"
  shows "page_of (organize_loop bs (pages, cur, page_height cur))
           (length (concat pages) + length cur + i)
       = page_of (organize_loop bs (pages, cur, page_height cur))
           (length (concat pages) + length cur + Suc i)"
  using assms
proof (induction bs arbitrary: pages cur i)
  case Nil
  then show ?case by simp
next
  case (Cons b bs)
  show ?case
  proof (cases i)
    case 0
    with Cons.prems obtain nb rest where bs: "bs = nb # rest"
      by (cases bs) auto
    with 0 Cons.prems have ty: "block_type b = ''character''"
      "block_type nb = ''dialogue'' \<or> block_type nb = ''parenthetical''"
      and fit: "double (calculateBlockHeight_double b + calculateBlockHeight_double nb)
                  \<le> MAX_PAGE_HEIGHT"
      by simp_all
    have inv: "cur = [] \<longrightarrow> page_height cur = 0"
      by (simp add: page_height_def)
    show ?thesis
    proof (cases "cur = [] \<or> double (page_height cur + double (calculateBlockHeight_double b
                  + calculateBlockHeight_double nb)) > MAX_PAGE_HEIGHT")
      case True
      from pair_first [OF inv ty fit True, of rest pages]
      obtain P H where st: "loop_body nb rest (loop_body b (nb # rest) (pages, cur, page_height cur))
            = (P, [b, nb], H)"
        and len: "length (concat P) = length (concat pages) + length cur"
        by blast
      have "page_of (organize_loop rest (P, [b, nb], H)) (length (concat P) + 0)
          = page_of (organize_loop rest (P, [b, nb], H)) (length (concat P) + 1)"
        by (rule organize_loop_same_page) simp_all
      then show ?thesis using st len bs 0 by simp
    next
      case False
      then have ne: "cur \<noteq> []"
        and fits: "double (page_height cur + double (calculateBlockHeight_double b
                  + calculateBlockHeight_double nb)) \<le> MAX_PAGE_HEIGHT"
        by simp_all
      from pair_not_first [OF page_height_nonneg ne ty fits, of rest pages]
      have st: "loop_body b (nb # rest) (pages, cur, page_height cur)
           = (pages, cur @ [b], double (page_height cur + calculateBlockHeight_double b))" .
      have "before_on_page (organize_loop (nb # rest)
                (pages, cur @ [b], double (page_height cur + calculateBlockHeight_double b)))
              (length (concat pages) + length cur)
          = take (length cur) (cur @ [b])"
        by (rule organize_loop_before) simp
      with Cons.prems(5) 0 bs st
      have "double (double (page_height cur + calculateBlockHeight_double b)
                    + calculateBlockHeight_double nb)
          \<le> double (page_height cur + double (calculateBlockHeight_double b
                    + calculateBlockHeight_double nb))"
        by simp
      with fits have "double (double (page_height cur + calculateBlockHeight_double b)
                    + calculateBlockHeight_double nb) \<le> MAX_PAGE_HEIGHT"
        by linarith
      from pair_second [OF ty(2) this, of rest pages "cur @ [b]"]
      have st2: "loop_body nb rest (loop_body b (nb # rest) (pages, cur, page_height cur))
          = (pages, cur @ [b, nb],
             double (double (page_height cur + calculateBlockHeight_double b)
                     + calculateBlockHeight_double nb))"
        by (simp add: st)
      have "page_of (organize_loop rest (pages, cur @ [b, nb],
                double (double (page_height cur + calculateBlockHeight_double b)
                        + calculateBlockHeight_double nb)))
              (length (concat pages) + length cur)
          = page_of (organize_loop rest (pages, cur @ [b, nb],
                double (double (page_height cur + calculateBlockHeight_double b)
                        + calculateBlockHeight_double nb)))
              (length (concat pages) + Suc (length cur))"
        by (rule organize_loop_same_page) simp_all
      then show ?thesis using st2 bs 0 by simp
    qed
  next
    case (Suc j)
    from loop_body_height [of b bs pages cur]
    obtain P C where st: "loop_body b bs (pages, cur, page_height cur) = (P, C, page_height C)"
      and ne: "C \<noteq> []"
      and len: "length (concat P) + length C = Suc (length (concat pages) + length cur)"
      by blast
    have "page_of (organize_loop bs (P, C, page_height C)) (length (concat P) + length C + j)
        = page_of (organize_loop bs (P, C, page_height C)) (length (concat P) + length C + Suc j)"
      using Cons.prems Suc st len by (intro Cons.IH) simp_all
    then show ?thesis using st len Suc by simp
  qed
qed

subsection \<open>Computing with doubles\<close>

lemma double_numeral [simp]:
  "numeral k < (2::nat) ^ 53 \<Longrightarrow> double (numeral k) = numeral k"
  using double_of_nat [of "numeral k"] by simp

lemma double_half_numeral [simp]:
  "numeral k < (2::nat) ^ 53 \<Longrightarrow> double (numeral k / 2) = numeral k / 2"
  using double_half [of "numeral k"] by simp

lemma height_eval:
  assumes "length (content b) < 2 ^ 53"
  shows "calculateBlockHeight_double b =
     double ((case BLOCK_HEIGHTS (block_type b) of Some h \<Rightarrow> double h | None \<Rightarrow> 2)
             * real_of_int (max 1 \<lceil>real (length (content b)) / 75\<rceil>))"
  unfolding calculateBlockHeight_double_def Let_def ceiling_double [OF assms] by (rule refl)

lemma double_9_5: "double (9 / 5) = 8106479329266893 / 4503599627370496"
  using double_eval [of 0 "9 / 5"] by (simp add: rne_def Let_def)

lemma double_value_1: "double (8106479329266893 / 1125899906842624) = 8106479329266893 / 1125899906842624"
  using double_eval [of 2 "8106479329266893 / 1125899906842624"] by (simp add: rne_def Let_def)

lemma double_value_2: "double (37379876907175117 / 1125899906842624) = 2336242306698445 / 70368744177664"
  using double_eval [of 5 "37379876907175117 / 1125899906842624"] by (simp add: rne_def Let_def)

lemma double_value_3: "double (25783107866696091 / 562949953421312) = 6445776966674023 / 140737488355328"
  using double_eval [of 5 "25783107866696091 / 562949953421312"] by (simp add: rne_def Let_def)

lemma double_value_4: "double (10358279142952141 / 1125899906842624) = 2589569785738035 / 281474976710656"
  using double_eval [of 3 "10358279142952141 / 1125899906842624"] by (simp add: rne_def Let_def)

lemma double_value_5: "double (15481123719086081 / 281474976710656) = 55"
  using double_eval [of 5 "15481123719086081 / 281474976710656"] by (simp add: rne_def Let_def)

lemma double_value_6: "double (6727251943384679 / 140737488355328) = 6727251943384679 / 140737488355328"
  using double_eval [of 5 "6727251943384679 / 140737488355328"] by (simp add: rne_def Let_def)

lemma double_value_7: "double (61924494876344325 / 1125899906842624) = 7740561859543041 / 140737488355328"
  using double_eval [of 5 "61924494876344325 / 1125899906842624"] by (simp add: rne_def Let_def)

lemma double_value_8: "double (56745355304868251 / 4503599627370496) = 7093169413108531 / 562949953421312"
  using double_eval [of 3 "56745355304868251 / 4503599627370496"] by (simp add: rne_def Let_def)

lemma double_value_9: "double (7093169413108531 / 562949953421312) = 7093169413108531 / 562949953421312"
  using double_eval [of 3 "7093169413108531 / 562949953421312"] by (simp add: rne_def Let_def)

lemma double_value_10: "double (17113678584007885 / 4503599627370496) = 4278419646001971 / 1125899906842624"
  using double_eval [of 1 "17113678584007885 / 4503599627370496"] by (simp add: rne_def Let_def)

lemma double_value_11: "double (65077014615503667 / 1125899906842624) = 4067313413468979 / 70368744177664"
  using double_eval [of 5 "65077014615503667 / 1125899906842624"] by (simp add: rne_def Let_def)

lemma double_value_12: "double (8106479329266893 / 4503599627370496) = 8106479329266893 / 4503599627370496"
  using double_eval [of 0 "8106479329266893 / 4503599627370496"] by (simp add: rne_def Let_def)


lemma double_value_13: "double (9344969226793779 / 1125899906842624) = 2336242306698445 / 281474976710656"
  using double_eval [of 3 "9344969226793779 / 1125899906842624"] by (simp add: rne_def Let_def)

lemma double_value_14: "double (37379876907175117 / 4503599627370496) = 2336242306698445 / 281474976710656"
  using double_eval [of 3 "37379876907175117 / 4503599627370496"] by (simp add: rne_def Let_def)

lemma double_value_15: "double (2899192260119757 / 281474976710656) = 2899192260119757 / 281474976710656"
  using double_eval [of 3 "2899192260119757 / 281474976710656"] by (simp add: rne_def Let_def)

lemmas double_values = double_9_5 double_value_1 double_value_2 double_value_3 double_value_4
  double_value_5 double_value_6 double_value_7 double_value_8 double_value_9 double_value_10
  double_value_11 double_value_12 double_value_13 double_value_14 double_value_15

lemma heights_rounding_example:
  "map calculateBlockHeight_double rounding_example
     = [8106479329266893 / 1125899906842624, 26, 7093169413108531 / 562949953421312, 2,
        8106479329266893 / 1125899906842624]"
  by (simp add: rounding_example_def height_eval BLOCK_HEIGHTS_def double_values js_def)

lemma heights_pair_after_long_action:
  "map calculateBlockHeight_double pair_after_long_action
     = [54, 2, 8106479329266893 / 4503599627370496]"
  by (simp add: pair_after_long_action_def height_eval BLOCK_HEIGHTS_def double_values js_def)

lemma heights_long_dialogue_pair:
  "map calculateBlockHeight_double long_dialogue_pair = [2, 54]"
  by (simp add: long_dialogue_pair_def height_eval BLOCK_HEIGHTS_def double_values js_def)

lemma heights_dialogue_scene:
  "map calculateBlockHeight_double dialogue_scene = [5 / 2, 2, 2, 2]"
  by (simp add: dialogue_scene_def height_eval BLOCK_HEIGHTS_def js_def)

lemma heights_INITIAL_BLOCKS:
  "map calculateBlockHeight_double INITIAL_BLOCKS
     = [5 / 2, 2, 2, 8106479329266893 / 4503599627370496, 2]"
  by (simp add: INITIAL_BLOCKS_def height_eval BLOCK_HEIGHTS_def double_values js_def)

subsection \<open>Keeping a character block and the block after it together\<close>

lemmas paginate_defs = organizeBlocksIntoPages_def loop_body_def addBlockToPage_def
  keepTogether_def MAX_PAGE_HEIGHT_def

lemma pages_pair_after_long_action:
  "organizeBlocksIntoPages pair_after_long_action
     = [[pair_after_long_action ! 0], [pair_after_long_action ! 1, pair_after_long_action ! 2]]"
  by (simp add: pair_after_long_action_def paginate_defs double_values
      heights_pair_after_long_action [unfolded pair_after_long_action_def list.map list.inject])

lemma pages_rounding_example:
  "organizeBlocksIntoPages rounding_example
     = [[rounding_example ! 0, rounding_example ! 1, rounding_example ! 2, rounding_example ! 3],
        [rounding_example ! 4]]"
  by (simp add: rounding_example_def paginate_defs double_values
      heights_rounding_example [unfolded rounding_example_def list.map list.inject])

lemma pages_dialogue_scene:
  "organizeBlocksIntoPages dialogue_scene = [dialogue_scene]"
  by (simp add: dialogue_scene_def paginate_defs
      heights_dialogue_scene [unfolded dialogue_scene_def list.map list.inject])

lemma pages_INITIAL_BLOCKS:
  "organizeBlocksIntoPages INITIAL_BLOCKS = [INITIAL_BLOCKS]"
  by (simp add: INITIAL_BLOCKS_def paginate_defs double_values
      heights_INITIAL_BLOCKS [unfolded INITIAL_BLOCKS_def list.map list.inject One_nat_def])

lemma pages_long_dialogue_pair:
  "organizeBlocksIntoPages long_dialogue_pair
     = [[long_dialogue_pair ! 0], [long_dialogue_pair ! 1]]"
  by (simp add: long_dialogue_pair_def paginate_defs double_values
      heights_long_dialogue_pair [unfolded long_dialogue_pair_def list.map list.inject])

text \<open>
  Claim C4, as the code has it. The pages hold the blocks in document order and no page
  is empty. A character block and the dialogue or parenthetical block right after it,
  whose heights add up to at most \<open>MAX_PAGE_HEIGHT = 55\<close>, are on the same page when the
  character block is the first block of its page; when no block up to the pair is a
  parenthetical block (the heights are then multiples of 0.5, and all their sums are
  exact); and, in general, when the height of the page with the two blocks added one
  after the other is not above the height of the page with the sum of the two added,
  which is the number the keep-together test compares with 55.
\<close>

theorem organizeBlocksIntoPages_keep_together:
  "concat (organizeBlocksIntoPages blocks) = blocks
   \<and> (\<forall>page \<in> set (organizeBlocksIntoPages blocks). page \<noteq> [])
   \<and> (\<forall>i. Suc i < length blocks
          \<and> block_type (blocks ! i) = ''character''
          \<and> (block_type (blocks ! Suc i) = ''dialogue''
               \<or> block_type (blocks ! Suc i) = ''parenthetical'')
          \<and> double (calculateBlockHeight_double (blocks ! i)
                     + calculateBlockHeight_double (blocks ! Suc i)) \<le> MAX_PAGE_HEIGHT
          \<and> (i = 0
               \<or> page_of (organizeBlocksIntoPages blocks) (i - 1)
                   \<noteq> page_of (organizeBlocksIntoPages blocks) i
               \<or> list_all exact_height (take (Suc (Suc i)) blocks)
               \<or> double (double (page_height (before_on_page (organizeBlocksIntoPages blocks) i)
                                     + calculateBlockHeight_double (blocks ! i))
                             + calculateBlockHeight_double (blocks ! Suc i))
                   \<le> double (page_height (before_on_page (organizeBlocksIntoPages blocks) i)
                               + double (calculateBlockHeight_double (blocks ! i)
                                         + calculateBlockHeight_double (blocks ! Suc i))))
        \<longrightarrow> page_of (organizeBlocksIntoPages blocks) i
            = page_of (organizeBlocksIntoPages blocks) (Suc i))"
proof (intro conjI allI impI)
  show "concat (organizeBlocksIntoPages blocks) = blocks"
    by (simp add: organizeBlocksIntoPages_def organize_loop_concat)
  show "\<forall>page \<in> set (organizeBlocksIntoPages blocks). page \<noteq> []"
    unfolding organizeBlocksIntoPages_def by (rule organize_loop_nonempty) simp
next
  fix i
  assume a: "Suc i < length blocks
          \<and> block_type (blocks ! i) = ''character''
          \<and> (block_type (blocks ! Suc i) = ''dialogue''
               \<or> block_type (blocks ! Suc i) = ''parenthetical'')
          \<and> double (calculateBlockHeight_double (blocks ! i)
                     + calculateBlockHeight_double (blocks ! Suc i)) \<le> MAX_PAGE_HEIGHT
          \<and> (i = 0
               \<or> page_of (organizeBlocksIntoPages blocks) (i - 1)
                   \<noteq> page_of (organizeBlocksIntoPages blocks) i
               \<or> list_all exact_height (take (Suc (Suc i)) blocks)
               \<or> double (double (page_height (before_on_page (organizeBlocksIntoPages blocks) i)
                                     + calculateBlockHeight_double (blocks ! i))
                             + calculateBlockHeight_double (blocks ! Suc i))
                   \<le> double (page_height (before_on_page (organizeBlocksIntoPages blocks) i)
                               + double (calculateBlockHeight_double (blocks ! i)
                                         + calculateBlockHeight_double (blocks ! Suc i))))"
  then have len: "Suc i < length blocks"
    and ty: "block_type (blocks ! i) = ''character''"
      "block_type (blocks ! Suc i) = ''dialogue'' \<or> block_type (blocks ! Suc i) = ''parenthetical''"
    and fit: "double (calculateBlockHeight_double (blocks ! i)
                + calculateBlockHeight_double (blocks ! Suc i)) \<le> MAX_PAGE_HEIGHT"
    by simp_all
  from a consider
      (first) "i = 0 \<or> page_of (organizeBlocksIntoPages blocks) (i - 1)
                   \<noteq> page_of (organizeBlocksIntoPages blocks) i"
    | (exact) "list_all exact_height (take (Suc (Suc i)) blocks)"
    | (general)
      "double (double (page_height (before_on_page (organizeBlocksIntoPages blocks) i)
                       + calculateBlockHeight_double (blocks ! i))
               + calculateBlockHeight_double (blocks ! Suc i))
       \<le> double (page_height (before_on_page (organizeBlocksIntoPages blocks) i)
                   + double (calculateBlockHeight_double (blocks ! i)
                             + calculateBlockHeight_double (blocks ! Suc i)))"
    by blast
  then have "page_of (organize_loop blocks ([], [], 0))
               (length (concat ([]::Block list list)) + length ([]::Block list) + i)
      = page_of (organize_loop blocks ([], [], 0))
          (length (concat ([]::Block list list)) + length ([]::Block list) + Suc i)"
  proof cases
    case first
    then have "([]::Block list) = [] \<and> i = 0
         \<or> page_of (organize_loop blocks ([], [], 0))
              (length (concat ([]::Block list list)) + length ([]::Block list) + i - 1)
           \<noteq> page_of (organize_loop blocks ([], [], 0))
              (length (concat ([]::Block list list)) + length ([]::Block list) + i)"
      by (simp add: organizeBlocksIntoPages_def)
    with len ty fit show ?thesis
      by (intro keep_together_first) simp_all
  next
    case exact
    have "halves (2 ^ 50) 0" by (simp add: halves_def)
    with len ty fit exact show ?thesis
      by (intro keep_together_exact) simp_all
  next
    case general
    have "page_of (organize_loop blocks ([], [], page_height []))
               (length (concat ([]::Block list list)) + length ([]::Block list) + i)
      = page_of (organize_loop blocks ([], [], page_height []))
          (length (concat ([]::Block list list)) + length ([]::Block list) + Suc i)"
      using len ty fit general
      by (intro keep_together_general) (simp_all add: organizeBlocksIntoPages_def page_height_def)
    then show ?thesis by (simp add: page_height_def)
  qed
  then show "page_of (organizeBlocksIntoPages blocks) i
            = page_of (organizeBlocksIntoPages blocks) (Suc i)"
    by (simp add: organizeBlocksIntoPages_def)
qed

theorem organizeBlocksIntoPages_keep_together_witness:
  "Suc 1 < length pair_after_long_action
   \<and> block_type (pair_after_long_action ! 1) = ''character''
   \<and> block_type (pair_after_long_action ! Suc 1) = ''parenthetical''
   \<and> double (calculateBlockHeight_double (pair_after_long_action ! 1)
              + calculateBlockHeight_double (pair_after_long_action ! Suc 1)) \<le> MAX_PAGE_HEIGHT
   \<and> page_of (organizeBlocksIntoPages pair_after_long_action) (1 - 1)
        \<noteq> page_of (organizeBlocksIntoPages pair_after_long_action) 1
   \<and> page_of (organizeBlocksIntoPages pair_after_long_action) 1
        = page_of (organizeBlocksIntoPages pair_after_long_action) (Suc 1)
   \<and> concat (organizeBlocksIntoPages pair_after_long_action) = pair_after_long_action
   \<and> [] \<notin> set (organizeBlocksIntoPages pair_after_long_action)
   \<and> length (organizeBlocksIntoPages pair_after_long_action) = 2
   \<and> Suc 2 < length dialogue_scene
   \<and> block_type (dialogue_scene ! 2) = ''character''
   \<and> block_type (dialogue_scene ! Suc 2) = ''dialogue''
   \<and> double (calculateBlockHeight_double (dialogue_scene ! 2)
              + calculateBlockHeight_double (dialogue_scene ! Suc 2)) \<le> MAX_PAGE_HEIGHT
   \<and> list_all exact_height (take (Suc (Suc 2)) dialogue_scene)
   \<and> page_of (organizeBlocksIntoPages dialogue_scene) (2 - 1)
        = page_of (organizeBlocksIntoPages dialogue_scene) 2
   \<and> page_of (organizeBlocksIntoPages dialogue_scene) 2
        = page_of (organizeBlocksIntoPages dialogue_scene) (Suc 2)
   \<and> Suc 2 < length INITIAL_BLOCKS
   \<and> block_type (INITIAL_BLOCKS ! 2) = ''character''
   \<and> block_type (INITIAL_BLOCKS ! Suc 2) = ''parenthetical''
   \<and> double (calculateBlockHeight_double (INITIAL_BLOCKS ! 2)
              + calculateBlockHeight_double (INITIAL_BLOCKS ! Suc 2)) \<le> MAX_PAGE_HEIGHT
   \<and> before_on_page (organizeBlocksIntoPages INITIAL_BLOCKS) 2 = take 2 INITIAL_BLOCKS
   \<and> double (double (page_height (before_on_page (organizeBlocksIntoPages INITIAL_BLOCKS) 2)
                      + calculateBlockHeight_double (INITIAL_BLOCKS ! 2))
              + calculateBlockHeight_double (INITIAL_BLOCKS ! Suc 2))
        \<le> double (page_height (before_on_page (organizeBlocksIntoPages INITIAL_BLOCKS) 2)
                    + double (calculateBlockHeight_double (INITIAL_BLOCKS ! 2)
                              + calculateBlockHeight_double (INITIAL_BLOCKS ! Suc 2)))
   \<and> page_of (organizeBlocksIntoPages INITIAL_BLOCKS) 2
        = page_of (organizeBlocksIntoPages INITIAL_BLOCKS) (Suc 2)"
proof -
  have h1: "Suc 1 < length pair_after_long_action"
    by (simp add: pair_after_long_action_def)
  have h2: "block_type (pair_after_long_action ! 1) = ''character''"
    by (simp add: pair_after_long_action_def)
  have h3: "block_type (pair_after_long_action ! Suc 1) = ''parenthetical''"
    by (simp add: pair_after_long_action_def)
  have h4: "double (calculateBlockHeight_double (pair_after_long_action ! 1)
              + calculateBlockHeight_double (pair_after_long_action ! Suc 1)) \<le> MAX_PAGE_HEIGHT"
    by (simp add: pair_after_long_action_def double_values MAX_PAGE_HEIGHT_def
        heights_pair_after_long_action [unfolded pair_after_long_action_def list.map list.inject])
  have h5: "page_of (organizeBlocksIntoPages pair_after_long_action) (1 - 1)
        \<noteq> page_of (organizeBlocksIntoPages pair_after_long_action) 1"
    by (simp add: pages_pair_after_long_action)
  note kt = organizeBlocksIntoPages_keep_together [of pair_after_long_action]
  from kt have c: "Suc 1 < length pair_after_long_action
          \<and> block_type (pair_after_long_action ! 1) = ''character''
          \<and> (block_type (pair_after_long_action ! Suc 1) = ''dialogue''
               \<or> block_type (pair_after_long_action ! Suc 1) = ''parenthetical'')
          \<and> double (calculateBlockHeight_double (pair_after_long_action ! 1)
                     + calculateBlockHeight_double (pair_after_long_action ! Suc 1))
               \<le> MAX_PAGE_HEIGHT
          \<and> (1 = (0::nat)
               \<or> page_of (organizeBlocksIntoPages pair_after_long_action) (1 - 1)
                   \<noteq> page_of (organizeBlocksIntoPages pair_after_long_action) 1
               \<or> list_all exact_height (take (Suc (Suc 1)) pair_after_long_action)
               \<or> double (double (page_height (before_on_page (organizeBlocksIntoPages pair_after_long_action) 1)
                                     + calculateBlockHeight_double (pair_after_long_action ! 1))
                             + calculateBlockHeight_double (pair_after_long_action ! Suc 1))
                   \<le> double (page_height (before_on_page (organizeBlocksIntoPages pair_after_long_action) 1)
                               + double (calculateBlockHeight_double (pair_after_long_action ! 1)
                                         + calculateBlockHeight_double (pair_after_long_action ! Suc 1))))
        \<longrightarrow> page_of (organizeBlocksIntoPages pair_after_long_action) 1
            = page_of (organizeBlocksIntoPages pair_after_long_action) (Suc 1)"
    by (elim conjE) (erule spec)
  have h3': "block_type (pair_after_long_action ! Suc 1) = ''dialogue''
               \<or> block_type (pair_after_long_action ! Suc 1) = ''parenthetical''"
    by (rule disjI2) (rule h3)
  have h5': "1 = (0::nat)
               \<or> page_of (organizeBlocksIntoPages pair_after_long_action) (1 - 1)
                   \<noteq> page_of (organizeBlocksIntoPages pair_after_long_action) 1
               \<or> list_all exact_height (take (Suc (Suc 1)) pair_after_long_action)
               \<or> double (double (page_height (before_on_page (organizeBlocksIntoPages pair_after_long_action) 1)
                                     + calculateBlockHeight_double (pair_after_long_action ! 1))
                             + calculateBlockHeight_double (pair_after_long_action ! Suc 1))
                   \<le> double (page_height (before_on_page (organizeBlocksIntoPages pair_after_long_action) 1)
                               + double (calculateBlockHeight_double (pair_after_long_action ! 1)
                                         + calculateBlockHeight_double (pair_after_long_action ! Suc 1)))"
    by (rule disjI2, rule disjI1) (rule h5)
  from h1 h2 h3' h4 h5' have p: "page_of (organizeBlocksIntoPages pair_after_long_action) 1
            = page_of (organizeBlocksIntoPages pair_after_long_action) (Suc 1)"
    by (intro mp [OF c] conjI)
  from kt have a: "concat (organizeBlocksIntoPages pair_after_long_action)
      = pair_after_long_action"
    by (rule conjunct1)
  from kt have b: "[] \<notin> set (organizeBlocksIntoPages pair_after_long_action)"
    by blast
  have l: "length (organizeBlocksIntoPages pair_after_long_action) = 2"
    by (simp add: pages_pair_after_long_action)
  have g1: "Suc 2 < length dialogue_scene"
    by (simp add: dialogue_scene_def)
  have g2: "block_type (dialogue_scene ! 2) = ''character''"
    by (simp add: dialogue_scene_def)
  have g3: "block_type (dialogue_scene ! Suc 2) = ''dialogue''"
    by (simp add: dialogue_scene_def)
  have g4: "double (calculateBlockHeight_double (dialogue_scene ! 2)
              + calculateBlockHeight_double (dialogue_scene ! Suc 2)) \<le> MAX_PAGE_HEIGHT"
    by (simp add: dialogue_scene_def MAX_PAGE_HEIGHT_def
        heights_dialogue_scene [unfolded dialogue_scene_def list.map list.inject])
  have g5: "list_all exact_height (take (Suc (Suc 2)) dialogue_scene)"
    by (simp add: dialogue_scene_def exact_height_def js_def)
  have g6: "page_of (organizeBlocksIntoPages dialogue_scene) (2 - 1)
        = page_of (organizeBlocksIntoPages dialogue_scene) 2"
    by (simp add: pages_dialogue_scene) (simp add: dialogue_scene_def)
  note kt2 = organizeBlocksIntoPages_keep_together [of dialogue_scene]
  from kt2 have c2: "Suc 2 < length dialogue_scene
          \<and> block_type (dialogue_scene ! 2) = ''character''
          \<and> (block_type (dialogue_scene ! Suc 2) = ''dialogue''
               \<or> block_type (dialogue_scene ! Suc 2) = ''parenthetical'')
          \<and> double (calculateBlockHeight_double (dialogue_scene ! 2)
                     + calculateBlockHeight_double (dialogue_scene ! Suc 2))
               \<le> MAX_PAGE_HEIGHT
          \<and> (2 = (0::nat)
               \<or> page_of (organizeBlocksIntoPages dialogue_scene) (2 - 1)
                   \<noteq> page_of (organizeBlocksIntoPages dialogue_scene) 2
               \<or> list_all exact_height (take (Suc (Suc 2)) dialogue_scene)
               \<or> double (double (page_height (before_on_page (organizeBlocksIntoPages dialogue_scene) 2)
                                     + calculateBlockHeight_double (dialogue_scene ! 2))
                             + calculateBlockHeight_double (dialogue_scene ! Suc 2))
                   \<le> double (page_height (before_on_page (organizeBlocksIntoPages dialogue_scene) 2)
                               + double (calculateBlockHeight_double (dialogue_scene ! 2)
                                         + calculateBlockHeight_double (dialogue_scene ! Suc 2))))
        \<longrightarrow> page_of (organizeBlocksIntoPages dialogue_scene) 2
            = page_of (organizeBlocksIntoPages dialogue_scene) (Suc 2)"
    by (elim conjE) (erule spec)
  have g3': "block_type (dialogue_scene ! Suc 2) = ''dialogue''
               \<or> block_type (dialogue_scene ! Suc 2) = ''parenthetical''"
    by (rule disjI1) (rule g3)
  have g5': "2 = (0::nat)
               \<or> page_of (organizeBlocksIntoPages dialogue_scene) (2 - 1)
                   \<noteq> page_of (organizeBlocksIntoPages dialogue_scene) 2
               \<or> list_all exact_height (take (Suc (Suc 2)) dialogue_scene)
               \<or> double (double (page_height (before_on_page (organizeBlocksIntoPages dialogue_scene) 2)
                                     + calculateBlockHeight_double (dialogue_scene ! 2))
                             + calculateBlockHeight_double (dialogue_scene ! Suc 2))
                   \<le> double (page_height (before_on_page (organizeBlocksIntoPages dialogue_scene) 2)
                               + double (calculateBlockHeight_double (dialogue_scene ! 2)
                                         + calculateBlockHeight_double (dialogue_scene ! Suc 2)))"
    by (rule disjI2, rule disjI2, rule disjI1) (rule g5)
  from g1 g2 g3' g4 g5' have q: "page_of (organizeBlocksIntoPages dialogue_scene) 2
            = page_of (organizeBlocksIntoPages dialogue_scene) (Suc 2)"
    by (intro mp [OF c2] conjI)
  note hs = heights_INITIAL_BLOCKS [unfolded INITIAL_BLOCKS_def list.map list.inject One_nat_def]
  have i1: "Suc 2 < length INITIAL_BLOCKS"
    by (simp add: INITIAL_BLOCKS_def)
  have i2: "block_type (INITIAL_BLOCKS ! 2) = ''character''"
    by (simp add: INITIAL_BLOCKS_def)
  have i3: "block_type (INITIAL_BLOCKS ! Suc 2) = ''parenthetical''"
    by (simp add: INITIAL_BLOCKS_def)
  have i4: "double (calculateBlockHeight_double (INITIAL_BLOCKS ! 2)
              + calculateBlockHeight_double (INITIAL_BLOCKS ! Suc 2)) \<le> MAX_PAGE_HEIGHT"
    by (simp add: INITIAL_BLOCKS_def double_values MAX_PAGE_HEIGHT_def hs)
  have i5: "before_on_page (organizeBlocksIntoPages INITIAL_BLOCKS) 2 = take 2 INITIAL_BLOCKS"
    by (simp add: pages_INITIAL_BLOCKS) (simp add: INITIAL_BLOCKS_def)
  have i6: "double (double (page_height (before_on_page (organizeBlocksIntoPages INITIAL_BLOCKS) 2)
                      + calculateBlockHeight_double (INITIAL_BLOCKS ! 2))
              + calculateBlockHeight_double (INITIAL_BLOCKS ! Suc 2))
        \<le> double (page_height (before_on_page (organizeBlocksIntoPages INITIAL_BLOCKS) 2)
                    + double (calculateBlockHeight_double (INITIAL_BLOCKS ! 2)
                              + calculateBlockHeight_double (INITIAL_BLOCKS ! Suc 2)))"
    unfolding i5 by (simp add: INITIAL_BLOCKS_def page_height_def double_values hs)
  note kt3 = organizeBlocksIntoPages_keep_together [of INITIAL_BLOCKS]
  from kt3 have c3: "Suc 2 < length INITIAL_BLOCKS
          \<and> block_type (INITIAL_BLOCKS ! 2) = ''character''
          \<and> (block_type (INITIAL_BLOCKS ! Suc 2) = ''dialogue''
               \<or> block_type (INITIAL_BLOCKS ! Suc 2) = ''parenthetical'')
          \<and> double (calculateBlockHeight_double (INITIAL_BLOCKS ! 2)
                     + calculateBlockHeight_double (INITIAL_BLOCKS ! Suc 2))
               \<le> MAX_PAGE_HEIGHT
          \<and> (2 = (0::nat)
               \<or> page_of (organizeBlocksIntoPages INITIAL_BLOCKS) (2 - 1)
                   \<noteq> page_of (organizeBlocksIntoPages INITIAL_BLOCKS) 2
               \<or> list_all exact_height (take (Suc (Suc 2)) INITIAL_BLOCKS)
               \<or> double (double (page_height (before_on_page (organizeBlocksIntoPages INITIAL_BLOCKS) 2)
                                     + calculateBlockHeight_double (INITIAL_BLOCKS ! 2))
                             + calculateBlockHeight_double (INITIAL_BLOCKS ! Suc 2))
                   \<le> double (page_height (before_on_page (organizeBlocksIntoPages INITIAL_BLOCKS) 2)
                               + double (calculateBlockHeight_double (INITIAL_BLOCKS ! 2)
                                         + calculateBlockHeight_double (INITIAL_BLOCKS ! Suc 2))))
        \<longrightarrow> page_of (organizeBlocksIntoPages INITIAL_BLOCKS) 2
            = page_of (organizeBlocksIntoPages INITIAL_BLOCKS) (Suc 2)"
    by (elim conjE) (erule spec)
  have i3': "block_type (INITIAL_BLOCKS ! Suc 2) = ''dialogue''
               \<or> block_type (INITIAL_BLOCKS ! Suc 2) = ''parenthetical''"
    by (rule disjI2) (rule i3)
  have i6': "2 = (0::nat)
               \<or> page_of (organizeBlocksIntoPages INITIAL_BLOCKS) (2 - 1)
                   \<noteq> page_of (organizeBlocksIntoPages INITIAL_BLOCKS) 2
               \<or> list_all exact_height (take (Suc (Suc 2)) INITIAL_BLOCKS)
               \<or> double (double (page_height (before_on_page (organizeBlocksIntoPages INITIAL_BLOCKS) 2)
                                     + calculateBlockHeight_double (INITIAL_BLOCKS ! 2))
                             + calculateBlockHeight_double (INITIAL_BLOCKS ! Suc 2))
                   \<le> double (page_height (before_on_page (organizeBlocksIntoPages INITIAL_BLOCKS) 2)
                               + double (calculateBlockHeight_double (INITIAL_BLOCKS ! 2)
                                         + calculateBlockHeight_double (INITIAL_BLOCKS ! Suc 2)))"
    by (rule disjI2, rule disjI2, rule disjI2) (rule i6)
  from i1 i2 i3' i4 i6' have r: "page_of (organizeBlocksIntoPages INITIAL_BLOCKS) 2
            = page_of (organizeBlocksIntoPages INITIAL_BLOCKS) (Suc 2)"
    by (intro mp [OF c3] conjI)
  from h1 h2 h3 h4 h5 p a b l g1 g2 g3 g4 g5 g6 q i1 i2 i3 i4 i5 i6 r
  show ?thesis by (intro conjI)
qed

text \<open>
  Claim C4 as stated fails. When the pair is higher than a page, a character block
  (height 2) before a dialogue block of 2000 characters (27 lines, height 54) is put
  on a page of its own, and the dialogue block on the next page. And a pair that fits
  is split when the running total rounds the other way: after blocks of heights 7.2,
  26 and 12.6 the total is 45.800000000000004; the test for the pair adds 9.2 to it,
  which gives 55 and leaves the page open; the character block makes the total
  47.800000000000004, and the parenthetical of height 7.2 makes it 55.00000000000001,
  which closes the page between the two.
\<close>

theorem organizeBlocksIntoPages_counterexample:
  "block_type (long_dialogue_pair ! 0) = ''character''
   \<and> block_type (long_dialogue_pair ! 1) = ''dialogue''
   \<and> organizeBlocksIntoPages long_dialogue_pair
       = [[long_dialogue_pair ! 0], [long_dialogue_pair ! 1]]
   \<and> page_of (organizeBlocksIntoPages long_dialogue_pair) 0
       \<noteq> page_of (organizeBlocksIntoPages long_dialogue_pair) 1
   \<and> block_type (rounding_example ! 3) = ''character''
   \<and> block_type (rounding_example ! 4) = ''parenthetical''
   \<and> double (calculateBlockHeight_double (rounding_example ! 3)
              + calculateBlockHeight_double (rounding_example ! 4)) \<le> MAX_PAGE_HEIGHT
   \<and> organizeBlocksIntoPages rounding_example
       = [[rounding_example ! 0, rounding_example ! 1, rounding_example ! 2,
           rounding_example ! 3],
          [rounding_example ! 4]]
   \<and> page_of (organizeBlocksIntoPages rounding_example) 3
       \<noteq> page_of (organizeBlocksIntoPages rounding_example) 4"
proof -
  have t1: "block_type (long_dialogue_pair ! 0) = ''character''"
    "block_type (long_dialogue_pair ! 1) = ''dialogue''"
    by (simp_all add: long_dialogue_pair_def)
  have p1: "page_of (organizeBlocksIntoPages long_dialogue_pair) 0
       \<noteq> page_of (organizeBlocksIntoPages long_dialogue_pair) 1"
    by (simp add: pages_long_dialogue_pair)
  have t2: "block_type (rounding_example ! 3) = ''character''"
    "block_type (rounding_example ! 4) = ''parenthetical''"
    by (simp_all add: rounding_example_def)
  have f2: "double (calculateBlockHeight_double (rounding_example ! 3)
              + calculateBlockHeight_double (rounding_example ! 4)) \<le> MAX_PAGE_HEIGHT"
    by (simp add: rounding_example_def double_values MAX_PAGE_HEIGHT_def
        heights_rounding_example [unfolded rounding_example_def list.map list.inject])
  have p2: "page_of (organizeBlocksIntoPages rounding_example) 3
       \<noteq> page_of (organizeBlocksIntoPages rounding_example) 4"
    by (simp add: pages_rounding_example)
  from t1 pages_long_dialogue_pair p1 t2 f2 pages_rounding_example p2
  show ?thesis by (intro conjI)
qed

section \<open>Format detection: proofs\<close>

lemma rests_lit:
  "rests (lit p) s = (if startsWith s p then [drop (length p) s] else [])"
proof (induction p arbitrary: s)
  case Nil
  show ?case by (simp add: startsWith_def)
next
  case (Cons x xs)
  show ?case
    by (cases s) (auto simp: Cons.IH startsWith_def)
qed

lemma rests_lit_i:
  "rests (lit_i p) s =
     (if startsWith (upperASCII s) (upperASCII p) then [drop (length p) s] else [])"
proof (induction p arbitrary: s)
  case Nil
  show ?case by (simp add: startsWith_def upperASCII_def)
next
  case (Cons x xs)
  show ?case
    by (cases s) (auto simp: Cons.IH startsWith_def upperASCII_def)
qed

lemma rests_Seq_nonempty:
  "rests (Seq a b) s \<noteq> [] \<longleftrightarrow> list_ex (\<lambda>r. rests b r \<noteq> []) (rests a s)"
  by (auto simp: list_ex_iff)

lemma rests_Seq_whole:
  "[] \<in> set (rests (Seq a b) s) \<longleftrightarrow> list_ex (\<lambda>r. [] \<in> set (rests b r)) (rests a s)"
  by (auto simp: list_ex_iff)

lemma rests_Many_whole:
  "[] \<in> set (rests (Many P) s) \<longleftrightarrow> list_all P s"
proof -
  have "[] \<in> set (rests (Many P) s) \<longleftrightarrow> (\<exists>k \<le> length (takeWhile P s). length s \<le> k)"
    by (auto simp: less_Suc_eq_le image_iff)
  also have "\<dots> \<longleftrightarrow> length s \<le> length (takeWhile P s)"
    by auto
  also have "\<dots> \<longleftrightarrow> takeWhile P s = s"
    using length_takeWhile_le [of P s]
    by (metis le_antisym order_refl takeWhile_eq_take take_all)
  also have "\<dots> \<longleftrightarrow> list_all P s"
    by (simp add: takeWhile_eq_all_conv list_all_iff)
  finally show ?thesis .
qed

lemma startsWith_whole:
  "startsWith x p \<and> drop (length p) x = [] \<longleftrightarrow> x = p"
  unfolding startsWith_def
  by (metis append_take_drop_id append_Nil2 take_all order_refl drop_all)

lemma test_whole_lit_i:
  "test_whole (lit_i p) s \<longleftrightarrow> upperASCII s = upperASCII p"
proof -
  have "test_whole (lit_i p) s \<longleftrightarrow>
        startsWith (upperASCII s) (upperASCII p) \<and> drop (length p) s = []"
    by (auto simp: test_whole_def rests_lit_i)
  also have "\<dots> \<longleftrightarrow>
        startsWith (upperASCII s) (upperASCII p)
        \<and> drop (length (upperASCII p)) (upperASCII s) = []"
    by (simp add: upperASCII_def)
  also have "\<dots> \<longleftrightarrow> upperASCII s = upperASCII p"
    by (rule startsWith_whole)
  finally show ?thesis .
qed

lemma test_whole_Alt:
  "test_whole (Alt a b) s \<longleftrightarrow> test_whole a s \<or> test_whole b s"
  by (simp add: test_whole_def)

lemma test_start_Alt:
  "test_start (Alt a b) s \<longleftrightarrow> test_start a s \<or> test_start b s"
  by (simp add: test_start_def)

lemma test_whole_lit:
  "[] \<in> set (rests (lit p) x) \<longleftrightarrow> x = p"
proof -
  have "[] \<in> set (rests (lit p) x) \<longleftrightarrow> startsWith x p \<and> drop (length p) x = []"
    unfolding rests_lit by (cases "startsWith x p") (simp_all add: eq_commute)
  then show ?thesis by (simp only: startsWith_whole)
qed

lemma test_end_lit:
  "test_end (lit p) s \<longleftrightarrow> endsWith s p"
proof -
  have "test_end (lit p) s \<longleftrightarrow> (\<exists>k \<le> length s. drop k s = p)"
    unfolding test_end_def list_ex_iff test_whole_lit
    by (simp add: Bex_def less_Suc_eq_le) (metis le_eq_less_or_eq)
  also have "\<dots> \<longleftrightarrow> endsWith s p"
  proof
    assume "\<exists>k \<le> length s. drop k s = p"
    then obtain k where k: "k \<le> length s" "drop k s = p" by blast
    then have "length p = length s - k" by auto
    with k show "endsWith s p" by (simp add: endsWith_def)
  next
    assume "endsWith s p"
    then show "\<exists>k \<le> length s. drop k s = p"
      by (auto simp: endsWith_def intro: exI [of _ "length s - length p"])
  qed
  finally show ?thesis .
qed

lemma rests_dot_space:
  "rests (Seq (Opt (Cls (\<lambda>c. c = of_char (CHR ''.'')))) (Cls isSpace)) r \<noteq> []
     \<longleftrightarrow> space_follows r"
  by (auto simp: space_follows_def split: list.splits)

lemma upperASCII_consts:
  "upperASCII (js ''INT'') = js ''INT''" "upperASCII (js ''EXT'') = js ''EXT''"
  "upperASCII (js ''INT/EXT'') = js ''INT/EXT''" "upperASCII (js ''I/E'') = js ''I/E''"
  "upperASCII (js ''FADE '') = js ''FADE ''" "upperASCII (js ''IN'') = js ''IN''"
  "upperASCII (js ''OUT'') = js ''OUT''" "upperASCII (js ''DISSOLVE'') = js ''DISSOLVE''"
  "upperASCII (js ''INT.'') = js ''INT.''" "upperASCII (js ''EXT.'') = js ''EXT.''"
  "upperASCII (js ''INT./EXT.'') = js ''INT./EXT.''"
  "upperASCII (js ''EXT./INT.'') = js ''EXT./INT.''"
  "upperASCII (js ''I/E.'') = js ''I/E.''"
  by (simp_all add: upperASCII_def canon_def js_def)

lemma js_length [simp]: "length (js s) = length s"
  by (simp add: js_def)

lemma js_append: "js (a @ b) = js a @ js b"
  by (simp add: js_def)

lemma test_scene_heading_rx:
  "test_start scene_heading_rx t \<longleftrightarrow>
     list_ex (\<lambda>p. startsWith (upperASCII t) p \<and> space_follows (drop (length p) t))
       [js ''INT'', js ''EXT'', js ''INT/EXT'', js ''I/E'']"
proof -
  have "test_start scene_heading_rx t \<longleftrightarrow>
        list_ex space_follows
          (rests (Alt (lit_i (js ''INT'')) (Alt (lit_i (js ''EXT'')) (Alt (lit_i (js ''INT/EXT''))
             (lit_i (js ''I/E''))))) t)"
    unfolding test_start_def scene_heading_rx_def
    by (subst rests_Seq_nonempty) (simp only: rests_dot_space)
  then show ?thesis
    by (simp add: rests_lit_i upperASCII_consts del: lit_i.simps)
qed

lemma startsWith_append:
  "startsWith s (p @ q) \<longleftrightarrow> startsWith s p \<and> startsWith (drop (length p) s) q"
proof (cases "length p \<le> length s")
  case True
  then have "length (take (length p) s) = length p" by simp
  then show ?thesis
    unfolding startsWith_def by (simp add: take_add)
next
  case False
  have "take (length p + length q) s \<noteq> p @ q"
  proof
    assume "take (length p + length q) s = p @ q"
    then have "length (take (length p + length q) s) = length (p @ q)" by simp
    with False show False by simp
  qed
  moreover have "take (length p) s \<noteq> p"
  proof
    assume "take (length p) s = p"
    then have "length (take (length p) s) = length p" by simp
    with False show False by simp
  qed
  ultimately show ?thesis by (simp add: startsWith_def)
qed

lemma test_start_lit_i:
  "test_start (lit_i q) t \<longleftrightarrow> startsWith (upperASCII t) (upperASCII q)"
  by (simp add: test_start_def rests_lit_i)

lemma test_start_Seq_lit_i:
  "test_start (Seq (lit_i p) r) t \<longleftrightarrow>
     startsWith (upperASCII t) (upperASCII p) \<and> test_start r (drop (length p) t)"
  by (simp add: test_start_def rests_lit_i)

lemma upperASCII_drop: "upperASCII (drop n t) = drop n (upperASCII t)"
  by (simp add: upperASCII_def drop_map)

lemma test_fade_rx:
  "test_start fade_rx t \<longleftrightarrow>
     list_ex (startsWith (upperASCII t)) [js ''FADE IN'', js ''FADE OUT'', js ''DISSOLVE'']"
proof -
  have "test_start fade_rx t \<longleftrightarrow>
          (startsWith (upperASCII t) (js ''FADE '' @ js ''IN'')
           \<or> startsWith (upperASCII t) (js ''FADE '' @ js ''OUT''))
          \<or> startsWith (upperASCII t) (js ''DISSOLVE'')"
    unfolding fade_rx_def test_start_Alt test_start_Seq_lit_i test_start_lit_i
      upperASCII_consts startsWith_append upperASCII_drop js_length
    by (simp only: conj_disj_distribL)
  moreover have "js ''FADE '' @ js ''IN'' = js ''FADE IN''"
    "js ''FADE '' @ js ''OUT'' = js ''FADE OUT''"
    by (simp_all add: js_def)
  ultimately show ?thesis by simp
qed

lemma test_character_rx:
  "test_whole character_rx t \<and> length t > 0 \<longleftrightarrow>
     t \<noteq> [] \<and> isUpperAZ (hd t)
     \<and> list_all (\<lambda>c. isUpperAZ c \<or> isSpace c \<or> c = of_char (CHR ''.'')
                    \<or> c = of_char (CHR ''('') \<or> c = of_char (CHR '')'')) t"
  unfolding test_whole_def character_rx_def rests_Seq_whole rests_Many_whole
  by (cases t) auto

lemma test_scene_prefix_rx:
  "test_whole scene_prefix_rx t \<longleftrightarrow>
     upperASCII t \<in> set [js ''INT.'', js ''EXT.'', js ''INT./EXT.'', js ''EXT./INT.'',
                         js ''I/E.'']"
  unfolding scene_prefix_rx_def test_whole_Alt test_whole_lit_i upperASCII_consts
  by (simp del: lit_i.simps)

lemmas format_defs = detectFormat_def test_start_def test_whole_def test_end_def
  scene_heading_rx_def to_rx_def fade_rx_def character_rx_def trim_def
  isSpace_def isUpperAZ_def canon_def upperASCII_def js_def startsWith_def endsWith_def
  scene_prefix_rx_def getNextBlockType_def

text \<open>
  Claim C5, as the code has it. \<open>detectFormat\<close> trims the content and decides in a
  fixed order. It returns scene-heading when the trimmed content starts, in any letter
  case, with \<open>INT\<close>, \<open>EXT\<close>, \<open>INT/EXT\<close> or \<open>I/E\<close> followed by an optional period and
  then a white-space character; else transition when the trimmed content ends in the
  upper-case \<open>TO:\<close> or starts, in any letter case, with \<open>FADE IN\<close>, \<open>FADE OUT\<close> or
  \<open>DISSOLVE\<close>; else character when the trimmed content is not empty, starts with a
  letter \<open>A\<close> to \<open>Z\<close> and holds only such letters, white space, periods and parentheses;
  else parenthetical when the trimmed content starts with \<open>(\<close> and ends with \<open>)\<close>;
  otherwise none. White space is that of JavaScript, the no-break space U+00A0
  included. The seven examples of the claim hold, and a no-break space after the prefix
  makes a scene heading as a space does.
\<close>

theorem detectFormat_priority:
  "detectFormat text =
     (let t = trim text in
      if list_ex (\<lambda>p. startsWith (upperASCII t) p \<and> space_follows (drop (length p) t))
           [js ''INT'', js ''EXT'', js ''INT/EXT'', js ''I/E'']
        then Some ''scene-heading''
      else if endsWith t (js ''TO:'')
           \<or> list_ex (startsWith (upperASCII t))
                [js ''FADE IN'', js ''FADE OUT'', js ''DISSOLVE'']
        then Some ''transition''
      else if t \<noteq> [] \<and> isUpperAZ (hd t)
           \<and> list_all (\<lambda>c. isUpperAZ c \<or> isSpace c \<or> c = of_char (CHR ''.'')
                          \<or> c = of_char (CHR ''('') \<or> c = of_char (CHR '')'')) t
        then Some ''character''
      else if startsWith t (js ''('') \<and> endsWith t (js '')'')
        then Some ''parenthetical''
      else None)
   \<and> detectFormat (js ''INT. HOUSE - DAY'') = Some ''scene-heading''
   \<and> detectFormat (js ''EXT HOUSE'') = Some ''scene-heading''
   \<and> detectFormat (js ''CUT TO:'') = Some ''transition''
   \<and> detectFormat (js ''FADE IN'') = Some ''transition''
   \<and> detectFormat (js ''SARAH'') = Some ''character''
   \<and> detectFormat (js ''(smiling)'') = Some ''parenthetical''
   \<and> detectFormat (js ''He walks in.'') = None
   \<and> detectFormat (js ''INT.'' @ [0xA0] @ js ''HOUSE'') = Some ''scene-heading''"
proof -
  have general: "detectFormat text =
     (let t = trim text in
      if list_ex (\<lambda>p. startsWith (upperASCII t) p \<and> space_follows (drop (length p) t))
           [js ''INT'', js ''EXT'', js ''INT/EXT'', js ''I/E'']
        then Some ''scene-heading''
      else if endsWith t (js ''TO:'')
           \<or> list_ex (startsWith (upperASCII t))
                [js ''FADE IN'', js ''FADE OUT'', js ''DISSOLVE'']
        then Some ''transition''
      else if t \<noteq> [] \<and> isUpperAZ (hd t)
           \<and> list_all (\<lambda>c. isUpperAZ c \<or> isSpace c \<or> c = of_char (CHR ''.'')
                          \<or> c = of_char (CHR ''('') \<or> c = of_char (CHR '')'')) t
        then Some ''character''
      else if startsWith t (js ''('') \<and> endsWith t (js '')'')
        then Some ''parenthetical''
      else None)"
    unfolding detectFormat_def Let_def to_rx_def test_end_lit
      test_scene_heading_rx test_fade_rx test_character_rx
    by (rule refl)
  have e1: "detectFormat (js ''INT. HOUSE - DAY'') = Some ''scene-heading''"
    by (simp add: format_defs)
  have e2: "detectFormat (js ''EXT HOUSE'') = Some ''scene-heading''"
    by (simp add: format_defs)
  have e3: "detectFormat (js ''CUT TO:'') = Some ''transition''"
    by (simp add: format_defs)
  have e4: "detectFormat (js ''FADE IN'') = Some ''transition''"
    by (simp add: format_defs)
  have e5: "detectFormat (js ''SARAH'') = Some ''character''"
    by (simp add: format_defs)
  have e6: "detectFormat (js ''(smiling)'') = Some ''parenthetical''"
    by (simp add: format_defs)
  have e7: "detectFormat (js ''He walks in.'') = None"
    by (simp add: format_defs)
  have e8: "detectFormat (js ''INT.'' @ [0xA0] @ js ''HOUSE'') = Some ''scene-heading''"
    by (simp add: format_defs)
  from general e1 e2 e3 e4 e5 e6 e7 e8 show ?thesis by (intro conjI)
qed

text \<open>
  Claim C5 as stated fails: \<open>INTERIOR\<close> starts with the prefix \<open>INT\<close> and is a
  character line, not a scene heading, since no white space follows the prefix; and
  \<open>(SMILING)\<close> holds upper-case letters and punctuation only and is a parenthetical,
  not a character line, since it does not start with a letter.
\<close>

theorem detectFormat_counterexample:
  "startsWith (js ''INTERIOR'') (js ''INT'')
   \<and> detectFormat (js ''INTERIOR'') = Some ''character''
   \<and> list_all (\<lambda>c. isUpperAZ c \<or> c = of_char (CHR ''('') \<or> c = of_char (CHR '')''))
        (js ''(SMILING)'')
   \<and> detectFormat (js ''(SMILING)'') = Some ''parenthetical''"
  by (simp add: format_defs)

text \<open>
  Claim C7. In a scene-heading block \<open>getNextBlockType\<close> returns scene-heading when the
  trimmed text is, in any letter case, one of the bare prefixes \<open>INT.\<close>, \<open>EXT.\<close>,
  \<open>INT./EXT.\<close>, \<open>EXT./INT.\<close>, \<open>I/E.\<close>, and action for any other text. For every other
  current type it returns what \<open>detectFormat\<close> finds in the text, and when that is
  none the successor of the current type: action to character, character to dialogue,
  parenthetical to dialogue, dialogue to action on a double Enter and to character
  otherwise, transition to scene-heading, anything else to action. Trimming removes
  the white space of JavaScript: a bare prefix followed by a no-break space is still
  a bare prefix.
\<close>

theorem getNextBlockType_table:
  "getNextBlockType currentType text isDoubleEnter =
     (if currentType = ''scene-heading'' then
        (if upperASCII (trim text)
              \<in> set [js ''INT.'', js ''EXT.'', js ''INT./EXT.'', js ''EXT./INT.'', js ''I/E.'']
         then ''scene-heading'' else ''action'')
      else case detectFormat text of
        Some detected \<Rightarrow> detected
      | None \<Rightarrow>
          (if currentType = ''action'' then ''character''
           else if currentType = ''character'' then ''dialogue''
           else if currentType = ''parenthetical'' then ''dialogue''
           else if currentType = ''dialogue''
             then (if isDoubleEnter then ''action'' else ''character'')
           else if currentType = ''transition'' then ''scene-heading''
           else ''action''))
   \<and> getNextBlockType ''scene-heading'' (js ''INT.'') False = ''scene-heading''
   \<and> getNextBlockType ''scene-heading'' (js ''EXT./INT.'') False = ''scene-heading''
   \<and> getNextBlockType ''scene-heading'' (js ''INT. HOUSE'') False = ''action''
   \<and> getNextBlockType ''scene-heading'' (js ''int.'' @ [0xA0]) False = ''scene-heading''"
proof -
  have general: "getNextBlockType currentType text isDoubleEnter =
     (if currentType = ''scene-heading'' then
        (if upperASCII (trim text)
              \<in> set [js ''INT.'', js ''EXT.'', js ''INT./EXT.'', js ''EXT./INT.'', js ''I/E.'']
         then ''scene-heading'' else ''action'')
      else case detectFormat text of
        Some detected \<Rightarrow> detected
      | None \<Rightarrow>
          (if currentType = ''action'' then ''character''
           else if currentType = ''character'' then ''dialogue''
           else if currentType = ''parenthetical'' then ''dialogue''
           else if currentType = ''dialogue''
             then (if isDoubleEnter then ''action'' else ''character'')
           else if currentType = ''transition'' then ''scene-heading''
           else ''action''))"
    unfolding getNextBlockType_def Let_def test_scene_prefix_rx
    by (simp split: option.splits)
  have e1: "getNextBlockType ''scene-heading'' (js ''INT.'') False = ''scene-heading''"
    by (simp add: format_defs)
  have e2: "getNextBlockType ''scene-heading'' (js ''EXT./INT.'') False = ''scene-heading''"
    by (simp add: format_defs)
  have e3: "getNextBlockType ''scene-heading'' (js ''INT. HOUSE'') False = ''action''"
    by (simp add: format_defs)
  have e4: "getNextBlockType ''scene-heading'' (js ''int.'' @ [0xA0]) False = ''scene-heading''"
    by (simp add: format_defs)
  from general e1 e2 e3 e4 show ?thesis by (intro conjI)
qed

section \<open>Persistence: proofs\<close>

lemmas persist_defs = reconstructBlocksFromScenes_def scenesQuery_def saved_scene_def
  scene_blocks_def buildSceneContent_def sceneHeadingOf_def blob_size_def SCENE_SIZE_LIMIT_def
  view_def js_def

lemma utf8_length_ascii: "list_all (\<lambda>c. c < 0x80) s \<Longrightarrow> utf8_length s = length s"
  by (induction s rule: utf8_length.induct) simp_all

lemma js_replicate: "js (replicate n c) = replicate n (of_char c)"
  by (simp add: js_def)











lemmas save_defs = saveScene_def saveScene_try_def releaseLock_def acquireLock_def
  checkConflicts_def conflict_result_def commit_def lock_path_def scenes_path_def
  screenplays_path_def getEffectiveScreenplayId_def

text \<open>
  Claim C1 fails on the code. Alice saves scene \<open>s1\<close> while Bob holds its lock for
  another minute: the result is the lock conflict the claim describes, but the
  \<open>finally\<close> block of \<open>saveScene\<close> calls \<open>releaseLock\<close>, which issues a delete of
  \<open>scene_locks/s1\<close>; after the call Bob's lock is gone.
\<close>

theorem saveScene_deletes_foreign_lock:
  "(case saveScene env0 ''s1'' [] False (alice, bob_locked) of
    (result, m, st) \<Rightarrow>
      result = \<lparr>success = False, error = Some ''Scene is being edited by another user'',
                version = None,
                conflicts = Some [(''s1'', ''another-user@example.com'', 1000000)]\<rparr>
      \<and> writes st = [DeleteDoc ''scene_locks/s1'']
      \<and> docs st ''scene_locks/s1'' = None)
   \<and> docs bob_locked ''scene_locks/s1'' = Some (LockDoc ''s1'' ''bob'' 1060000)
   \<and> ''bob'' \<noteq> manager_userId alice \<and> now env0 < 1060000"
  by (simp add: save_defs env0_def alice_def bob_locked_def)

text \<open>The same for every lock of another user that has not expired.\<close>

lemma saveScene_foreign_lock:
  assumes "docs st (lock_path sceneId) = Some (LockDoc sid holder expires)"
    and "holder \<noteq> manager_userId m"
    and "now e < expires"
  shows "case saveScene e sceneId blocks ignoreConflicts (m, st) of
           (result, m', st') \<Rightarrow>
             success result = False
             \<and> conflicts result = Some [(sceneId, ''another-user@example.com'', now e)]
             \<and> writes st' = writes st @ [DeleteDoc (lock_path sceneId)]
             \<and> docs st' (lock_path sceneId) = None"
  using assms
  by (simp add: saveScene_def saveScene_try_def releaseLock_def acquireLock_def
      conflict_result_def commit_def Let_def)

lemma split_from_no_space:
  "\<forall>c \<in> set s. \<not> isSpace c \<Longrightarrow> split_from cur s = [cur @ s]"
  by (induction s arbitrary: cur) simp_all

lemma long_sentence:
  assumes "\<forall>c \<in> set s. \<not> isSpace c" "length s > SCENE_SIZE_LIMIT"
  shows "splitActionIntoChunks s = [[], s]"
proof -
  from assms(2) have "s \<noteq> []" by auto
  with assms show ?thesis
    by (simp add: splitActionIntoChunks_def split_sentences_def split_from_no_space)
qed

lemma split_from_word:
  "\<forall>c \<in> set w. \<not> isSpace c \<Longrightarrow> split_from cur (w @ s) = split_from (cur @ w) s"
  by (induction w arbitrary: cur) simp_all

lemma two_sentences_eq:
  "two_sentences = (replicate 255999 97 @ [46]) @ [32] @ replicate 256000 98"
  by (simp add: two_sentences_def js_def)

lemma split_two_sentences:
  "split_sentences two_sentences = [replicate 255999 97 @ [46], replicate 256000 98]"
proof -
  have w: "\<forall>c \<in> set (replicate 255999 (97::nat) @ [46]). \<not> isSpace c"
    by (simp add: isSpace_def)
  have b: "\<forall>c \<in> set (replicate 256000 (98::nat)). \<not> isSpace c"
    by (simp add: isSpace_def)
  have "split_sentences two_sentences
      = split_from ([] @ (replicate 255999 97 @ [46])) ([32] @ replicate 256000 98)"
    unfolding split_sentences_def two_sentences_eq
    using split_from_word [OF w, of "[]" "[32] @ replicate 256000 98"] by simp
  also have "\<dots> = (replicate 255999 97 @ [46])
        # split_from [] (dropWhile isSpace (replicate 256000 98))"
    by (simp add: isSpace_def js_def)
  also have "dropWhile isSpace (replicate 256000 (98::nat)) = replicate 256000 98"
    using b by (simp add: dropWhile_eq_self_iff isSpace_def)
  also have "split_from [] (replicate 256000 98) = [[] @ replicate 256000 98]"
    using b by (rule split_from_no_space)
  finally show ?thesis by simp
qed

text \<open>
  Claim C9 fails on the code. An action block of 512001 characters without a sentence
  boundary is stored as two chunks, an empty one and the whole text, which is over the
  threshold of 512000. And a text of two sentences of 256000 characters each is stored
  as one chunk of 512001 characters: the loop compares the length of both sentences
  without the space it then puts between them.
\<close>

theorem splitActionIntoChunks_oversized:
  "actionChunks (buildSceneContent ''s1'' long_action)
     = Some [[], js (replicate 512001 (CHR ''a''))]
   \<and> SCENE_SIZE_LIMIT < length (js (replicate 512001 (CHR ''a'')))
   \<and> SCENE_SIZE_LIMIT < blob_size (js (replicate 512001 (CHR ''a'')))
   \<and> SCENE_SIZE_LIMIT < blob_size two_sentences
   \<and> splitActionIntoChunks two_sentences = [two_sentences]
   \<and> length two_sentences = SCENE_SIZE_LIMIT + 1"
proof -
  have size1: "blob_size (replicate 512001 97) = 512001"
    unfolding blob_size_def by (subst utf8_length_ascii) (simp_all add: list_all_iff)
  have "splitActionIntoChunks (replicate 512001 97) = [[], replicate 512001 97]"
    by (rule long_sentence) (simp_all add: isSpace_def SCENE_SIZE_LIMIT_def)
  then have one: "actionChunks (buildSceneContent ''s1'' long_action)
     = Some [[], js (replicate 512001 (CHR ''a''))]"
    by (simp add: buildSceneContent_def long_action_def size1 SCENE_SIZE_LIMIT_def js_replicate)
  have len: "length two_sentences = SCENE_SIZE_LIMIT + 1"
    by (simp add: two_sentences_def SCENE_SIZE_LIMIT_def)
  have "utf8_length two_sentences = length two_sentences"
    by (rule utf8_length_ascii) (simp add: two_sentences_eq list_all_iff)
  with len have size2: "blob_size two_sentences = SCENE_SIZE_LIMIT + 1"
    by (simp add: blob_size_def)
  have "splitActionIntoChunks two_sentences
      = chunk_loop [replicate 255999 97 @ [46], replicate 256000 98] [] []"
    by (simp only: splitActionIntoChunks_def split_two_sentences)
  also have "\<dots> = [two_sentences]"
    by (simp add: two_sentences_eq SCENE_SIZE_LIMIT_def js_def)
  finally have two: "splitActionIntoChunks two_sentences = [two_sentences]" .
  from one two len size1 size2 show ?thesis
    by (simp add: SCENE_SIZE_LIMIT_def js_replicate)
qed

section \<open>Editing handlers: proofs\<close>

lemmas handler_defs = handleEnterKey_def handleFormatChange_def handleContentChange_def
  keyEnter_def keyTab_def keyBackspace_def findIndex_def splice_def remove_at_def strip_parens_def
  new_block_def format_content_def isTransitionContent_def change_block_def fade_upper_rx_def
  blk_def BLOCK_TYPES_def updateBlockNumbers_def

lemma findIndex_Some:
  assumes "findIndex P xs = Some i"
  shows "i < length xs" and "P (xs ! i)" and "i = length (takeWhile (\<lambda>x. \<not> P x) xs)"
proof -
  from assms have ex: "list_ex P xs" and i: "i = length (takeWhile (\<lambda>x. \<not> P x) xs)"
    by (auto simp: findIndex_def split: if_splits)
  from ex have "takeWhile (\<lambda>x. \<not> P x) xs \<noteq> xs"
    by (auto simp: list_ex_iff takeWhile_eq_all_conv)
  with i show "i < length xs"
    using length_takeWhile_le [of "\<lambda>x. \<not> P x" xs]
    by (metis le_neq_implies_less takeWhile_eq_take take_all order_refl)
  then show "P (xs ! i)"
    using i nth_length_takeWhile [of "\<lambda>x. \<not> P x" xs] by auto
  show "i = length (takeWhile (\<lambda>x. \<not> P x) xs)" by (rule i)
qed

lemma splice_nth:
  assumes "i \<le> length xs"
  shows "splice i x xs ! i = x" and "length (splice i x xs) = Suc (length xs)"
    and "remove_at i (splice i x xs) = xs"
  using assms by (simp_all add: splice_def remove_at_def nth_append)

lemma splice_update:
  assumes "i < length xs"
  shows "splice (Suc i) x (xs[i := y]) = take i xs @ [y, x] @ drop (Suc i) xs"
  using assms by (simp add: splice_def take_Suc_conv_app_nth)

lemma splice_same:
  assumes "i < length xs"
  shows "splice (Suc i) x xs = take i xs @ [xs ! i, x] @ drop (Suc i) xs"
  using assms by (simp add: splice_def take_Suc_conv_app_nth)

lemma enter_in_transition:
  assumes "findIndex (\<lambda>b. block_id b = blockId) blocks = Some i"
    and "block_type (blocks ! i) = ''transition''"
  shows "fst (handleEnterKey toUpperCase blocks blockId elementText caretPos now'
                lastKeyPressTime newId)
         = take i blocks
           @ [(blocks ! i)\<lparr>content :=
                 (if trim (take caretPos elementText) \<noteq> []
                  then toUpperCase (trim (take caretPos elementText))
                  else content (blocks ! i))\<rparr>,
              new_block newId ''scene-heading'' []]
           @ drop (Suc i) blocks"
proof -
  from findIndex_Some(1) [OF assms(1)] have i: "i < length blocks" .
  show ?thesis
    using assms splice_update [OF i] splice_same [OF i]
    by (simp add: handleEnterKey_def Let_def)
qed

lemma edited_blocks:
  assumes "\<And>b. block_id (g b) = block_id b"
  shows "list_all2 (\<lambda>b u. block_id u = block_id b \<and> (block_id b = blockId \<or> u = b)) blocks
           (map (\<lambda>block. if block_id block \<noteq> blockId then block else g block) blocks)"
  using assms by (simp add: list_all2_map2 list_all2_same)

lemma content_change_creates_transition:
  assumes idx: "findIndex (\<lambda>b. block_id b = blockId) blocks = Some i"
    and ne: "trim newContent \<noteq> []"
    and tr: "block_type (handleContentChange toUpperCase blocks blockId newContent forcedType
               newId ! i) = ''transition''"
    and was: "block_type (blocks ! i) \<noteq> ''transition'' \<or> forcedType = Some ''transition''"
  shows "length (handleContentChange toUpperCase blocks blockId newContent forcedType newId)
           = Suc (length blocks)
         \<and> handleContentChange toUpperCase blocks blockId newContent forcedType newId ! Suc i
           = new_block newId ''scene-heading'' []
         \<and> list_all2 (\<lambda>b u. block_id u = block_id b \<and> (block_id b = blockId \<or> u = b)) blocks
             (remove_at (Suc i)
                (handleContentChange toUpperCase blocks blockId newContent forcedType newId))"
proof -
  from findIndex_Some(1) [OF idx] have i: "i < length blocks" .
  show ?thesis
  proof (cases "forcedType \<noteq> None \<and> forcedType \<noteq> Some []")
    case True
    then obtain t where t: "forcedType = Some t" "t \<noteq> []" by auto
    define ub where "ub = map (\<lambda>block. if block_id block \<noteq> blockId then block
                                    else block\<lparr>block_type := t, content := newContent\<rparr>) blocks"
    have len: "Suc i \<le> length ub" "length ub = length blocks" using i by (simp_all add: ub_def)
    have ubi: "block_type (ub ! i) = t"
      using i findIndex_Some(2) [OF idx] by (simp add: ub_def)
    have r: "handleContentChange toUpperCase blocks blockId newContent forcedType newId =
      (if t = ''transition'' then splice (Suc i) (new_block newId ''scene-heading'' []) ub else ub)"
      using idx ne t by (simp add: handleContentChange_def Let_def ub_def)
    have "t = ''transition''"
    proof (rule ccontr)
      assume "t \<noteq> ''transition''"
      with r tr ubi show False by simp
    qed
    with r have r': "handleContentChange toUpperCase blocks blockId newContent forcedType newId
        = splice (Suc i) (new_block newId ''scene-heading'' []) ub"
      by simp
    have "list_all2 (\<lambda>b u. block_id u = block_id b \<and> (block_id b = blockId \<or> u = b)) blocks ub"
      unfolding ub_def by (rule edited_blocks) simp
    then show ?thesis
      unfolding r' using splice_nth [OF len(1)] len(2) by simp
  next
    case False
    with was have old: "block_type (blocks ! i) \<noteq> ''transition''" by auto
    define ub where "ub = map (\<lambda>block. if block_id block \<noteq> blockId then block
                                    else change_block toUpperCase newContent block) blocks"
    have len: "Suc i \<le> length ub" "length ub = length blocks" using i by (simp_all add: ub_def)
    have r: "handleContentChange toUpperCase blocks blockId newContent forcedType newId =
      (if block_type (ub ! i) = ''transition''
       then splice (Suc i) (new_block newId ''scene-heading'' []) ub else ub)"
      using idx ne False old by (auto simp: handleContentChange_def Let_def ub_def)
    have "block_type (ub ! i) = ''transition''"
    proof (rule ccontr)
      assume "block_type (ub ! i) \<noteq> ''transition''"
      with r tr show False by simp
    qed
    with r have r': "handleContentChange toUpperCase blocks blockId newContent forcedType newId
        = splice (Suc i) (new_block newId ''scene-heading'' []) ub"
      by simp
    have "list_all2 (\<lambda>b u. block_id u = block_id b \<and> (block_id b = blockId \<or> u = b)) blocks ub"
      unfolding ub_def by (rule edited_blocks) (simp add: change_block_def Let_def)
    then show ?thesis
      unfolding r' using splice_nth [OF len(1)] len(2) by simp
  qed
qed

text \<open>
  Claim C2, as the code has it. The controller puts a scene heading after a transition
  at the moment the transition is made or left. Enter in a transition block, unless the
  element holds white space only, inserts an empty scene-heading block right after the
  block: the blocks before it and the blocks after it stay as they are and in place,
  and the block itself keeps its type and takes as content the trimmed, upper-cased
  text before the caret when that is not empty. Enter in an element that holds white
  space only changes nothing. A content change that leaves non-empty content and makes
  the block a transition, from another type or through a forced type \<open>transition\<close>,
  inserts an empty scene-heading block right after it: the result is one block longer,
  and without the new block it has the blocks of the old sequence, the same but for
  the edited one.
\<close>

theorem transition_followed_on_creation:
  "(findIndex (\<lambda>b. block_id b = blockId) blocks = Some i
      \<and> block_type (blocks ! i) = ''transition''
    \<longrightarrow> keyEnter toUpperCase blocks blockId elementText caretPos now' lastKeyPressTime newId
          = (if trim elementText \<noteq> [] \<or> elementText = [] then
               take i blocks
               @ [(blocks ! i)\<lparr>content :=
                     (if trim (take caretPos elementText) \<noteq> []
                      then toUpperCase (trim (take caretPos elementText))
                      else content (blocks ! i))\<rparr>,
                  new_block newId ''scene-heading'' []]
               @ drop (Suc i) blocks
             else blocks))
   \<and> (findIndex (\<lambda>b. block_id b = blockId) blocks = Some i
      \<and> trim newContent \<noteq> []
      \<and> block_type (handleContentChange toUpperCase blocks blockId newContent forcedType
                       newId ! i) = ''transition''
      \<and> (block_type (blocks ! i) \<noteq> ''transition'' \<or> forcedType = Some ''transition'')
    \<longrightarrow> length (handleContentChange toUpperCase blocks blockId newContent forcedType newId)
          = Suc (length blocks)
        \<and> handleContentChange toUpperCase blocks blockId newContent forcedType newId ! Suc i
          = new_block newId ''scene-heading'' []
        \<and> list_all2 (\<lambda>b u. block_id u = block_id b \<and> (block_id b = blockId \<or> u = b)) blocks
            (remove_at (Suc i)
               (handleContentChange toUpperCase blocks blockId newContent forcedType newId)))"
proof (intro conjI impI)
  assume "findIndex (\<lambda>b. block_id b = blockId) blocks = Some i
      \<and> block_type (blocks ! i) = ''transition''"
  then have a: "findIndex (\<lambda>b. block_id b = blockId) blocks = Some i"
    and b: "block_type (blocks ! i) = ''transition''" by simp_all
  show "keyEnter toUpperCase blocks blockId elementText caretPos now' lastKeyPressTime newId
          = (if trim elementText \<noteq> [] \<or> elementText = [] then
               take i blocks
               @ [(blocks ! i)\<lparr>content :=
                     (if trim (take caretPos elementText) \<noteq> []
                      then toUpperCase (trim (take caretPos elementText))
                      else content (blocks ! i))\<rparr>,
                  new_block newId ''scene-heading'' []]
               @ drop (Suc i) blocks
             else blocks)"
    unfolding keyEnter_def enter_in_transition [OF a b] by (rule refl)
next
  assume "findIndex (\<lambda>b. block_id b = blockId) blocks = Some i
      \<and> trim newContent \<noteq> []
      \<and> block_type (handleContentChange toUpperCase blocks blockId newContent forcedType
                       newId ! i) = ''transition''
      \<and> (block_type (blocks ! i) \<noteq> ''transition'' \<or> forcedType = Some ''transition'')"
  then have a: "findIndex (\<lambda>b. block_id b = blockId) blocks = Some i"
    and b: "trim newContent \<noteq> []"
    and c: "block_type (handleContentChange toUpperCase blocks blockId newContent forcedType
                          newId ! i) = ''transition''"
    and d: "block_type (blocks ! i) \<noteq> ''transition'' \<or> forcedType = Some ''transition''"
    by simp_all
  from content_change_creates_transition [OF a b c d]
  show "length (handleContentChange toUpperCase blocks blockId newContent forcedType newId)
          = Suc (length blocks)"
    and "handleContentChange toUpperCase blocks blockId newContent forcedType newId ! Suc i
          = new_block newId ''scene-heading'' []"
    and "list_all2 (\<lambda>b u. block_id u = block_id b \<and> (block_id b = blockId \<or> u = b)) blocks
            (remove_at (Suc i)
               (handleContentChange toUpperCase blocks blockId newContent forcedType newId))"
    by simp_all
qed

theorem transition_followed_on_creation_witness:
  "findIndex (\<lambda>b. block_id b = ''3'') two_scenes = Some 2
   \<and> block_type (two_scenes ! 2) = ''transition''
   \<and> trim (js ''cut to:'') \<noteq> []
   \<and> keyEnter upperASCII two_scenes ''3'' (js ''cut to:'') 7 1000 0 ''9''
       = [blk ''1'' ''scene-heading'' (js ''INT. HOUSE - DAY''),
          blk ''2'' ''action'' (js ''He walks in.''),
          blk ''3'' ''transition'' (js ''CUT TO:''),
          blk ''9'' ''scene-heading'' [],
          blk ''4'' ''scene-heading'' (js ''EXT. STREET - NIGHT''),
          blk ''5'' ''action'' (js ''Rain.'')]
   \<and> findIndex (\<lambda>b. block_id b = ''3'') two_scenes_action = Some 2
   \<and> block_type (two_scenes_action ! 2) \<noteq> ''transition''
   \<and> block_type (handleContentChange upperASCII two_scenes_action ''3'' (js ''cut to:'') None
                    ''9'' ! 2) = ''transition''
   \<and> length (handleContentChange upperASCII two_scenes_action ''3'' (js ''cut to:'') None ''9'')
       = Suc (length two_scenes_action)
   \<and> handleContentChange upperASCII two_scenes_action ''3'' (js ''cut to:'') None ''9'' ! Suc 2
       = new_block ''9'' ''scene-heading'' []
   \<and> handleContentChange upperASCII two_scenes_action ''3'' (js ''cut to:'') None ''9''
       = [blk ''1'' ''scene-heading'' (js ''INT. HOUSE - DAY''),
          blk ''2'' ''action'' (js ''He walks in.''),
          blk ''3'' ''transition'' (js ''CUT TO:''),
          blk ''9'' ''scene-heading'' [],
          blk ''4'' ''scene-heading'' (js ''EXT. STREET - NIGHT''),
          blk ''5'' ''action'' (js ''Rain.'')]"
proof -
  have h1: "findIndex (\<lambda>b. block_id b = ''3'') two_scenes = Some 2"
    by (simp add: findIndex_def two_scenes_def blk_def)
  have h2: "block_type (two_scenes ! 2) = ''transition''"
    by (simp add: two_scenes_def blk_def)
  have h3: "trim (js ''cut to:'') \<noteq> []"
    by (simp add: trim_def isSpace_def js_def)
  have h4: "findIndex (\<lambda>b. block_id b = ''3'') two_scenes_action = Some 2"
    by (simp add: findIndex_def two_scenes_action_def blk_def)
  have h5: "block_type (two_scenes_action ! 2) \<noteq> ''transition''"
    by (simp add: two_scenes_action_def blk_def)
  have h6: "block_type (handleContentChange upperASCII two_scenes_action ''3'' (js ''cut to:'')
                          None ''9'' ! 2) = ''transition''"
    by (simp add: handler_defs format_defs two_scenes_action_def)
  have up: "upperASCII (trim (take 7 (js ''cut to:''))) = js ''CUT TO:''"
    "trim (take 7 (js ''cut to:'')) \<noteq> []"
    by (simp_all add: trim_def isSpace_def js_def upperASCII_def canon_def)
  note t1 = transition_followed_on_creation
    [of "''3''" two_scenes 2 upperASCII "js ''cut to:''" 7 1000 0 "''9''"]
  note t2 = transition_followed_on_creation
    [of "''3''" two_scenes_action 2 upperASCII _ _ _ _ "''9''" "js ''cut to:''" None]
  from t1 h1 h2 have
    "keyEnter upperASCII two_scenes ''3'' (js ''cut to:'') 7 1000 0 ''9''
       = (if trim (js ''cut to:'') \<noteq> [] \<or> js ''cut to:'' = [] then
            take 2 two_scenes
            @ [(two_scenes ! 2)\<lparr>content :=
                  (if trim (take 7 (js ''cut to:'')) \<noteq> []
                   then upperASCII (trim (take 7 (js ''cut to:'')))
                   else content (two_scenes ! 2))\<rparr>,
               new_block ''9'' ''scene-heading'' []]
            @ drop (Suc 2) two_scenes
          else two_scenes)"
    by blast
  then have e: "keyEnter upperASCII two_scenes ''3'' (js ''cut to:'') 7 1000 0 ''9''
       = [blk ''1'' ''scene-heading'' (js ''INT. HOUSE - DAY''),
          blk ''2'' ''action'' (js ''He walks in.''),
          blk ''3'' ''transition'' (js ''CUT TO:''),
          blk ''9'' ''scene-heading'' [],
          blk ''4'' ''scene-heading'' (js ''EXT. STREET - NIGHT''),
          blk ''5'' ''action'' (js ''Rain.'')]"
    using h3 up by (simp add: two_scenes_def blk_def new_block_def)
  from t2 h3 h4 h5 h6 have c:
    "length (handleContentChange upperASCII two_scenes_action ''3'' (js ''cut to:'') None ''9'')
       = Suc (length two_scenes_action)
     \<and> handleContentChange upperASCII two_scenes_action ''3'' (js ''cut to:'') None ''9'' ! Suc 2
       = new_block ''9'' ''scene-heading'' []"
    by blast
  have f: "handleContentChange upperASCII two_scenes_action ''3'' (js ''cut to:'') None ''9''
       = [blk ''1'' ''scene-heading'' (js ''INT. HOUSE - DAY''),
          blk ''2'' ''action'' (js ''He walks in.''),
          blk ''3'' ''transition'' (js ''CUT TO:''),
          blk ''9'' ''scene-heading'' [],
          blk ''4'' ''scene-heading'' (js ''EXT. STREET - NIGHT''),
          blk ''5'' ''action'' (js ''Rain.'')]"
    by (simp add: handler_defs format_defs two_scenes_action_def)
  from c have c1: "length (handleContentChange upperASCII two_scenes_action ''3'' (js ''cut to:'')
       None ''9'') = Suc (length two_scenes_action)"
    and c2: "handleContentChange upperASCII two_scenes_action ''3'' (js ''cut to:'') None ''9''
       ! Suc 2 = new_block ''9'' ''scene-heading'' []"
    by simp_all
  from h1 h2 h3 e h4 h5 h6 c1 c2 f show ?thesis by (intro conjI)
qed

text \<open>
  Claim C2 as stated fails: no handler keeps the sequence in the state where every
  transition block is followed by a scene heading. A format change or Tab to
  \<open>transition\<close> inserts nothing; Backspace deletes the empty scene heading after a
  transition; a content change retypes that scene heading (\<open>SARAH\<close> makes it a
  character block); Enter after the text \<open>CUT TO:\<close> in an action block opens a
  transition block with nothing after it; and Enter in a last transition block that
  holds a space only is ignored.
\<close>

theorem transitions_followed_counterexample:
  "transitions_followed [blk ''1'' ''action'' (js ''x'')]
   \<and> map view (handleFormatChange upperASCII [blk ''1'' ''action'' (js ''x'')] (Some ''1'')
                 ''transition'')
       = [(''transition'', js ''X'')]
   \<and> \<not> transitions_followed
         (handleFormatChange upperASCII [blk ''1'' ''action'' (js ''x'')] (Some ''1'')
            ''transition'')
   \<and> transitions_followed [blk ''1'' ''dialogue'' (js ''x'')]
   \<and> \<not> transitions_followed
         (keyTab upperASCII [blk ''1'' ''dialogue'' (js ''x'')] (Some ''1'') ''1'')
   \<and> transitions_followed after_transition
   \<and> map view (keyBackspace after_transition ''2'' []) = [(''transition'', js ''CUT TO:'')]
   \<and> \<not> transitions_followed (keyBackspace after_transition ''2'' [])
   \<and> map view (handleContentChange upperASCII after_transition ''2'' (js ''SARAH'') None ''9'')
       = [(''transition'', js ''CUT TO:''), (''character'', js ''SARAH'')]
   \<and> \<not> transitions_followed
         (handleContentChange upperASCII after_transition ''2'' (js ''SARAH'') None ''9'')
   \<and> transitions_followed [blk ''1'' ''action'' (js ''CUT TO:'')]
   \<and> map view (keyEnter upperASCII [blk ''1'' ''action'' (js ''CUT TO:'')] ''1''
                 (js ''CUT TO:'') 7 1000 0 ''9'')
       = [(''action'', js ''CUT TO:''), (''transition'', [])]
   \<and> \<not> transitions_followed
         (keyEnter upperASCII [blk ''1'' ''action'' (js ''CUT TO:'')] ''1'' (js ''CUT TO:'')
            7 1000 0 ''9'')
   \<and> keyEnter upperASCII [blk ''1'' ''transition'' (js '' '')] ''1'' (js '' '') 1 1000 0 ''9''
       = [blk ''1'' ''transition'' (js '' '')]
   \<and> \<not> transitions_followed
         (keyEnter upperASCII [blk ''1'' ''transition'' (js '' '')] ''1'' (js '' '') 1 1000 0
            ''9'')"
proof -
  have tab: "keyTab upperASCII [blk ''1'' ''dialogue'' (js ''x'')] (Some ''1'') ''1''
      = handleFormatChange upperASCII [blk ''1'' ''dialogue'' (js ''x'')] (Some ''1'')
          ''transition''"
    by (simp add: keyTab_def findIndex_def BLOCK_TYPES_def blk_def)
  have c1: "transitions_followed [blk ''1'' ''action'' (js ''x'')]"
    by (simp add: handler_defs format_defs after_transition_def view_def)
  have c2: "map view (handleFormatChange upperASCII [blk ''1'' ''action'' (js ''x'')] (Some ''1'')
                    ''transition'')
          = [(''transition'', js ''X'')]"
    by (simp add: handler_defs format_defs after_transition_def view_def)
  have c3: "\<not> transitions_followed
            (handleFormatChange upperASCII [blk ''1'' ''action'' (js ''x'')] (Some ''1'')
               ''transition'')"
    by (simp add: handler_defs format_defs after_transition_def view_def)
  have c4: "transitions_followed [blk ''1'' ''dialogue'' (js ''x'')]"
    by (simp add: handler_defs format_defs after_transition_def view_def)
  have c5: "\<not> transitions_followed
            (keyTab upperASCII [blk ''1'' ''dialogue'' (js ''x'')] (Some ''1'') ''1'')"
    unfolding tab by (simp add: handler_defs format_defs)
  have c6: "transitions_followed after_transition"
    by (simp add: handler_defs format_defs after_transition_def view_def)
  have c7: "map view (keyBackspace after_transition ''2'' []) = [(''transition'', js ''CUT TO:'')]"
    by (simp add: handler_defs format_defs after_transition_def view_def)
  have c8: "\<not> transitions_followed (keyBackspace after_transition ''2'' [])"
    by (simp add: handler_defs format_defs after_transition_def view_def)
  have c9: "map view (handleContentChange upperASCII after_transition ''2'' (js ''SARAH'') None ''9'')
          = [(''transition'', js ''CUT TO:''), (''character'', js ''SARAH'')]"
    by (simp add: handler_defs format_defs after_transition_def view_def)
  have c10: "\<not> transitions_followed
            (handleContentChange upperASCII after_transition ''2'' (js ''SARAH'') None ''9'')"
    by (simp add: handler_defs format_defs after_transition_def view_def)
  have c11: "transitions_followed [blk ''1'' ''action'' (js ''CUT TO:'')]"
    by (simp add: handler_defs format_defs after_transition_def view_def)
  have c12: "map view (keyEnter upperASCII [blk ''1'' ''action'' (js ''CUT TO:'')] ''1''
                    (js ''CUT TO:'') 7 1000 0 ''9'')
          = [(''action'', js ''CUT TO:''), (''transition'', [])]"
    by (simp add: handler_defs format_defs after_transition_def view_def)
  have c13: "\<not> transitions_followed
            (keyEnter upperASCII [blk ''1'' ''action'' (js ''CUT TO:'')] ''1'' (js ''CUT TO:'')
               7 1000 0 ''9'')"
    by (simp add: handler_defs format_defs after_transition_def view_def)
  have c14: "keyEnter upperASCII [blk ''1'' ''transition'' (js '' '')] ''1'' (js '' '') 1 1000 0 ''9''
          = [blk ''1'' ''transition'' (js '' '')]"
    by (simp add: handler_defs format_defs after_transition_def view_def)
  have c15: "\<not> transitions_followed
            (keyEnter upperASCII [blk ''1'' ''transition'' (js '' '')] ''1'' (js '' '') 1 1000 0
               ''9'')"
    by (simp add: handler_defs format_defs after_transition_def view_def)
  from c1 c2 c3 c4 c5 c6 c7 c8 c9 c10 c11 c12 c13 c14 c15
  show ?thesis by (intro conjI)
qed

end
